(* ===== verification/Nsoc_Prelude.thy ===== *)
theory Nsoc_Prelude
  imports Main "HOL-Library.Word"
begin

unbundle bit_operations_syntax

text \<open>
  Shared vocabulary of the development: bytes, the return codes of nginx, the outcome of
  running a C function, big-endian length fields, reads and writes of a memory region, and
  the lemma collections the component theories use.

  A C function is modelled as a function into \<open>run\<close>: it returns a value and a state
  (\<open>Ret\<close>), it crashes on an access that the language does not define (\<open>Crash\<close>), or it is
  still looping when the fuel given to one of its loops is used up (\<open>Diverge\<close>).
\<close>

named_theorems nsoc_defs \<open>unfolding rules of small helper definitions\<close>
named_theorems nsoc_bounds \<open>bounds on sizes and length fields\<close>

section \<open>Types and return codes\<close>

type_synonym byte = "8 word"
type_synonym uint16 = "16 word"

abbreviation NGX_OK :: int where "NGX_OK \<equiv> 0"
abbreviation NGX_ERROR :: int where "NGX_ERROR \<equiv> - 1"
abbreviation NGX_AGAIN :: int where "NGX_AGAIN \<equiv> - 2"
abbreviation NGX_BUSY :: int where "NGX_BUSY \<equiv> - 3"
abbreviation NGX_DONE :: int where "NGX_DONE \<equiv> - 4"
abbreviation NGX_DECLINED :: int where "NGX_DECLINED \<equiv> - 5"

section \<open>Outcome of a run\<close>

datatype crash = Null_deref | Out_of_bounds | Uninitialised

datatype ('a, 's) run = Ret 'a 's | Crash crash | Diverge

fun bind_run :: "('a, 's) run \<Rightarrow> ('a \<Rightarrow> 's \<Rightarrow> ('b, 's) run) \<Rightarrow> ('b, 's) run" where
  "bind_run (Ret a s) f = f a s"
| "bind_run (Crash e) f = Crash e"
| "bind_run Diverge f = Diverge"

lemma bind_run_Ret_iff:
  "bind_run r f = Ret b t \<longleftrightarrow> (\<exists>a s. r = Ret a s \<and> f a s = Ret b t)"
  by (cases r) auto

lemma bind_run_cong [fundef_cong]:
  "r = r' \<Longrightarrow> (\<And>a s. r' = Ret a s \<Longrightarrow> f a s = g a s) \<Longrightarrow> bind_run r f = bind_run r' g"
  by (cases r') auto

text \<open>
  \<open>keeps f v r\<close>: whenever the run \<open>r\<close> returns, the observation \<open>f\<close> of the final state is \<open>v\<close>.
\<close>

definition keeps :: "('s \<Rightarrow> 'v) \<Rightarrow> 'v \<Rightarrow> ('a, 's) run \<Rightarrow> bool" where
  "keeps f v r \<longleftrightarrow> (\<forall>a t. r = Ret a t \<longrightarrow> f t = v)"

lemma keeps_simps [simp]:
  "keeps f v (Ret a s) \<longleftrightarrow> f s = v" "keeps f v (Crash e)" "keeps f v Diverge"
  by (simp_all add: keeps_def)

lemma keeps_bind:
  "keeps f v r \<Longrightarrow> (\<And>a t. r = Ret a t \<Longrightarrow> f t = v \<Longrightarrow> keeps f v (g a t)) \<Longrightarrow> keeps f v (bind_run r g)"
  by (cases r) (simp_all add: keeps_def)

lemma keepsD: "keeps f v r \<Longrightarrow> r = Ret a t \<Longrightarrow> f t = v"
  by (simp add: keeps_def)

text \<open>\<open>yields P r\<close>: whenever the run \<open>r\<close> returns, its value satisfies \<open>P\<close>.\<close>

definition yields :: "('a \<Rightarrow> bool) \<Rightarrow> ('a, 's) run \<Rightarrow> bool" where
  "yields P r \<longleftrightarrow> (\<forall>a t. r = Ret a t \<longrightarrow> P a)"

lemma yields_simps [simp]:
  "yields P (Ret a s) \<longleftrightarrow> P a" "yields P (Crash e)" "yields P Diverge"
  by (simp_all add: yields_def)

lemma yields_bind:
  "(\<And>a t. r = Ret a t \<Longrightarrow> yields P (g a t)) \<Longrightarrow> yields P (bind_run r g)"
  by (cases r) simp_all

lemma yieldsD: "yields P r \<Longrightarrow> r = Ret a t \<Longrightarrow> P a"
  by (simp add: yields_def)

section \<open>Length fields\<close>

text \<open>
  \<open>be16\<close> is the pair of assignments \<open>p[0] = (uint8_t)(n >> 8); p[1] = (uint8_t) n\<close> and
  \<open>rd16\<close> the inverse computation \<open>(p[0] << 8) | p[1]\<close>. \<open>le16\<close> is the memory image of a
  \<open>uint16_t\<close> on a little-endian machine, which the code relies on when it stores
  \<open>swapw(x)\<close> through a \<open>uint16_t *\<close>.
\<close>

definition be16 :: "nat \<Rightarrow> byte list" where
  "be16 n = [word_of_nat (n div 256), word_of_nat n]"

definition rd16 :: "byte \<Rightarrow> byte \<Rightarrow> nat" where
  "rd16 a b = unat a * 256 + unat b"

definition le16 :: "uint16 \<Rightarrow> byte list" where
  "le16 x = [ucast x, ucast (drop_bit 8 x)]"

definition of_le16 :: "byte \<Rightarrow> byte \<Rightarrow> uint16" where
  "of_le16 a b = ucast a OR push_bit 8 (ucast b)"

lemma length_be16 [simp]: "length (be16 n) = 2"
  by (simp add: be16_def)

lemma length_le16 [simp]: "length (le16 x) = 2"
  by (simp add: le16_def)

lemma rd16_less [nsoc_bounds]: "rd16 a b < 65536"
proof -
  have "unat a < 256" "unat b < 256"
    using unsigned_less [of a] unsigned_less [of b] by simp_all
  then show ?thesis by (simp add: rd16_def)
qed

lemma rd16_word_of_nat: "n < 65536 \<Longrightarrow> rd16 (word_of_nat (n div 256)) (word_of_nat n) = n"
proof -
  assume "n < 65536"
  then have "n div 256 < 256" by simp
  then show ?thesis by (simp add: rd16_def unat_of_nat)
qed

lemma be16_inject:
  assumes "be16 m = be16 n" and "m < 65536" and "n < 65536"
  shows "m = n"
proof -
  from assms(1) have "(word_of_nat (m div 256) :: byte) = word_of_nat (n div 256)"
    and "(word_of_nat m :: byte) = word_of_nat n"
    unfolding be16_def by (simp_all only: list.inject)
  then have "rd16 (word_of_nat (m div 256)) (word_of_nat m)
      = rd16 (word_of_nat (n div 256)) (word_of_nat n)"
    by (simp only:)
  then show ?thesis
    by (simp only: rd16_word_of_nat [OF assms(2)] rd16_word_of_nat [OF assms(3)])
qed

lemma of_le16_le16: "of_le16 (ucast x) (ucast (drop_bit 8 x)) = x"
proof (rule bit_word_eqI)
  fix n :: nat
  assume "n < LENGTH(16)"
  then show "bit (of_le16 (ucast x) (ucast (drop_bit 8 x))) n = bit x n"
    by (cases "n < 8") (auto simp: of_le16_def bit_simps)
qed

section \<open>Memory regions\<close>

text \<open>A region is the list of its bytes; an access outside it is not defined.\<close>

definition mem_write :: "nat \<Rightarrow> byte list \<Rightarrow> byte list \<Rightarrow> byte list option" where
  "mem_write off bs m =
     (if off + length bs \<le> length m
      then Some (take off m @ bs @ drop (off + length bs) m) else None)"

definition mem_read :: "nat \<Rightarrow> nat \<Rightarrow> byte list \<Rightarrow> byte list option" where
  "mem_read off n m = (if off + n \<le> length m then Some (take n (drop off m)) else None)"

lemma mem_write_length: "mem_write off bs m = Some m' \<Longrightarrow> length m' = length m"
  by (auto simp: mem_write_def split: if_splits)

lemma mem_read_write:
  "mem_write off bs m = Some m' \<Longrightarrow> mem_read off (length bs) m' = Some bs"
  by (auto simp: mem_write_def mem_read_def split: if_splits)

lemma mem_write_append:
  assumes "mem_write off xs m = Some m1" and "mem_write (off + length xs) ys m1 = Some m2"
  shows "mem_write off (xs @ ys) m = Some m2"
  using assms by (auto simp: mem_write_def ac_simps split: if_splits)

lemma mem_write_Nil [simp]: "off \<le> length m \<Longrightarrow> mem_write off [] m = Some m"
  by (simp add: mem_write_def)

text \<open>A prefix, a two-byte field behind it, and a body written behind the field.\<close>

lemma mem_write_framed:
  assumes "mem_write 0 pre m = Some m1" and "mem_write sz body m1 = Some m2"
    and "mem_write (sz - 2) fld m2 = Some m3" and "length pre + 2 = sz" and "length fld = 2"
  shows "take (sz + length body) m3 = pre @ fld @ body"
  using assms by (auto simp: mem_write_def split: if_splits)

text \<open>What lies between a start offset and the end of a write: the old part, then the new bytes.\<close>

lemma mem_write_prefix:
  assumes "mem_write p bs m = Some m'" and "st \<le> p"
  shows "take (p + length bs - st) (drop st m') = take (p - st) (drop st m) @ bs"
proof -
  from assms(1) have le: "p + length bs \<le> length m"
    and m': "m' = take p m @ bs @ drop (p + length bs) m"
    by (auto simp: mem_write_def split: if_splits)
  from assms(2) le have "drop st m' = drop st (take p m) @ bs @ drop (p + length bs) m"
    unfolding m' by simp
  moreover have "length (drop st (take p m)) = p - st" using le by simp
  moreover have "p + length bs - st = (p - st) + length bs" using assms(2) by simp
  moreover have "drop st (take p m) = take (p - st) (drop st m)" by (simp add: drop_take)
  ultimately show ?thesis by simp
qed

lemma be16_rd16: "be16 (rd16 a b) = [a, b]"
proof -
  have a: "unat a < 256" and b: "unat b < 256"
    using unsigned_less [of a] unsigned_less [of b] by simp_all
  have "(unat a * 256 + unat b) div 256 = unat a" using b by simp
  moreover have "(word_of_nat (unat a * 256 + unat b) :: byte) = b"
  proof -
    have "(256 :: byte) = 2 ^ 8" by simp
    also have "\<dots> = 0" by (simp only: exp_eq_zero_iff) simp
    finally have "(256 :: byte) = 0" .
    then have "a * 256 = 0" by (simp only: mult_zero_right)
    then show ?thesis by simp
  qed
  ultimately show ?thesis by (simp add: be16_def rd16_def)
qed

end
