(* ===== verification/Noise_Protocol.thy ===== *)
theory Noise_Protocol
  imports Nsoc_Prelude
begin

text \<open>
  Model of \<open>src/ngx_noise_protocol.h\<close> and \<open>src/ngx_noise_protocol.c\<close>: the negotiation
  headers of the Noise Socket protocol and their packed memory image, the two key-file
  loaders, and the preparation of a Noise handshake object.

  The Noise-C library is a parameter: the record \<open>noise_c\<close> holds one function per library
  call the module makes, over an abstract handshake object \<open>'h\<close> and an abstract cipher
  object \<open>'k\<close>.
\<close>

section \<open>Constants\<close>

definition NOISE_PROTOCOL_CURVE25519_KEY_LEN :: nat where
  [simp]: "NOISE_PROTOCOL_CURVE25519_KEY_LEN = 32"

definition NOISE_PROTOCOL_MAX_DH_KEY_LEN :: nat where
  [simp]: "NOISE_PROTOCOL_MAX_DH_KEY_LEN = 2048"

definition NOISE_PROTOCOL_PAYLOAD_SIZE :: nat where
  [simp]: "NOISE_PROTOCOL_PAYLOAD_SIZE = 65517"

definition NOISE_PROTOCOL_MAC_DATA_SIZE :: nat where
  [simp]: "NOISE_PROTOCOL_MAC_DATA_SIZE = 16"

definition NOISE_PROTOCOL_MAX_HANDSHAKE_LEN :: nat where
  [simp]: "NOISE_PROTOCOL_MAX_HANDSHAKE_LEN =
     NOISE_PROTOCOL_CURVE25519_KEY_LEN * 2 + NOISE_PROTOCOL_MAC_DATA_SIZE * 2"

definition swapw :: "uint16 \<Rightarrow> uint16" where
  "swapw x = drop_bit 8 (x AND 0xFF00) OR push_bit 8 (x AND 0x00FF)"

datatype ngx_noise_role = NGX_NSOC_UNSET_ROLE | NGX_NSOC_CLIENT_ROLE | NGX_NSOC_SERVER_ROLE

section \<open>Headers and their packed images\<close>

record noise_handshake_first_hdr =
  version_id :: uint16
  dh_id :: byte
  cipher_id :: byte
  hash_id :: byte
  pattern_id :: byte

record noise_prologue_data =
  strPrologue :: "byte list"
  header_len :: uint16
  header :: noise_handshake_first_hdr

text \<open>The structures are declared under \<open>#pragma pack(push, 1)\<close>: their image has no padding.\<close>

definition first_hdr_bytes :: "noise_handshake_first_hdr \<Rightarrow> byte list" where
  "first_hdr_bytes h = le16 (version_id h) @ [dh_id h, cipher_id h, hash_id h, pattern_id h]"

definition prologue_bytes :: "noise_prologue_data \<Rightarrow> byte list" where
  "prologue_bytes p = strPrologue p @ le16 (header_len p) @ first_hdr_bytes (header p)"

text \<open>The cast \<open>(noise_handshake_first_hdr_t *) bytes\<close>; \<open>None\<close> when it reads past the bytes.\<close>

fun first_hdr_of_bytes :: "byte list \<Rightarrow> noise_handshake_first_hdr option" where
  "first_hdr_of_bytes (a # b # c # d # e # f # _) =
     Some \<lparr>version_id = of_le16 a b, dh_id = c, cipher_id = d, hash_id = e, pattern_id = f\<rparr>"
| "first_hdr_of_bytes _ = None"

section \<open>The Noise-C library\<close>

record noise_protocol_id =
  np_prefix_id :: int
  np_pattern_id :: int
  np_dh_id :: int
  np_cipher_id :: int
  np_hash_id :: int
  np_hybrid_id :: int

text \<open>
  \<open>NOISE_ID(ch, num)\<close> is \<open>(((int) ch) << 8) | ((int) num)\<close> in Noise-C; every identifier and
  every action of the library is built with it.
\<close>

definition NOISE_ID :: "nat \<Rightarrow> nat \<Rightarrow> int" where
  "NOISE_ID ch num = int (ch * 256 + num)"

abbreviation NOISE_ERROR_NONE :: int where "NOISE_ERROR_NONE \<equiv> 0"
abbreviation NOISE_ACTION_WRITE_MESSAGE :: int where "NOISE_ACTION_WRITE_MESSAGE \<equiv> 16641"
abbreviation NOISE_ACTION_READ_MESSAGE :: int where "NOISE_ACTION_READ_MESSAGE \<equiv> 16642"
abbreviation NOISE_ACTION_SPLIT :: int where "NOISE_ACTION_SPLIT \<equiv> 16644"
abbreviation NOISE_ROLE_INITIATOR :: int where "NOISE_ROLE_INITIATOR \<equiv> 20993"
abbreviation NOISE_ROLE_RESPONDER :: int where "NOISE_ROLE_RESPONDER \<equiv> 20994"
abbreviation NOISE_PREFIX_STANDARD :: int where "NOISE_PREFIX_STANDARD \<equiv> 19969"

record ('h, 'k) noise_c =
  noise_init :: int
  hs_new_by_id :: "noise_protocol_id \<Rightarrow> int \<Rightarrow> int \<times> 'h option"
  hs_set_prologue :: "byte list \<Rightarrow> 'h \<Rightarrow> int \<times> 'h"
  hs_needs_local_keypair :: "'h \<Rightarrow> bool"
  hs_private_key_length :: "'h \<Rightarrow> nat"
  hs_set_keypair_private :: "byte list \<Rightarrow> 'h \<Rightarrow> int \<times> 'h"
  hs_needs_remote_public_key :: "'h \<Rightarrow> bool"
  hs_public_key_length :: "'h \<Rightarrow> nat"
  hs_set_public_key :: "byte list \<Rightarrow> 'h \<Rightarrow> int \<times> 'h"
  hs_start :: "'h \<Rightarrow> int \<times> 'h"
  hs_get_action :: "'h \<Rightarrow> int"
  hs_write_message :: "nat \<Rightarrow> 'h \<Rightarrow> int \<times> byte list \<times> 'h"
  hs_read_message :: "byte list \<Rightarrow> 'h \<Rightarrow> int \<times> 'h"
  hs_split :: "'h \<Rightarrow> int \<times> 'k option \<times> 'k option \<times> 'h"
  hs_free :: "'h \<Rightarrow> int"
  cs_encrypt :: "byte list \<Rightarrow> nat \<Rightarrow> 'k \<Rightarrow> int \<times> byte list \<times> 'k"
  cs_decrypt :: "byte list \<Rightarrow> nat \<Rightarrow> 'k \<Rightarrow> int \<times> byte list \<times> 'k"

section \<open>Keys in memory\<close>

text \<open>
  An \<open>ngx_str_t\<close> is a length and a pointer; \<open>str_data\<close> is what the pointer points to. The
  element array of an \<open>ngx_array_t\<close> of strings is the image of those pairs, 16 bytes each on
  a 64-bit machine; \<open>arr_slack\<close> is the memory that follows it in the pool.
\<close>

record ngx_str =
  str_len :: "64 word"
  str_ptr :: "64 word"
  str_data :: "byte list"

record ngx_str_array =
  arr_strs :: "ngx_str list"
  arr_slack :: "byte list"

definition le64 :: "64 word \<Rightarrow> byte list" where
  "le64 x = map (\<lambda>i. ucast (drop_bit (8 * i) x)) [0..<8]"

definition arr_elts :: "ngx_str_array \<Rightarrow> byte list" where
  "arr_elts a = concat (map (\<lambda>s. le64 (str_len s) @ le64 (str_ptr s)) (arr_strs a)) @ arr_slack a"

record noise_ctx =
  private_keys :: "ngx_str_array option"
  public_keys :: "ngx_str_array option"

record ('h, 'k) noise_protocol_conn =
  NoiseHandshakeObj :: "'h option"
  NoiseSendCipherObj :: "'k option"
  NoiseRecvCipherObj :: "'k option"
  NoisePrologue :: "byte list"
  np_id :: noise_protocol_id

section \<open>ngx\_noise\_protocol\_init\_handshake\<close>

definition protocol_id_of_hdr :: "noise_handshake_first_hdr \<Rightarrow> noise_protocol_id" where
  "protocol_id_of_hdr h =
     \<lparr>np_prefix_id = NOISE_PREFIX_STANDARD,
      np_pattern_id = NOISE_ID 80 (unat (pattern_id h)),
      np_dh_id = NOISE_ID 68 (unat (dh_id h)),
      np_cipher_id = NOISE_ID 67 (unat (cipher_id h)),
      np_hash_id = NOISE_ID 72 (unat (hash_id h)),
      np_hybrid_id = 0\<rparr>"

text \<open>
  Setting one key: \<open>dh\<close> is taken from the handshake object and \<open>key_len\<close> bytes are read
  from \<open>elts\<close>. A missing array is a null dereference, a read past the memory at \<open>elts\<close> is
  outside the language.
\<close>

definition set_key ::
  "ngx_str_array option \<Rightarrow> nat \<Rightarrow> (byte list \<Rightarrow> 'h \<Rightarrow> int \<times> 'h) \<Rightarrow> 'h \<Rightarrow> (int, 'h) run" where
  "set_key keys key_len setter h =
     (case keys of
        None \<Rightarrow> Crash Null_deref
      | Some a \<Rightarrow>
          (case mem_read 0 key_len (arr_elts a) of
             None \<Rightarrow> Crash Out_of_bounds
           | Some bs \<Rightarrow>
               (let (err, h') = setter bs h
                in Ret (if err = NOISE_ERROR_NONE then NGX_OK else NGX_ERROR) h')))"

definition set_keys :: "('h, 'k) noise_c \<Rightarrow> noise_ctx \<Rightarrow> 'h \<Rightarrow> (int, 'h) run" where
  "set_keys X ctx h =
     bind_run
       (if hs_needs_local_keypair X h
        then set_key (private_keys ctx) (hs_private_key_length X h) (hs_set_keypair_private X) h
        else Ret NGX_OK h)
       (\<lambda>rc h'. if rc \<noteq> NGX_OK then Ret NGX_ERROR h'
         else if hs_needs_remote_public_key X h'
         then set_key (public_keys ctx) (hs_public_key_length X h') (hs_set_public_key X) h'
         else Ret NGX_OK h')"

definition ngx_noise_protocol_init_handshake ::
  "('h, 'k) noise_c \<Rightarrow> noise_ctx \<Rightarrow> noise_prologue_data \<Rightarrow> ngx_noise_role \<Rightarrow>
   ('h, 'k) noise_protocol_conn \<Rightarrow> (int, ('h, 'k) noise_protocol_conn) run" where
  "ngx_noise_protocol_init_handshake X ctx prologue role nconn =
     (if role \<noteq> NGX_NSOC_CLIENT_ROLE \<and> role \<noteq> NGX_NSOC_SERVER_ROLE then Ret NGX_ERROR nconn
      else if noise_init X \<noteq> NOISE_ERROR_NONE then Ret NGX_ERROR nconn
      else
        (let pid = protocol_id_of_hdr (header prologue);
             nconn1 = nconn\<lparr>np_id := pid, NoisePrologue := prologue_bytes prologue\<rparr>;
             r = (if role = NGX_NSOC_CLIENT_ROLE then NOISE_ROLE_INITIATOR
                  else NOISE_ROLE_RESPONDER);
             (err, obj) = hs_new_by_id X pid r;
             nconn2 = nconn1\<lparr>NoiseHandshakeObj := obj\<rparr>
         in if err \<noteq> NOISE_ERROR_NONE then Ret NGX_ERROR nconn2
            else (case obj of
                    None \<Rightarrow> Crash Null_deref
                  | Some h \<Rightarrow>
                      (let (err1, h1) = hs_set_prologue X (NoisePrologue nconn2) h
                       in if err1 \<noteq> NOISE_ERROR_NONE
                          then Ret NGX_ERROR (nconn2\<lparr>NoiseHandshakeObj := Some h1\<rparr>)
                          else (case set_keys X ctx h1 of
                                  Ret rc h2 \<Rightarrow> Ret rc (nconn2\<lparr>NoiseHandshakeObj := Some h2\<rparr>)
                                | Crash e \<Rightarrow> Crash e
                                | Diverge \<Rightarrow> Diverge)))))"

section \<open>Key files\<close>

text \<open>
  A file is the list of its bytes, \<open>None\<close> when \<open>fopen\<close> fails. \<open>key\<close> is the memory of the
  destination; the loaders return the code and the memory they leave behind.
\<close>

fun load_private_loop :: "nat \<Rightarrow> byte list \<Rightarrow> nat \<Rightarrow> byte list \<Rightarrow> int \<times> nat \<times> byte list" where
  "load_private_loop len [] posn key = (NGX_OK, posn, key)"
| "load_private_loop len (ch # file) posn key =
     (if posn \<ge> len then (NGX_ERROR, posn, key)
      else load_private_loop len file (Suc posn) (key[posn := ch]))"

definition ngx_noise_protocol_load_private_key ::
  "byte list option \<Rightarrow> nat \<Rightarrow> byte list \<Rightarrow> int \<times> byte list" where
  "ngx_noise_protocol_load_private_key file len key =
     (if len > NOISE_PROTOCOL_MAX_DH_KEY_LEN then (NGX_ERROR, key)
      else (case file of
              None \<Rightarrow> (NGX_ERROR, key)
            | Some bs \<Rightarrow>
                (let (rc, posn, key') = load_private_loop len bs 0 key
                 in if rc \<noteq> NGX_OK then (rc, key')
                    else if posn < len then (NGX_ERROR, key')
                    else (NGX_OK, key'))))"

datatype b64_class = B64_digit "32 word" | B64_end | B64_bad

text \<open>
  The chain of character tests. White space leaves \<open>digit\<close> as the previous character set it,
  and the code then shifts it in once more.
\<close>

definition b64_classify :: "32 word \<Rightarrow> byte \<Rightarrow> b64_class" where
  "b64_classify digit ch =
     (if 65 \<le> ch \<and> ch \<le> 90 then B64_digit (ucast ch - 65)
      else if 97 \<le> ch \<and> ch \<le> 122 then B64_digit (ucast ch - 97 + 26)
      else if 48 \<le> ch \<and> ch \<le> 57 then B64_digit (ucast ch - 48 + 52)
      else if ch = 43 then B64_digit 62
      else if ch = 47 then B64_digit 63
      else if ch = 61 then B64_end
      else if ch \<noteq> 32 \<and> ch \<noteq> 9 \<and> ch \<noteq> 13 \<and> ch \<noteq> 10 then B64_bad
      else B64_digit digit)"

definition b64_shift :: "32 word \<Rightarrow> 32 word \<Rightarrow> 32 word" where
  "b64_shift grp digit = push_bit 6 grp OR digit"

fun load_public_loop ::
  "nat \<Rightarrow> byte list \<Rightarrow> 32 word \<Rightarrow> nat \<Rightarrow> 32 word \<Rightarrow> nat \<Rightarrow> byte list \<Rightarrow>
   int \<times> 32 word \<times> nat \<times> nat \<times> byte list" where
  "load_public_loop len [] grp grp_size digit posn key = (NGX_OK, grp, grp_size, posn, key)"
| "load_public_loop len (ch # file) grp grp_size digit posn key =
     (case b64_classify digit ch of
        B64_end \<Rightarrow> (NGX_OK, grp, grp_size, posn, key)
      | B64_bad \<Rightarrow> (NGX_ERROR, grp, grp_size, posn, key)
      | B64_digit d \<Rightarrow>
          (let g = b64_shift grp d
           in if Suc grp_size \<ge> 4
              then if len - posn < 3 then (NGX_ERROR, g, Suc grp_size, posn, key)
                   else load_public_loop len file g 0 d (posn + 3)
                          (key[posn := ucast (drop_bit 16 g),
                               posn + 1 := ucast (drop_bit 8 g),
                               posn + 2 := ucast g])
              else load_public_loop len file g (Suc grp_size) d posn key))"

definition load_public_tail ::
  "nat \<Rightarrow> 32 word \<Rightarrow> nat \<Rightarrow> nat \<Rightarrow> byte list \<Rightarrow> int \<times> byte list" where
  "load_public_tail len grp grp_size posn key =
     (if grp_size = 3 then
        if len - posn < 2 then (NGX_ERROR, key)
        else (if posn + 2 < len then NGX_ERROR else NGX_OK,
              key[posn := ucast (drop_bit 10 grp), posn + 1 := ucast (drop_bit 2 grp)])
      else if grp_size = 2 then
        if len - posn < 1 then (NGX_ERROR, key)
        else (if posn + 1 < len then NGX_ERROR else NGX_OK,
              key[posn := ucast (drop_bit 4 grp)])
      else (if posn < len then NGX_ERROR else NGX_OK, key))"

definition ngx_noise_protocol_load_public_key ::
  "byte list option \<Rightarrow> nat \<Rightarrow> byte list \<Rightarrow> int \<times> byte list" where
  "ngx_noise_protocol_load_public_key file len key =
     (if len > NOISE_PROTOCOL_MAX_DH_KEY_LEN then (NGX_ERROR, key)
      else (case file of
              None \<Rightarrow> (NGX_ERROR, key)
            | Some bs \<Rightarrow>
                (let (rc, grp, grp_size, posn, key') = load_public_loop len bs 0 0 0 0 key
                 in if rc \<noteq> NGX_OK then (rc, key')
                    else load_public_tail len grp grp_size posn key')))"

section \<open>Base64 as the reference for the public-key file\<close>

definition b64_char :: "6 word \<Rightarrow> byte" where
  "b64_char s =
     (if unat s < 26 then word_of_nat (unat s + 65)
      else if unat s < 52 then word_of_nat (unat s + 71)
      else if unat s < 62 then word_of_nat (unat s - 4)
      else if unat s = 62 then 43 else 47)"

definition sext0 :: "byte \<Rightarrow> 6 word" where
  "sext0 x = ucast (drop_bit 2 x)"

definition sext1 :: "byte \<Rightarrow> byte \<Rightarrow> 6 word" where
  "sext1 x y = push_bit 4 (ucast x) OR ucast (drop_bit 4 y)"

definition sext2 :: "byte \<Rightarrow> byte \<Rightarrow> 6 word" where
  "sext2 y z = push_bit 2 (ucast y) OR ucast (drop_bit 6 z)"

definition sext3 :: "byte \<Rightarrow> 6 word" where
  "sext3 z = ucast z"

text \<open>RFC 4648 encoding with padding: the format the key generator writes.\<close>

fun b64_encode :: "byte list \<Rightarrow> byte list" where
  "b64_encode (x # y # z # r) =
     [b64_char (sext0 x), b64_char (sext1 x y), b64_char (sext2 y z), b64_char (sext3 z)]
     @ b64_encode r"
| "b64_encode [x, y] = [b64_char (sext0 x), b64_char (sext1 x y), b64_char (sext2 y 0), 61]"
| "b64_encode [x] = [b64_char (sext0 x), b64_char (sext1 x 0), 61, 61]"
| "b64_encode [] = []"

lemmas sext_defs = sext0_def sext1_def sext2_def sext3_def

lemma classify_b64_char_all:
  "list_all (\<lambda>n. b64_classify d (b64_char (word_of_nat n)) = B64_digit (word_of_nat n)) [0..<64]"
  by (simp add: upt_rec b64_classify_def b64_char_def)

lemma classify_b64_char [simp]: "b64_classify d (b64_char s) = B64_digit (ucast s)"
proof -
  have "unat s < 64" using unsigned_less [of s] by simp
  with classify_b64_char_all [of d]
  have "b64_classify d (b64_char (word_of_nat (unat s))) = B64_digit (word_of_nat (unat s))"
    unfolding list_all_iff by (metis atLeastLessThan_upt atLeastLessThan_iff zero_le)
  then show ?thesis by simp
qed

lemma classify_equals [simp]: "b64_classify d 61 = B64_end"
  by (simp add: b64_classify_def)

lemma byte_eq_bitsI:
  fixes v w :: byte
  assumes "bit v 0 = bit w 0" "bit v 1 = bit w 1" "bit v 2 = bit w 2" "bit v 3 = bit w 3"
    and "bit v 4 = bit w 4" "bit v 5 = bit w 5" "bit v 6 = bit w 6" "bit v 7 = bit w 7"
  shows "v = w"
proof (rule bit_word_eqI)
  fix n :: nat
  assume "n < LENGTH(8)"
  then have "n = 0 \<or> n = 1 \<or> n = 2 \<or> n = 3 \<or> n = 4 \<or> n = 5 \<or> n = 6 \<or> n = 7" by auto
  with assms show "bit v n = bit w n" by auto
qed

lemma byte_bit_high: "8 \<le> n \<Longrightarrow> \<not> bit (w :: byte) n"
  using bit_imp_le_length [of w n] by auto

text \<open>The four characters of a block, shifted into any accumulated group, give back its bytes.\<close>

lemma shift_bytes:
  fixes g :: "32 word" and x y z :: byte
  defines "g2 \<equiv> \<lambda>w. b64_shift (b64_shift g (ucast (sext0 x))) (ucast (sext1 x w))"
  defines "g3 \<equiv> \<lambda>w. b64_shift (g2 y) (ucast (sext2 y w))"
  shows "(ucast (drop_bit 16 (b64_shift (g3 z) (ucast (sext3 z)))) :: byte) = x"
    and "(ucast (drop_bit 8 (b64_shift (g3 z) (ucast (sext3 z)))) :: byte) = y"
    and "(ucast (b64_shift (g3 z) (ucast (sext3 z))) :: byte) = z"
    and "(ucast (drop_bit 10 (g3 0)) :: byte) = x"
    and "(ucast (drop_bit 2 (g3 0)) :: byte) = y"
    and "(ucast (drop_bit 4 (g2 0)) :: byte) = x"
  unfolding g2_def g3_def b64_shift_def
  by (rule byte_eq_bitsI; simp add: sext_defs bit_simps byte_bit_high)+

lemma load_public_loop_digit:
  "n < 3 \<Longrightarrow> load_public_loop len (b64_char s # file) g n d p key =
     load_public_loop len file (b64_shift g (ucast s)) (Suc n) (ucast s) p key"
  by simp

lemma load_public_loop_block:
  assumes "p + 3 \<le> len"
  shows "\<exists>g' d'. load_public_loop len (b64_char (sext0 x) # b64_char (sext1 x y) #
             b64_char (sext2 y z) # b64_char (sext3 z) # file) g 0 d p key
           = load_public_loop len file g' 0 d' (p + 3) (key[p := x, p + 1 := y, p + 2 := z])"
proof -
  from assms have "\<not> len - p < 3" by simp
  then show ?thesis
    by (simp add: load_public_loop_digit Let_def shift_bytes del: One_nat_def add_2_eq_Suc') blast
qed

text \<open>
  The loop started at a group boundary decodes an encoded block into the cells that follow
  the ones already written, whatever the accumulated group holds.
\<close>

lemma load_public_encode:
  assumes "length ks = length bs" and "len = length a + length bs"
  shows "case load_public_loop len (b64_encode bs) g 0 d (length a) (a @ ks @ rest) of
           (rc, g', n, p, key) \<Rightarrow> rc = NGX_OK \<and>
             load_public_tail len g' n p key = (NGX_OK, a @ bs @ rest)"
  using assms
proof (induction bs arbitrary: g d a ks rule: b64_encode.induct)
  case (1 x y z r)
  from "1.prems"(1) obtain k1 k2 k3 ks' where ks: "ks = k1 # k2 # k3 # ks'"
    and len: "length ks' = length r"
    by (auto simp: length_Suc_conv)
  have upd: "(a @ ks @ rest)[length a := x, length a + 1 := y, length a + 2 := z]
      = (a @ [x, y, z]) @ ks' @ rest"
    by (simp add: ks list_update_append)
  have pos: "length (a @ [x, y, z]) = length a + 3" by simp
  from "1.prems"(2) have "length a + 3 \<le> len" by simp
  from load_public_loop_block [OF this, of x y z "b64_encode r" g d "a @ ks @ rest"]
  obtain g' d' where step: "load_public_loop len (b64_encode (x # y # z # r)) g 0 d (length a)
        (a @ ks @ rest)
      = load_public_loop len (b64_encode r) g' 0 d' (length (a @ [x, y, z]))
        ((a @ [x, y, z]) @ ks' @ rest)"
    by (auto simp only: upd pos b64_encode.simps append_Cons append_Nil)
  have "case load_public_loop len (b64_encode r) g' 0 d' (length (a @ [x, y, z]))
              ((a @ [x, y, z]) @ ks' @ rest) of
           (rc, g', n, p, key) \<Rightarrow> rc = NGX_OK \<and>
             load_public_tail len g' n p key = (NGX_OK, (a @ [x, y, z]) @ r @ rest)"
    by (rule "1.IH") (use len "1.prems"(2) in simp_all)
  then show ?case
    unfolding step by simp
next
  case (2 x y)
  then obtain k1 k2 where ks: "ks = [k1, k2]"
    by (auto simp: length_Suc_conv)
  show ?case
    using "2.prems"(2)
    by (simp add: ks load_public_loop_digit load_public_tail_def list_update_append shift_bytes)
next
  case (3 x)
  then obtain k1 where ks: "ks = [k1]"
    by (auto simp: length_Suc_conv)
  show ?case
    using "3.prems"(2)
    by (simp add: ks load_public_loop_digit load_public_tail_def list_update_append shift_bytes)
next
  case 4
  then show ?case
    by (simp add: load_public_tail_def)
qed

section \<open>Lemmas on headers, private keys and the handshake object\<close>

lemma length_first_hdr_bytes [simp]: "length (first_hdr_bytes h) = 6"
  by (simp add: first_hdr_bytes_def)

lemma swapw_bit: "bit (swapw x) n \<longleftrightarrow> n < 8 \<and> bit x (8 + n) \<or> 8 \<le> n \<and> bit x (n - 8) \<and> n < 16"
proof -
  have hi: "bit (0xFF00 :: uint16) k \<longleftrightarrow> 8 \<le> k \<and> k < 16" for k
  proof -
    have "(0xFF00 :: uint16) = push_bit 8 (mask 8)" by (simp add: mask_eq_exp_minus_1)
    then show ?thesis by (auto simp only: bit_simps) auto
  qed
  have lo: "bit (0x00FF :: uint16) k \<longleftrightarrow> k < 8" for k
  proof -
    have "(0x00FF :: uint16) = mask 8" by (simp add: mask_eq_exp_minus_1)
    then show ?thesis by (auto simp only: bit_simps) auto
  qed
  show ?thesis
    using bit_imp_le_length [of x "8 + n"] unfolding swapw_def
    by (auto simp: bit_simps hi lo simp del: bit_numeral_word_iff)
qed

lemma swapw_swapw: "swapw (swapw x) = x"
proof (rule bit_word_eqI)
  fix n :: nat
  assume "n < LENGTH(16)"
  then show "bit (swapw (swapw x)) n = bit x n"
    by (cases "n < 8") (auto simp: swapw_bit)
qed

text \<open>Storing \<open>swapw(n)\<close> through a \<open>uint16_t *\<close> puts the big-endian length field in memory.\<close>

lemma le16_swapw: "n < 65536 \<Longrightarrow> le16 (swapw (word_of_nat n)) = be16 n"
proof -
  assume "n < 65536"
  have div: "n div 256 = drop_bit 8 n" by (simp add: drop_bit_eq_div)
  have "(ucast (swapw (word_of_nat n)) :: byte) = word_of_nat (n div 256)"
    by (rule bit_word_eqI)
      (auto simp: swapw_bit bit_simps div)
  moreover have "(ucast (drop_bit 8 (swapw (word_of_nat n))) :: byte) = word_of_nat n"
    by (rule bit_word_eqI) (auto simp: swapw_bit bit_simps)
  ultimately show ?thesis
    by (simp add: le16_def be16_def)
qed

lemma load_private_loop_fits:
  "length ks = length bs \<Longrightarrow> length a + length bs \<le> len \<Longrightarrow>
   load_private_loop len bs (length a) (a @ ks @ rest) = (NGX_OK, length a + length bs, a @ bs @ rest)"
proof (induction bs arbitrary: a ks)
  case (Cons b bs)
  then obtain k ks' where ks: "ks = k # ks'" "length ks' = length bs"
    by (cases ks) auto
  have "load_private_loop len bs (length (a @ [b])) ((a @ [b]) @ ks' @ rest)
      = (NGX_OK, length (a @ [b]) + length bs, (a @ [b]) @ bs @ rest)"
    by (rule Cons.IH) (use ks Cons.prems in auto)
  with Cons.prems ks show ?case by simp
qed simp

lemma load_private_loop_long:
  "posn \<le> len \<Longrightarrow> len < posn + length bs \<Longrightarrow> fst (load_private_loop len bs posn key) = NGX_ERROR"
  by (induction bs arbitrary: posn key) auto

lemma set_keys_cong:
  assumes "map_option arr_elts (private_keys c1) = map_option arr_elts (private_keys c2)"
    and "map_option arr_elts (public_keys c1) = map_option arr_elts (public_keys c2)"
  shows "set_keys X c1 h = set_keys X c2 h"
proof -
  have key: "set_key k1 n f h' = set_key k2 n f h'"
    if "map_option arr_elts k1 = map_option arr_elts k2" for k1 k2 n f h'
    using that by (cases k1; cases k2) (auto simp: set_key_def)
  show ?thesis
    using assms by (auto simp: set_keys_def intro!: bind_run_cong key)
qed

section \<open>Properties\<close>

text \<open>
  C18: Reading a public key back. For every key of at most 2048 bytes, loading a file that
  holds its padded Base64 encoding returns \<open>NGX_OK\<close> and leaves exactly the key in the
  destination.
\<close>

theorem load_public_key_roundtrip:
  assumes "length bs \<le> NOISE_PROTOCOL_MAX_DH_KEY_LEN" and "length key = length bs"
  shows "ngx_noise_protocol_load_public_key (Some (b64_encode bs)) (length bs) key = (NGX_OK, bs)"
  using assms load_public_encode [of key bs "length bs" "[]" "[]" 0 0]
  by (auto simp: ngx_noise_protocol_load_public_key_def split: prod.splits)

theorem load_public_key_roundtrip_witness:
  "ngx_noise_protocol_load_public_key (Some (b64_encode [1, 2, 3, 254])) 4 [0, 0, 0, 0]
     = (NGX_OK, [1, 2, 3, 254])"
  using load_public_key_roundtrip [of "[1, 2, 3, 254]" "[0, 0, 0, 0]"]
  by (simp add: eval_nat_numeral)

text \<open>
  A private-key file is accepted exactly when it can be opened and holds as many bytes as
  the key has (at most 2048), and then the destination is the file's content.
\<close>

theorem load_private_key_iff:
  assumes "length key = len"
  shows "ngx_noise_protocol_load_private_key fp len key = (NGX_OK, key')
     \<longleftrightarrow> len \<le> NOISE_PROTOCOL_MAX_DH_KEY_LEN \<and> fp = Some key' \<and> length key' = len"
proof (cases fp)
  case None
  then show ?thesis by (simp add: ngx_noise_protocol_load_private_key_def)
next
  case (Some bs)
  note [simp] = ngx_noise_protocol_load_private_key_def Some
  consider "length bs = len" | "length bs < len" | "len < length bs" by linarith
  then show ?thesis
  proof cases
    case 1
    then show ?thesis
      using load_private_loop_fits [of key bs "[]" len "[]"] assms by auto
  next
    case 2
    then have "length (take (length bs) key) = length bs" using assms by simp
    from load_private_loop_fits [OF this, of "[]" len "drop (length bs) key"] 2
    show ?thesis by auto
  next
    case 3
    then have "fst (load_private_loop len bs 0 key) = NGX_ERROR"
      by (intro load_private_loop_long) auto
    with 3 show ?thesis by (auto split: prod.splits)
  qed
qed

theorem load_private_key_iff_witness:
  "ngx_noise_protocol_load_private_key (Some [7, 8]) 2 [0, 0] = (NGX_OK, [7, 8])"
  using load_private_key_iff [of "[0, 0]" 2 "Some [7, 8]" "[7, 8]"] by simp

text \<open>
  The negotiation header survives the wire: reading back the packed image of a header,
  whatever bytes follow it, gives the header, and the stored length and version fields are
  the big-endian fields of the protocol.
\<close>

theorem first_hdr_roundtrip:
  "first_hdr_of_bytes (first_hdr_bytes h @ rest) = Some h
   \<and> swapw (swapw v) = v \<and> le16 (swapw 6) = be16 6 \<and> le16 (swapw 1) = [0, 1]"
proof -
  have "first_hdr_of_bytes (first_hdr_bytes h @ rest) = Some h"
    by (cases h) (simp add: first_hdr_bytes_def le16_def of_le16_le16)
  moreover have "le16 (swapw 6) = be16 6" and "le16 (swapw 1) = be16 1"
    using le16_swapw [of 6] le16_swapw [of 1] by simp_all
  ultimately show ?thesis
    by (simp add: swapw_swapw be16_def)
qed


text \<open>
  White space in a public-key file is not skipped: it shifts the previous digit in again.
  Breaking the four characters of \<open>00 01 02\<close> over two lines still returns \<open>NGX_OK\<close>, with a
  different key.
\<close>

theorem load_public_key_white_space:
  "ngx_noise_protocol_load_public_key (Some [65, 65, 69, 67]) 3 [0, 0, 0] = (NGX_OK, [0, 1, 2])
   \<and> ngx_noise_protocol_load_public_key (Some [65, 65, 10, 69, 67]) 3 [0, 0, 0] = (NGX_OK, [0, 0, 4])"
  by (simp add: ngx_noise_protocol_load_public_key_def b64_classify_def b64_shift_def
      load_public_tail_def Let_def)

end
