(* ===== verification/Nsoc_Connection.thy ===== *)
theory Nsoc_Connection
  imports Noise_Protocol
begin

text \<open>
  Model of the data of \<open>src/ngx_nsoc_handler.h\<close> and of the first part of
  \<open>src/ngx_nsoc_handler.c\<close>: the noise connection, its creation and clean-up, and the
  functions that read the two length-prefixed fields of a handshake message
  (\<open>ngx_nsoc_read_negotiation\<close>, \<open>ngx_nsoc_read_noise_msg\<close> and their helpers).

  nginx is a parameter: the record \<open>nginx\<close> holds the functions of the server core the module
  calls, over an abstract world \<open>'w\<close> (the sockets and the allocator).
\<close>

section \<open>Constants\<close>

definition NGX_NSOC_SIZE_UNSET :: int where [simp]: "NGX_NSOC_SIZE_UNSET = - 1"

definition NGX_NSOC_1MSG :: nat where [simp]: "NGX_NSOC_1MSG = 0"
definition NGX_NSOC_2MSG_OK :: nat where [simp]: "NGX_NSOC_2MSG_OK = 1"
definition NGX_NSOC_2MSG_FB :: nat where [simp]: "NGX_NSOC_2MSG_FB = 2"
definition NGX_NSOC_2MSG_ERR :: nat where [simp]: "NGX_NSOC_2MSG_ERR = 3"
definition NGX_NSOC_3MSG :: nat where [simp]: "NGX_NSOC_3MSG = 4"

definition NGX_NSOC_1MSG_NEG_DATA_SIZE :: nat where [simp]: "NGX_NSOC_1MSG_NEG_DATA_SIZE = 6"
definition NGX_NSOC_2MSG_NEG_DATA_OK_SIZE :: nat where [simp]: "NGX_NSOC_2MSG_NEG_DATA_OK_SIZE = 0"
definition NGX_NSOC_2MSG_NEG_DATA_FB_SIZE :: nat where [simp]: "NGX_NSOC_2MSG_NEG_DATA_FB_SIZE = 3"
definition NGX_NSOC_2MSG_NEG_DATA_ERR_SIZE :: nat where [simp]: "NGX_NSOC_2MSG_NEG_DATA_ERR_SIZE = 3"
definition NGX_NSOC_3MSG_NEG_DATA_SIZE :: nat where [simp]: "NGX_NSOC_3MSG_NEG_DATA_SIZE = 0"
definition NGX_NSOC_LEN_FIELD_SIZE :: nat where [simp]: "NGX_NSOC_LEN_FIELD_SIZE = 2"

definition NGX_NSOC_VERSION_ID :: uint16 where "NGX_NSOC_VERSION_ID = swapw 1"

section \<open>nginx: events, connections, buffers\<close>

datatype event_handler =
    H_none | H_handshake | H_session
  | H_proxy_connect | H_proxy_upstream | H_proxy_downstream

record ngx_event =
  ev_ready :: bool
  ev_eof :: bool
  ev_error :: bool
  ev_timedout :: bool
  ev_delayed :: bool
  ev_timer_set :: bool
  ev_available :: int
  ev_handler :: event_handler

text \<open>Which implementation a connection's function pointers name.\<close>

datatype io_impl = Io_os | Io_nsoc

record ngx_connection =
  c_id :: nat
  c_read :: ngx_event
  c_write :: ngx_event
  c_recv :: io_impl
  c_send :: io_impl
  c_recv_chain :: io_impl
  c_send_chain :: io_impl
  c_buffered :: "8 word"
  c_err :: bool
  c_shared :: bool
  c_need_last_buf :: bool
  c_sent :: int

text \<open>
  A buffer owns the region from \<open>start\<close> to \<open>end\<close>; \<open>pos\<close> and \<open>last\<close> are offsets into it.
\<close>

record ngx_buf =
  b_mem :: "byte list"
  b_pos :: nat
  b_last :: nat
  b_temporary :: bool
  b_memory :: bool
  b_in_file :: bool
  b_flush :: bool
  b_sync :: bool
  b_last_buf :: bool
  b_recycled :: bool

definition b_end :: "ngx_buf \<Rightarrow> nat" where
  [simp]: "b_end b = length (b_mem b)"

definition temp_buf :: "byte list \<Rightarrow> ngx_buf" where
  "temp_buf m = \<lparr>b_mem = m, b_pos = 0, b_last = 0, b_temporary = True, b_memory = False,
     b_in_file = False, b_flush = False, b_sync = False, b_last_buf = False, b_recycled = False\<rparr>"

record 'w nginx =
  ngx_recv :: "nat \<Rightarrow> ngx_connection \<Rightarrow> 'w \<Rightarrow> int \<times> byte list \<times> ngx_connection \<times> 'w"
  ngx_send :: "byte list \<Rightarrow> ngx_connection \<Rightarrow> 'w \<Rightarrow> int \<times> ngx_connection \<times> 'w"
  ngx_handle_read_event :: "ngx_connection \<Rightarrow> 'w \<Rightarrow> int \<times> ngx_connection \<times> 'w"
  ngx_handle_write_event :: "ngx_connection \<Rightarrow> 'w \<Rightarrow> int \<times> ngx_connection \<times> 'w"
  ngx_add_timer :: "ngx_event \<Rightarrow> nat \<Rightarrow> ngx_event"
  ngx_del_timer :: "ngx_event \<Rightarrow> ngx_event"
  ngx_palloc :: "nat \<Rightarrow> 'w \<Rightarrow> byte list option \<times> 'w"

text \<open>
  What the module relies on: \<open>ngx_recv\<close> reports as many bytes as it stored and never more
  than it was asked for; \<open>ngx_send\<close> never reports more than it was given; the allocator
  returns a region of the size asked for.
\<close>

definition recv_contract :: "'w nginx \<Rightarrow> bool" where
  "recv_contract N \<longleftrightarrow> (\<forall>sz c w n bs c' w'. ngx_recv N sz c w = (n, bs, c', w') \<longrightarrow> 0 < n \<longrightarrow>
     int (length bs) = n \<and> n \<le> int sz)"

definition send_contract :: "'w nginx \<Rightarrow> bool" where
  "send_contract N \<longleftrightarrow> (\<forall>bs c w n c' w'. ngx_send N bs c w = (n, c', w') \<longrightarrow> n \<le> int (length bs))"

definition alloc_contract :: "'w nginx \<Rightarrow> bool" where
  "alloc_contract N \<longleftrightarrow> (\<forall>sz w m w'. ngx_palloc N sz w = (Some m, w') \<longrightarrow> length m = sz)"

section \<open>The noise connection\<close>

datatype ngx_noise_handshake_phase =
    NGX_NSOC_HANDSHAKE_NONE_PHASE
  | NGX_NSOC_HANDSHAKE_PROCESS_PHASE
  | NGX_NSOC_HANDSHAKE_END_PHASE

datatype conn_handler = CH_none | CH_noiseserver | CH_proxy | CH_close

text \<open>The receive buffer aliases the caller's memory: a region of the heap and three offsets.\<close>

record recv_buf =
  rb_region :: nat
  rb_start :: nat
  rb_pos :: nat
  rb_end :: nat

record ngx_noise =
  noise_ctx_p :: "noise_ctx option"
  noise_prologue :: noise_prologue_data
  noise_buffer_size :: nat
  noise_handshake_timeout :: nat

record ('h, 'k) ngx_noise_connection =
  nc_connection :: nat
  nc_noise_connection :: "('h, 'k) noise_protocol_conn"
  nc_noise_ctx :: "noise_ctx option"
  nc_prologue :: noise_prologue_data
  nc_handshake_phase :: ngx_noise_handshake_phase
  nc_noise_role :: ngx_noise_role
  nc_msg_num :: nat
  nc_last :: int
  nc_buf :: "ngx_buf option"
  nc_buffer_size :: nat
  nc_handshake_timeout :: nat
  nc_send_buf :: "ngx_buf option"
  nc_recv_buf :: "recv_buf option"
  nc_to_send :: nat
  nc_neg_data_recv_size :: int
  nc_noise_msg_recv_size :: int
  nc_handler :: conn_handler
  nc_handshaked :: bool
  nc_noise_msg_size_reading :: bool
  nc_neg_data_size_reading :: bool
  nc_buffer :: bool

record ('h, 'k) nsoc_session =
  s_client_noise_connection :: "('h, 'k) ngx_noise_connection option"
  s_server_noise_connection :: "('h, 'k) ngx_noise_connection option"
  s_noise_on :: bool

text \<open>What a function of the handler works on: the noise connection, the socket, the memory.\<close>

record ('w, 'h, 'k) nst =
  nc :: "('h, 'k) ngx_noise_connection"
  cn :: ngx_connection
  heap :: "nat \<Rightarrow> byte list"
  world :: 'w

abbreviation upd_nc where "upd_nc f s \<equiv> s\<lparr>nc := f (nc s)\<rparr>"
abbreviation upd_cn where "upd_cn f s \<equiv> s\<lparr>cn := f (cn s)\<rparr>"
abbreviation upd_read where "upd_read f c \<equiv> c\<lparr>c_read := f (c_read c)\<rparr>"
abbreviation upd_write where "upd_write f c \<equiv> c\<lparr>c_write := f (c_write c)\<rparr>"

section \<open>Creation and clean-up\<close>

definition ngx_nsoc_create :: "'w nginx \<Rightarrow> nat \<Rightarrow> ngx_noise \<Rightarrow> 'w \<Rightarrow> int \<times> ngx_noise \<times> 'w" where
  "ngx_nsoc_create N buffer_size noise w =
     (let (m, w') = ngx_palloc N 16 w; noise1 = noise\<lparr>noise_buffer_size := buffer_size\<rparr>
      in case m of
           None \<Rightarrow> (NGX_ERROR, noise1\<lparr>noise_ctx_p := None\<rparr>, w')
         | Some _ \<Rightarrow>
             (NGX_OK, noise1\<lparr>noise_ctx_p := Some \<lparr>private_keys = None, public_keys = None\<rparr>\<rparr>, w'))"

text \<open>\<open>ngx_nsoc_cleanup_ctx\<close> wipes every key before the arrays are released.\<close>

definition wipe_keys :: "ngx_str_array \<Rightarrow> ngx_str_array" where
  "wipe_keys a = a\<lparr>arr_strs :=
     map (\<lambda>k. k\<lparr>str_data := replicate (unat (str_len k)) 0 @ drop (unat (str_len k)) (str_data k)\<rparr>)
       (arr_strs a)\<rparr>"

definition ngx_nsoc_cleanup_ctx ::
  "ngx_noise \<Rightarrow> ngx_str_array option \<times> ngx_str_array option \<times> ngx_noise" where
  "ngx_nsoc_cleanup_ctx noise =
     (case noise_ctx_p noise of
        None \<Rightarrow> (None, None, noise)
      | Some ctx \<Rightarrow>
          (map_option wipe_keys (private_keys ctx), map_option wipe_keys (public_keys ctx),
           noise\<lparr>noise_ctx_p := None\<rparr>))"

text \<open>
  \<open>ngx_nsoc_cleanup_connection_pool\<close>: the library objects it frees, in order, and the new
  value of the session's pointer. It reads through \<open>*nc\<close> without a test.
\<close>

datatype freed = Freed_handshake | Freed_send_cipher | Freed_recv_cipher

definition ngx_nsoc_cleanup_connection_pool ::
  "('h, 'k) ngx_noise_connection option \<Rightarrow>
   (freed list, ('h, 'k) ngx_noise_connection option) run" where
  "ngx_nsoc_cleanup_connection_pool p =
     (case p of
        None \<Rightarrow> Crash Null_deref
      | Some n \<Rightarrow>
          (let npc = nc_noise_connection n
           in Ret ((if NoiseHandshakeObj npc \<noteq> None then [Freed_handshake] else [])
                 @ (if NoiseSendCipherObj npc \<noteq> None then [Freed_send_cipher] else [])
                 @ (if NoiseRecvCipherObj npc \<noteq> None then [Freed_recv_cipher] else [])) None))"

definition empty_npc :: "('h, 'k) noise_protocol_conn" where
  "empty_npc = \<lparr>NoiseHandshakeObj = None, NoiseSendCipherObj = None, NoiseRecvCipherObj = None,
     NoisePrologue = [],
     np_id = \<lparr>np_prefix_id = 0, np_pattern_id = 0, np_dh_id = 0, np_cipher_id = 0,
              np_hash_id = 0, np_hybrid_id = 0\<rparr>\<rparr>"

text \<open>The noise connection \<open>ngx_nsoc_create_connection\<close> sets up (the rest is zeroed).\<close>

definition fresh_nc :: "ngx_noise \<Rightarrow> nat \<Rightarrow> bool \<Rightarrow> ngx_noise_role \<Rightarrow> ('h, 'k) ngx_noise_connection" where
  "fresh_nc noise cid buffer role =
     \<lparr>nc_connection = cid, nc_noise_connection = empty_npc,
      nc_noise_ctx = noise_ctx_p noise, nc_prologue = noise_prologue noise,
      nc_handshake_phase = NGX_NSOC_HANDSHAKE_NONE_PHASE, nc_noise_role = role,
      nc_msg_num = 0, nc_last = 0, nc_buf = None, nc_buffer_size = noise_buffer_size noise,
      nc_handshake_timeout = noise_handshake_timeout noise, nc_send_buf = None,
      nc_recv_buf = None, nc_to_send = 0, nc_neg_data_recv_size = NGX_NSOC_SIZE_UNSET,
      nc_noise_msg_recv_size = NGX_NSOC_SIZE_UNSET, nc_handler = CH_none, nc_handshaked = False,
      nc_noise_msg_size_reading = False, nc_neg_data_size_reading = False, nc_buffer = buffer\<rparr>"

definition ngx_nsoc_create_connection ::
  "'w nginx \<Rightarrow> ngx_noise \<Rightarrow> nat \<Rightarrow> bool \<Rightarrow> bool \<Rightarrow> ('h, 'k) nsoc_session \<Rightarrow> 'w \<Rightarrow>
   int \<times> ('h, 'k) nsoc_session \<times> 'w" where
  "ngx_nsoc_create_connection N noise cid flag_buffer flag_client s w =
     (let (m, w1) = ngx_palloc N 1 w
      in if m = None then (NGX_ERROR, s, w1)
         else (let (cln, w2) = ngx_palloc N 1 w1
               in if cln = None then (NGX_ERROR, s, w2)
                  else if flag_client
                  then (NGX_OK, s\<lparr>s_client_noise_connection :=
                          Some (fresh_nc noise cid flag_buffer NGX_NSOC_CLIENT_ROLE)\<rparr>, w2)
                  else (NGX_OK, s\<lparr>s_server_noise_connection :=
                          Some (fresh_nc noise cid flag_buffer NGX_NSOC_SERVER_ROLE)\<rparr>, w2)))"

section \<open>Reading from the socket\<close>

definition do_recv ::
  "'w nginx \<Rightarrow> nat \<Rightarrow> ('w, 'h, 'k) nst \<Rightarrow> int \<times> byte list \<times> ('w, 'h, 'k) nst" where
  "do_recv N sz s =
     (let (n, bs, c, w) = ngx_recv N sz (cn s) (world s) in (n, bs, s\<lparr>cn := c, world := w\<rparr>))"

definition read_available :: "('w, 'h, 'k) nst \<Rightarrow> ('w, 'h, 'k) nst" where
  "read_available s = upd_cn (upd_read (\<lambda>e. e\<lparr>ev_available := 1\<rparr>)) s"

text \<open>
  The loop both length readers share: \<open>got\<close> is the part of the two-byte local array that is
  filled. It ends with a positive count when the field is complete, and otherwise with the
  code of \<open>ngx_recv\<close>.
\<close>

function len_loop ::
  "'w nginx \<Rightarrow> byte list \<Rightarrow> ('w, 'h, 'k) nst \<Rightarrow> (int \<times> byte list, ('w, 'h, 'k) nst) run" where
  "len_loop N got s =
     (case do_recv N (2 - length got) (read_available s) of
        (n, bs, s') \<Rightarrow>
          if n > 0 then
            if int (length bs) = n \<and> length got + length bs \<le> 2 then
              if length got + length bs = 2 then Ret (n, got @ bs) s'
              else len_loop N (got @ bs) s'
            else Crash Out_of_bounds
          else Ret (n, got) s')"
  by pat_completeness auto
termination
  by (relation "measure (\<lambda>(N, got, s). 2 - length got)") (auto simp flip: length_greater_0_conv)

declare len_loop.simps [simp del]

text \<open>
  The two readers differ only in the fields they use; the four accessors are parameters.
\<close>

definition read_len_field ::
  "(('h, 'k) ngx_noise_connection \<Rightarrow> int) \<Rightarrow>
   (int \<Rightarrow> ('h, 'k) ngx_noise_connection \<Rightarrow> ('h, 'k) ngx_noise_connection) \<Rightarrow>
   (('h, 'k) ngx_noise_connection \<Rightarrow> bool) \<Rightarrow>
   (bool \<Rightarrow> ('h, 'k) ngx_noise_connection \<Rightarrow> ('h, 'k) ngx_noise_connection) \<Rightarrow>
   'w nginx \<Rightarrow> ('w, 'h, 'k) nst \<Rightarrow> (int, ('w, 'h, 'k) nst) run" where
  "read_len_field get_size set_size get_reading set_reading N s =
     (let (got, s1) =
            (if \<not> get_reading (nc s) then ([], upd_nc (set_size NGX_NSOC_SIZE_UNSET) s)
             else ([word_of_int (get_size (nc s))], s))
      in bind_run (len_loop N got s1)
           (\<lambda>(n, got') s2.
              if n > 0 then
                Ret NGX_OK (upd_nc (set_size (int (rd16 (got' ! 0) (got' ! 1)))
                                     \<circ> set_reading False) s2)
              else if length got' = 1 \<and> n = NGX_AGAIN then
                Ret NGX_AGAIN (upd_nc (set_size (int (unat (got' ! 0))) \<circ> set_reading True) s2)
              else
                Ret n (upd_nc (set_reading False \<circ>
                         (if n \<noteq> NGX_AGAIN then (\<lambda>x. x\<lparr>nc_last := n\<rparr>) else id)) s2)))"

abbreviation set_neg_size where "set_neg_size v x \<equiv> x\<lparr>nc_neg_data_recv_size := v\<rparr>"
abbreviation set_neg_reading where "set_neg_reading v x \<equiv> x\<lparr>nc_neg_data_size_reading := v\<rparr>"
abbreviation set_msg_size where "set_msg_size v x \<equiv> x\<lparr>nc_noise_msg_recv_size := v\<rparr>"
abbreviation set_msg_reading where "set_msg_reading v x \<equiv> x\<lparr>nc_noise_msg_size_reading := v\<rparr>"

definition ngx_nsoc_read_negotiation_data_len ::
  "'w nginx \<Rightarrow> ('w, 'h, 'k) nst \<Rightarrow> (int, ('w, 'h, 'k) nst) run" where
  "ngx_nsoc_read_negotiation_data_len =
     read_len_field nc_neg_data_recv_size (\<lambda>v x. set_neg_size v x)
       nc_neg_data_size_reading (\<lambda>v x. set_neg_reading v x)"

definition ngx_nsoc_read_noise_msg_len ::
  "'w nginx \<Rightarrow> ('w, 'h, 'k) nst \<Rightarrow> (int, ('w, 'h, 'k) nst) run" where
  "ngx_nsoc_read_noise_msg_len =
     read_len_field nc_noise_msg_recv_size (\<lambda>v x. set_msg_size v x)
       nc_noise_msg_size_reading (\<lambda>v x. set_msg_reading v x)"

text \<open>The buffer the handshake data goes to: the one at hand, or a new one.\<close>

definition handshake_buf ::
  "'w nginx \<Rightarrow> nat \<Rightarrow> ('w, 'h, 'k) nst \<Rightarrow> ngx_buf option \<times> ('w, 'h, 'k) nst" where
  "handshake_buf N buffer_size s =
     (case nc_buf (nc s) of
        Some b \<Rightarrow> (Some b, s)
      | None \<Rightarrow> (let (m, w) = ngx_palloc N buffer_size (world s)
                in (map_option temp_buf m, s\<lparr>world := w\<rparr>)))"

definition recv_into ::
  "'w nginx \<Rightarrow> ngx_buf \<Rightarrow> ('w, 'h, 'k) nst \<Rightarrow> (int, ('w, 'h, 'k) nst) run" where
  "recv_into N b s =
     (case do_recv N (b_end b - b_last b) (read_available s) of
        (n, bs, s1) \<Rightarrow>
          if n > 0 \<and> int (length bs) \<noteq> n then Crash Out_of_bounds
          else if n \<ge> 0 then
            (case mem_write (b_last b) (if n = 0 then [] else bs) (b_mem b) of
               None \<Rightarrow> Crash Out_of_bounds
             | Some m \<Rightarrow>
                 (let s2 = upd_nc (\<lambda>x. x\<lparr>nc_buf :=
                         Some (b\<lparr>b_mem := m, b_last := b_last b + nat n\<rparr>)\<rparr>) s1
                  in Ret n (if ev_timer_set (c_read (cn s2))
                            then upd_cn (upd_read (ngx_del_timer N)) s2
                            else s2)))
          else Ret n s1)"

definition ngx_nsoc_read_handshake_data ::
  "'w nginx \<Rightarrow> nat \<Rightarrow> ('w, 'h, 'k) nst \<Rightarrow> (int, ('w, 'h, 'k) nst) run" where
  "ngx_nsoc_read_handshake_data N buffer_size s =
     (case handshake_buf N buffer_size s of
        (None, s1) \<Rightarrow> Ret NGX_ERROR s1
      | (Some b, s1) \<Rightarrow>
          (let s2 = upd_nc (\<lambda>x. x\<lparr>nc_buf := Some b\<rparr>) s1
           in if b_end b - b_last b = 0 then Ret NGX_ERROR s2
              else if ev_eof (c_read (cn s2)) then Ret NGX_OK s2
              else recv_into N b s2))"

definition set_handshake_handlers :: "ngx_connection \<Rightarrow> ngx_connection" where
  "set_handshake_handlers c =
     upd_write (\<lambda>e. e\<lparr>ev_handler := H_handshake\<rparr>) (upd_read (\<lambda>e. e\<lparr>ev_handler := H_handshake\<rparr>) c)"

text \<open>The ways a reader gives up for now: remember the action, re-arm the event, set the timer.\<close>

definition wait_read :: "'w nginx \<Rightarrow> bool \<Rightarrow> ('w, 'h, 'k) nst \<Rightarrow> (int, ('w, 'h, 'k) nst) run" where
  "wait_read N with_timer s =
     (let s1 = upd_nc (\<lambda>x. x\<lparr>nc_last := NOISE_ACTION_READ_MESSAGE\<rparr>) s;
          (rc, c, w) = ngx_handle_read_event N (cn s1) (world s1);
          s2 = s1\<lparr>cn := c, world := w\<rparr>
      in if rc \<noteq> NGX_OK then Ret NGX_ERROR s2
         else Ret NGX_AGAIN
                (if with_timer \<and> \<not> ev_timer_set (c_read (cn s2))
                 then upd_cn (upd_read (\<lambda>e. ngx_add_timer N e (nc_handshake_timeout (nc s2)))) s2
                 else s2))"

fun ngx_nsoc_read_negotiation ::
  "nat \<Rightarrow> 'w nginx \<Rightarrow> int \<Rightarrow> ('w, 'h, 'k) nst \<Rightarrow> (int, ('w, 'h, 'k) nst) run" where
  "ngx_nsoc_read_negotiation 0 N true_len s = Diverge"
| "ngx_nsoc_read_negotiation (Suc fuel) N true_len s =
     (let len_unknown = (nc_neg_data_recv_size (nc s) = NGX_NSOC_SIZE_UNSET
                         \<or> nc_neg_data_size_reading (nc s))
      in bind_run
        (if len_unknown
         then ngx_nsoc_read_negotiation_data_len N (upd_cn set_handshake_handlers s)
         else if nc_neg_data_recv_size (nc s) \<noteq> 0
         then ngx_nsoc_read_handshake_data N (nat (nc_neg_data_recv_size (nc s))) s
         else Ret 0 s)
        (\<lambda>n s1.
           if \<not> len_unknown \<and> n \<ge> 0 then
             if n < nc_neg_data_recv_size (nc s1) then wait_read N False s1 else Ret n s1
           else if n = NGX_AGAIN then wait_read N True s1
           else if n \<noteq> NGX_ERROR \<and> nc_neg_data_recv_size (nc s1) = true_len
           then ngx_nsoc_read_negotiation fuel N true_len s1
           else Ret NGX_ERROR s1))"

fun ngx_nsoc_read_noise_msg ::
  "nat \<Rightarrow> 'w nginx \<Rightarrow> ('w, 'h, 'k) nst \<Rightarrow> (int, ('w, 'h, 'k) nst) run" where
  "ngx_nsoc_read_noise_msg 0 N s = Diverge"
| "ngx_nsoc_read_noise_msg (Suc fuel) N s =
     (let len_unknown = (nc_noise_msg_recv_size (nc s) = NGX_NSOC_SIZE_UNSET
                         \<or> nc_noise_msg_size_reading (nc s))
      in bind_run
        (if len_unknown
         then ngx_nsoc_read_noise_msg_len N (upd_cn set_handshake_handlers s)
         else if nc_noise_msg_recv_size (nc s) \<noteq> 0
         then ngx_nsoc_read_handshake_data N (nat (nc_noise_msg_recv_size (nc s))) s
         else Ret 0 s)
        (\<lambda>n s1.
           if \<not> len_unknown \<and> n \<ge> 0 then
             if n < nc_noise_msg_recv_size (nc s1) then wait_read N False s1 else Ret n s1
           else if n = NGX_AGAIN then wait_read N True s1
           else if n \<noteq> NGX_ERROR then ngx_nsoc_read_noise_msg fuel N s1
           else Ret NGX_ERROR s1))"

section \<open>The byte stream behind the socket\<close>

text \<open>
  TCP as the readers see it while the peer has not closed: \<open>pending\<close> is what has not been
  delivered yet; a read of a non-empty buffer takes a prefix of it or nothing, and never
  reports the end of the stream. Allocation and event bookkeeping leave it alone.
\<close>

definition open_stream :: "'w nginx \<Rightarrow> ('w \<Rightarrow> byte list) \<Rightarrow> bool" where
  "open_stream N pending \<longleftrightarrow>
     (\<forall>sz c w n bs c' w'. ngx_recv N sz c w = (n, bs, c', w') \<longrightarrow>
        pending w = (if 0 < n then bs else []) @ pending w' \<and> (0 < sz \<longrightarrow> n \<noteq> 0)) \<and>
     (\<forall>sz w m w'. ngx_palloc N sz w = (m, w') \<longrightarrow> pending w' = pending w)"

lemma do_recv_contract:
  assumes "recv_contract N" and "do_recv N sz s = (n, bs, s')" and "0 < n"
  shows "int (length bs) = n" and "length bs \<le> sz"
  using assms by (auto simp: recv_contract_def do_recv_def split: prod.splits) fastforce+

lemma do_recv_frame:
  "do_recv N sz s = (n, bs, s') \<Longrightarrow> nc s' = nc s \<and> heap s' = heap s"
  by (auto simp: do_recv_def split: prod.splits)

lemma read_available_frame [simp]:
  "nc (read_available s) = nc s" "heap (read_available s) = heap s" "world (read_available s) = world s"
  by (simp_all add: read_available_def)

lemma do_recv_stream:
  assumes "open_stream N pending" and "do_recv N sz s = (n, bs, s')"
  shows "pending (world s) = (if 0 < n then bs else []) @ pending (world s')"
    and "0 < sz \<Longrightarrow> n \<noteq> 0"
  using assms by (auto simp: open_stream_def do_recv_def split: prod.splits)

lemma len_loop_total:
  "recv_contract N \<Longrightarrow> length got < 2 \<Longrightarrow>
   \<exists>n got' s'. len_loop N got s = Ret (n, got') s' \<and> nc s' = nc s \<and> heap s' = heap s
     \<and> (if 0 < n then length got' = 2 else length got' < 2)"
proof (induction N got s rule: len_loop.induct)
  case (1 N got s)
  obtain n bs s1 where rd: "do_recv N (2 - length got) (read_available s) = (n, bs, s1)"
    by (metis prod_cases3)
  note fr = do_recv_frame [OF rd]
  show ?case
  proof (cases "0 < n")
    case True
    with "1.prems" rd have sz: "int (length bs) = n" "length got + length bs \<le> 2"
      using do_recv_contract [OF "1.prems"(1) rd] by auto
    show ?thesis
    proof (cases "length got + length bs = 2")
      case eq2: True
      with True sz rd fr show ?thesis
        by (subst len_loop.simps) simp
    next
      case False
      with "1.IH" [OF rd [symmetric] refl] True sz "1.prems"
      obtain n' got' s' where "len_loop N (got @ bs) s1 = Ret (n', got') s'"
        "nc s' = nc s1" "heap s' = heap s1" "if 0 < n' then length got' = 2 else length got' < 2"
        by auto
      with True False sz rd fr show ?thesis
        by (subst len_loop.simps) simp
    qed
  next
    case False
    with rd fr "1.prems"(2) show ?thesis
      by (subst len_loop.simps) simp
  qed
qed

lemma len_loop_stream:
  "open_stream N pending \<Longrightarrow> len_loop N got s = Ret (n, got') s' \<Longrightarrow> length got < 2 \<Longrightarrow>
   got @ pending (world s) = got' @ pending (world s') \<and> n \<noteq> 0 \<and> (\<exists>xs. got' = got @ xs)"
proof (induction N got s rule: len_loop.induct)
  case (1 N got s)
  obtain m bs s1 where rd: "do_recv N (2 - length got) (read_available s) = (m, bs, s1)"
    by (metis prod_cases3)
  note st = do_recv_stream [OF "1.prems"(1) rd]
  from "1.prems"(2) rd have eq:
    "(if m > 0 then
        if int (length bs) = m \<and> length got + length bs \<le> 2 then
          if length got + length bs = 2 then Ret (m, got @ bs) s1 else len_loop N (got @ bs) s1
        else Crash Out_of_bounds
      else Ret (m, got) s1) = Ret (n, got') s'"
    by (subst (asm) len_loop.simps) simp
  show ?case
  proof (cases "0 < m \<and> length got + length bs \<noteq> 2")
    case True
    with eq have rec: "len_loop N (got @ bs) s1 = Ret (n, got') s'"
      and sz: "int (length bs) = m" "length got + length bs \<le> 2"
      by (auto split: if_splits)
    from "1.IH" [OF rd [symmetric] refl _ _ _ "1.prems"(1) rec] True sz
    have "(got @ bs) @ pending (world s1) = got' @ pending (world s')" "n \<noteq> 0"
      "\<exists>xs. got' = (got @ bs) @ xs" by auto
    with st True show ?thesis by auto
  next
    case False
    with eq st "1.prems"(3) show ?thesis by (auto split: if_splits)
  qed
qed

section \<open>The interface of a length field\<close>

text \<open>
  The readers of the two length fields are one algorithm over four accessors. The laws of the
  accessors are the interface; its facts are proved once and hold for both readers.
\<close>

locale len_field =
  fixes get_size :: "('h, 'k) ngx_noise_connection \<Rightarrow> int"
    and set_size :: "int \<Rightarrow> ('h, 'k) ngx_noise_connection \<Rightarrow> ('h, 'k) ngx_noise_connection"
    and get_reading :: "('h, 'k) ngx_noise_connection \<Rightarrow> bool"
    and set_reading :: "bool \<Rightarrow> ('h, 'k) ngx_noise_connection \<Rightarrow> ('h, 'k) ngx_noise_connection"
  assumes get_set_size [simp]: "get_size (set_size v x) = v"
    and get_set_reading [simp]: "get_reading (set_reading b x) = b"
    and size_reading [simp]: "get_size (set_reading b x) = get_size x"
    and reading_size [simp]: "get_reading (set_size v x) = get_reading x"
    and size_last [simp]: "get_size (x\<lparr>nc_last := l\<rparr>) = get_size x"
    and reading_last [simp]: "get_reading (x\<lparr>nc_last := l\<rparr>) = get_reading x"
begin

text \<open>The reader always returns: it neither crashes nor loops.\<close>

lemma read_len_total:
  assumes "recv_contract N"
  shows "\<exists>n s'. read_len_field get_size set_size get_reading set_reading N s = Ret n s'"
proof -
  have "\<exists>n got' s'. len_loop N got t = Ret (n, got') s'" if "length got < 2" for got t
    using len_loop_total [OF assms that] by blast
  from this [of "[word_of_int (get_size (nc s))]" s] this [of "[]" "upd_nc (set_size (- 1)) s"]
  show ?thesis
    by (auto simp: read_len_field_def split: if_splits)
qed

lemma read_len_cases:
  assumes "recv_contract N" and "open_stream N pending"
    and "read_len_field get_size set_size get_reading set_reading N s = Ret n s'"
    and "get_reading (nc s) \<Longrightarrow> 0 \<le> get_size (nc s) \<and> get_size (nc s) < 256"
  defines "got0 \<equiv> if get_reading (nc s) then [word_of_int (get_size (nc s))] else []"
  shows "n = NGX_OK \<and> \<not> get_reading (nc s') \<and>
           (\<exists>k < 65536. get_size (nc s') = int k \<and> got0 @ pending (world s) = be16 k @ pending (world s'))
       \<or> n = NGX_AGAIN \<and> get_reading (nc s') \<and> 0 \<le> get_size (nc s') \<and> get_size (nc s') < 256 \<and>
           got0 @ pending (world s) = word_of_int (get_size (nc s')) # pending (world s')
       \<or> n = NGX_AGAIN \<and> \<not> get_reading (nc s') \<and> get_size (nc s') = NGX_NSOC_SIZE_UNSET \<and>
           got0 @ pending (world s) = pending (world s')
       \<or> n < 0 \<and> n \<noteq> NGX_AGAIN"
proof -
  define s1 where "s1 = (if get_reading (nc s) then s else upd_nc (set_size (- 1)) s)"
  have got0: "length got0 < 2" by (simp add: got0_def)
  have w: "world s1 = world s" by (simp add: s1_def)
  obtain m got s2 where l: "len_loop N got0 s1 = Ret (m, got) s2" "nc s2 = nc s1"
    "if 0 < m then length got = 2 else length got < 2"
    using len_loop_total [OF assms(1) got0] by blast
  from len_loop_stream [OF assms(2) l(1) got0] w
  have v: "got0 @ pending (world s) = got @ pending (world s2)" "m \<noteq> 0" "\<exists>xs. got = got0 @ xs"
    by auto
  have eq: "Ret n s' =
      (if m > 0 then Ret NGX_OK (upd_nc (set_size (int (rd16 (got ! 0) (got ! 1))) \<circ> set_reading False) s2)
       else if length got = 1 \<and> m = NGX_AGAIN
       then Ret NGX_AGAIN (upd_nc (set_size (int (unat (got ! 0))) \<circ> set_reading True) s2)
       else Ret m (upd_nc (set_reading False \<circ>
                (if m \<noteq> NGX_AGAIN then (\<lambda>x. x\<lparr>nc_last := m\<rparr>) else id)) s2))"
    using assms(3) l(1) unfolding read_len_field_def
    by (auto simp: s1_def got0_def split: if_splits)
  consider (full) a b where "0 < m" "got = [a, b]" | (one) a where "m = NGX_AGAIN" "got = [a]"
    | (none) "m = NGX_AGAIN" "got = []" | (err) "m < 0" "m \<noteq> NGX_AGAIN"
    using l(3) v(2) by (cases got; cases "tl got") (auto split: if_splits)
  then show ?thesis
  proof cases
    case full
    then show ?thesis
      using eq v by (auto simp: be16_rd16 intro: rd16_less)
  next
    case one
    moreover have "uint a < 256" using unsigned_less [of a] by simp
    ultimately show ?thesis using eq v by auto
  next
    case none
    with v(3) have "\<not> get_reading (nc s)" by (auto simp: got0_def)
    with none eq v l(2) show ?thesis by (auto simp: s1_def)
  next
    case err
    then show ?thesis using eq by auto
  qed
qed

end

interpretation neg: len_field nc_neg_data_recv_size "\<lambda>v x. set_neg_size v x"
  nc_neg_data_size_reading "\<lambda>v x. set_neg_reading v x"
  by unfold_locales simp_all

interpretation msg: len_field nc_noise_msg_recv_size "\<lambda>v x. set_msg_size v x"
  nc_noise_msg_size_reading "\<lambda>v x. set_msg_reading v x"
  by unfold_locales simp_all


section \<open>What the readers leave alone\<close>

text \<open>
  An observation of the noise connection that does not look at the buffer is kept by the
  data reader; one that does not look at the reader's own fields either is kept by all of them.
\<close>

lemma len_loop_keeps: "keeps nc (nc s) (len_loop N got s)"
proof (induction N got s rule: len_loop.induct)
  case (1 N got s)
  obtain n bs s1 where rd: "do_recv N (2 - length got) (read_available s) = (n, bs, s1)"
    by (metis prod_cases3)
  from do_recv_frame [OF rd] "1.IH" [OF rd [symmetric] refl] show ?case
    by (subst len_loop.simps) (simp add: rd)
qed

locale buf_obs =
  fixes f :: "('h, 'k) ngx_noise_connection \<Rightarrow> 'v"
  assumes f_buf [simp]: "f (x\<lparr>nc_buf := b\<rparr>) = f x"
begin

lemma recv_into_keeps: "keeps (\<lambda>s. f (nc s)) (f (nc s)) (recv_into N b s)"
proof -
  obtain n bs s1 where rd: "do_recv N (b_end b - b_last b) (read_available s) = (n, bs, s1)"
    by (metis prod_cases3)
  then have "nc s1 = nc s" using do_recv_frame by fastforce
  then show ?thesis
    unfolding recv_into_def rd Let_def by (simp split: option.split)
qed

lemma read_handshake_data_keeps:
  "keeps (\<lambda>s. f (nc s)) (f (nc s)) (ngx_nsoc_read_handshake_data N k s)"
proof -
  obtain b s1 where b: "handshake_buf N k s = (b, s1)" by (metis prod.exhaust)
  then have s1: "nc s1 = nc s" by (auto simp: handshake_buf_def split: option.splits prod.splits)
  show ?thesis
    using recv_into_keeps [of "upd_nc (\<lambda>x. x\<lparr>nc_buf := b\<rparr>) s1"]
    by (cases b) (simp_all add: ngx_nsoc_read_handshake_data_def b s1 Let_def)
qed

end

locale reader_obs = buf_obs f
  for f :: "('h, 'k) ngx_noise_connection \<Rightarrow> 'v" +
  assumes f_last [simp]: "f (x\<lparr>nc_last := l\<rparr>) = f x"
    and f_neg_size [simp]: "f (set_neg_size v x) = f x"
    and f_neg_reading [simp]: "f (set_neg_reading r x) = f x"
    and f_msg_size [simp]: "f (set_msg_size v x) = f x"
    and f_msg_reading [simp]: "f (set_msg_reading r x) = f x"
begin

lemma read_len_field_keeps:
  assumes "\<And>v x. f (sts v x) = f x" and "\<And>v x. f (str v x) = f x"
  shows "keeps (\<lambda>s. f (nc s)) (f (nc s)) (read_len_field gs sts gr str N s)"
proof -
  let ?s1 = "if gr (nc s) then s else upd_nc (sts NGX_NSOC_SIZE_UNSET) s"
  have "f (nc ?s1) = f (nc s)" using assms(1) by simp
  then have "keeps (\<lambda>s. f (nc s)) (f (nc s)) (len_loop N got ?s1)" for got
    using len_loop_keeps [of ?s1 N got] unfolding keeps_def by metis
  then show ?thesis
    unfolding read_len_field_def Let_def
    by (cases "gr (nc s)") (auto simp: assms intro!: keeps_bind split: prod.splits)
qed

lemma read_len_keeps:
  "keeps (\<lambda>s. f (nc s)) (f (nc s)) (ngx_nsoc_read_negotiation_data_len N s)"
  "keeps (\<lambda>s. f (nc s)) (f (nc s)) (ngx_nsoc_read_noise_msg_len N s)"
  unfolding ngx_nsoc_read_negotiation_data_len_def ngx_nsoc_read_noise_msg_len_def
  by (rule read_len_field_keeps; simp)+

lemma wait_read_keeps: "keeps (\<lambda>s. f (nc s)) (f (nc s)) (wait_read N b s)"
  by (auto simp: wait_read_def Let_def split: prod.splits)

text \<open>The same with the observed value as a variable, so that the facts chain through a run.\<close>

lemma keeps_at:
  "keeps (\<lambda>s. f (nc s)) (f (nc s)) r \<Longrightarrow> f (nc s) = v \<Longrightarrow> keeps (\<lambda>s. f (nc s)) v r"
  by simp

lemma read_negotiation_keeps:
  "f (nc s) = v \<Longrightarrow> keeps (\<lambda>s. f (nc s)) v (ngx_nsoc_read_negotiation fuel N k s)"
proof (induction fuel N k s rule: ngx_nsoc_read_negotiation.induct)
  case (2 fuel N k s)
  show ?case
    unfolding ngx_nsoc_read_negotiation.simps Let_def
  proof (rule keeps_bind)
    show "keeps (\<lambda>s. f (nc s)) v
        (if nc_neg_data_recv_size (nc s) = NGX_NSOC_SIZE_UNSET \<or> nc_neg_data_size_reading (nc s)
         then ngx_nsoc_read_negotiation_data_len N (upd_cn set_handshake_handlers s)
         else if nc_neg_data_recv_size (nc s) \<noteq> 0
         then ngx_nsoc_read_handshake_data N (nat (nc_neg_data_recv_size (nc s))) s
         else Ret 0 s)"
      using "2.prems" by (simp add: keeps_at [OF read_len_keeps(1)] keeps_at [OF read_handshake_data_keeps])
  qed (use "2.IH" [OF refl] in \<open>simp add: keeps_at [OF wait_read_keeps]\<close>)
qed simp

lemma read_noise_msg_keeps:
  "f (nc s) = v \<Longrightarrow> keeps (\<lambda>s. f (nc s)) v (ngx_nsoc_read_noise_msg fuel N s)"
proof (induction fuel N s rule: ngx_nsoc_read_noise_msg.induct)
  case (2 fuel N s)
  show ?case
    unfolding ngx_nsoc_read_noise_msg.simps Let_def
  proof (rule keeps_bind)
    show "keeps (\<lambda>s. f (nc s)) v
        (if nc_noise_msg_recv_size (nc s) = NGX_NSOC_SIZE_UNSET \<or> nc_noise_msg_size_reading (nc s)
         then ngx_nsoc_read_noise_msg_len N (upd_cn set_handshake_handlers s)
         else if nc_noise_msg_recv_size (nc s) \<noteq> 0
         then ngx_nsoc_read_handshake_data N (nat (nc_noise_msg_recv_size (nc s))) s
         else Ret 0 s)"
      using "2.prems" by (simp add: keeps_at [OF read_len_keeps(2)] keeps_at [OF read_handshake_data_keeps])
  qed (use "2.IH" [OF refl] in \<open>simp add: keeps_at [OF wait_read_keeps]\<close>)
qed simp

end

text \<open>The sizes are kept by the data reader, the outcome of the handshake by every reader.\<close>

definition hs_outcome :: "('h, 'k) ngx_noise_connection \<Rightarrow> bool \<times> ngx_noise_handshake_phase \<times> ngx_noise_role" where
  "hs_outcome x = (nc_handshaked x, nc_handshake_phase x, nc_noise_role x)"

interpretation sizes: buf_obs "\<lambda>x. (nc_neg_data_recv_size x, nc_noise_msg_recv_size x)"
  by unfold_locales simp

interpretation outcome: reader_obs hs_outcome
  by unfold_locales (simp_all add: hs_outcome_def)

text \<open>
  The negotiation reader never reports an empty field where a non-empty one is expected.
\<close>

definition neg_ok :: "('h, 'k) ngx_noise_connection \<Rightarrow> bool" where
  "neg_ok x \<longleftrightarrow> nc_neg_data_recv_size x = NGX_NSOC_SIZE_UNSET \<or> 0 < nc_neg_data_recv_size x"

lemma wait_read_nonzero: "yields (\<lambda>n. n \<noteq> 0) (wait_read N b s)"
  by (auto simp: wait_read_def Let_def split: prod.splits)

lemma read_negotiation_nonzero:
  "neg_ok (nc s) \<Longrightarrow> 0 < k \<Longrightarrow> yields (\<lambda>n. n \<noteq> 0) (ngx_nsoc_read_negotiation fuel N k s)"
proof (induction fuel N k s rule: ngx_nsoc_read_negotiation.induct)
  case (2 fuel N k s)
  show ?case
    unfolding ngx_nsoc_read_negotiation.simps Let_def
  proof (rule yields_bind, goal_cases)
    case (1 n s1)
    have known: "0 < nc_neg_data_recv_size (nc s1)"
      if "nc_neg_data_recv_size (nc s) \<noteq> NGX_NSOC_SIZE_UNSET" "\<not> nc_neg_data_size_reading (nc s)"
    proof -
      from that "2.prems"(1) have pos: "0 < nc_neg_data_recv_size (nc s)" by (simp add: neg_ok_def)
      with that 1 have "ngx_nsoc_read_handshake_data N (nat (nc_neg_data_recv_size (nc s))) s = Ret n s1"
        by simp
      from keepsD [OF sizes.read_handshake_data_keeps this] pos show ?thesis by simp
    qed
    show ?case
      using "2.IH" [OF refl 1] "2.prems"(2) known
      by (auto simp: neg_ok_def wait_read_nonzero)
  qed
qed simp

end
