(* ===== verification/Nsoc_Loopback.thy ===== *)
theory Nsoc_Loopback
  imports Nsoc_Connection
begin

text \<open>
  Concrete parameters for evaluating the model: a scripted socket that delivers a list of
  segments and records what is sent, and a stand-in for Noise-C whose cipher appends sixteen
  zero bytes and whose handshake is the three-message exchange. They show that the contracts
  the theorems assume can be met, and on them the model runs.
\<close>

section \<open>A scripted socket\<close>

record script =
  sc_in :: "byte list list"
  sc_closed :: bool
  sc_out :: "byte list"
  sc_room :: nat

fun script_take :: "nat \<Rightarrow> byte list list \<Rightarrow> byte list \<times> byte list list" where
  "script_take sz [] = ([], [])"
| "script_take sz (seg # segs) =
     (if length seg \<le> sz then (seg, segs) else (take sz seg, drop sz seg # segs))"

text \<open>
  A read takes from the first segment; when no byte is at hand it reports the end of the
  stream if the peer has closed and \<open>NGX_AGAIN\<close> otherwise, as it does at the end of an
  empty segment, which stands for a moment at which nothing has arrived.
\<close>

definition script_recv ::
  "nat \<Rightarrow> ngx_connection \<Rightarrow> script \<Rightarrow> int \<times> byte list \<times> ngx_connection \<times> script" where
  "script_recv sz c w =
     (case script_take sz (sc_in w) of
        (bs, rest) \<Rightarrow>
          if bs = [] then
            if sc_closed w \<and> sc_in w = [] then (0, [], upd_read (\<lambda>e. e\<lparr>ev_eof := True\<rparr>) c, w)
            else (NGX_AGAIN, [], upd_read (\<lambda>e. e\<lparr>ev_ready := False\<rparr>) c, w\<lparr>sc_in := rest\<rparr>)
          else (int (length bs), bs, c, w\<lparr>sc_in := rest\<rparr>))"

definition script_send :: "byte list \<Rightarrow> ngx_connection \<Rightarrow> script \<Rightarrow> int \<times> ngx_connection \<times> script" where
  "script_send bs c w =
     (if sc_room w = 0 then (NGX_AGAIN, c, w)
      else (let n = min (sc_room w) (length bs)
            in (int n, c, w\<lparr>sc_out := sc_out w @ take n bs, sc_room := sc_room w - n\<rparr>)))"

definition script_nginx :: "script nginx" where
  "script_nginx =
     \<lparr>ngx_recv = script_recv, ngx_send = script_send,
      ngx_handle_read_event = (\<lambda>c w. (NGX_OK, c, w)),
      ngx_handle_write_event = (\<lambda>c w. (NGX_OK, c, w)),
      ngx_add_timer = (\<lambda>e t. e\<lparr>ev_timer_set := True\<rparr>),
      ngx_del_timer = (\<lambda>e. e\<lparr>ev_timer_set := False\<rparr>),
      ngx_palloc = (\<lambda>n w. (Some (replicate n 0), w))\<rparr>"

definition script_world :: "byte list list \<Rightarrow> script" where
  "script_world segs = \<lparr>sc_in = segs, sc_closed = False, sc_out = [], sc_room = 100000\<rparr>"

definition idle_event :: ngx_event where
  "idle_event = \<lparr>ev_ready = True, ev_eof = False, ev_error = False, ev_timedout = False,
     ev_delayed = False, ev_timer_set = False, ev_available = 0, ev_handler = H_none\<rparr>"

definition plain_connection :: "nat \<Rightarrow> ngx_connection" where
  "plain_connection i = \<lparr>c_id = i, c_read = idle_event, c_write = idle_event, c_recv = Io_os,
     c_send = Io_os, c_recv_chain = Io_os, c_send_chain = Io_os, c_buffered = 0, c_err = False,
     c_shared = False, c_need_last_buf = False, c_sent = 0\<rparr>"

section \<open>A stand-in for Noise-C\<close>

text \<open>The handshake object: the role and the number of messages exchanged so far.\<close>

record demo_hs =
  dh_role :: int
  dh_step :: nat
  dh_key :: "byte list"

definition demo_action :: "demo_hs \<Rightarrow> int" where
  "demo_action h =
     (if dh_step h \<ge> 3 then NOISE_ACTION_SPLIT
      else if even (dh_step h) = (dh_role h = NOISE_ROLE_INITIATOR) then NOISE_ACTION_WRITE_MESSAGE
      else NOISE_ACTION_READ_MESSAGE)"

definition demo_noise :: "(demo_hs, nat) noise_c" where
  "demo_noise =
     \<lparr>noise_init = NOISE_ERROR_NONE,
      hs_new_by_id = (\<lambda>pid role. (NOISE_ERROR_NONE, Some \<lparr>dh_role = role, dh_step = 0, dh_key = []\<rparr>)),
      hs_set_prologue = (\<lambda>p h. (NOISE_ERROR_NONE, h)),
      hs_needs_local_keypair = (\<lambda>h. True),
      hs_private_key_length = (\<lambda>h. 32),
      hs_set_keypair_private = (\<lambda>k h. (NOISE_ERROR_NONE, h\<lparr>dh_key := k\<rparr>)),
      hs_needs_remote_public_key = (\<lambda>h. False),
      hs_public_key_length = (\<lambda>h. 32),
      hs_set_public_key = (\<lambda>k h. (NOISE_ERROR_NONE, h)),
      hs_start = (\<lambda>h. (NOISE_ERROR_NONE, h)),
      hs_get_action = demo_action,
      hs_write_message = (\<lambda>cap h. (NOISE_ERROR_NONE, [word_of_nat (dh_step h), 7, 7],
                            h\<lparr>dh_step := Suc (dh_step h)\<rparr>)),
      hs_read_message = (\<lambda>m h. (if m = [word_of_nat (dh_step h), 7, 7] then NOISE_ERROR_NONE else 1,
                            h\<lparr>dh_step := Suc (dh_step h)\<rparr>)),
      hs_split = (\<lambda>h. (NOISE_ERROR_NONE, Some 0, Some 0, h)),
      hs_free = (\<lambda>h. NOISE_ERROR_NONE),
      cs_encrypt = (\<lambda>pt cap k. if length pt + 16 \<le> cap
                     then (NOISE_ERROR_NONE, pt @ replicate 16 0, Suc k) else (1, [], k)),
      cs_decrypt = (\<lambda>ct cap k. if 16 \<le> length ct \<and> length ct \<le> cap
                     then (NOISE_ERROR_NONE, take (length ct - 16) ct, Suc k) else (1, [], k))\<rparr>"

section \<open>They meet the contracts\<close>

lemma script_take_prefix:
  "script_take sz segs = (bs, rest) \<Longrightarrow> concat segs = bs @ concat rest \<and> length bs \<le> sz"
  by (cases segs) (auto split: if_splits)

lemma script_recv_contract: "recv_contract script_nginx"
  by (auto simp: recv_contract_def script_nginx_def script_recv_def
      dest: script_take_prefix split: prod.splits if_splits)

lemma script_send_contract: "send_contract script_nginx"
  by (auto simp: send_contract_def script_nginx_def script_send_def Let_def split: if_splits)

lemma script_alloc_contract: "alloc_contract script_nginx"
  by (auto simp: alloc_contract_def script_nginx_def)

text \<open>A script whose peer never closes is an open stream.\<close>

definition live_recv ::
  "nat \<Rightarrow> ngx_connection \<Rightarrow> script \<Rightarrow> int \<times> byte list \<times> ngx_connection \<times> script" where
  "live_recv sz c w = script_recv sz c (w\<lparr>sc_closed := False\<rparr>)"

definition live_nginx :: "script nginx" where
  "live_nginx = script_nginx\<lparr>ngx_recv := live_recv\<rparr>"

lemma live_recv_contract: "recv_contract live_nginx"
  by (auto simp: recv_contract_def live_nginx_def live_recv_def script_nginx_def script_recv_def
      dest: script_take_prefix split: prod.splits if_splits)

lemma live_open_stream: "open_stream live_nginx (\<lambda>w. concat (sc_in w))"
  by (auto simp: open_stream_def live_nginx_def live_recv_def script_nginx_def script_recv_def
      dest: script_take_prefix split: prod.splits if_splits)

end
