(* ===== verification/Nsoc_Transport.thy ===== *)
theory Nsoc_Transport
  imports Nsoc_Connection Nsoc_Loopback
begin

text \<open>
  Model of the transport part of \<open>src/ngx_nsoc_handler.c\<close>: \<open>ngx_nsoc_recv\<close>,
  \<open>ngx_nsoc_recv_chain\<close>, \<open>ngx_nsoc_write\<close> and \<open>ngx_nsoc_send_chain\<close>, which replace the
  connection's I/O functions once the handshake is complete.

  A frame on the wire is a two-byte big-endian length and a ciphertext of that length; the
  plaintext is a two-byte big-endian payload length and the payload.
\<close>

section \<open>Which noise connection a socket belongs to\<close>

datatype side = Client_side | Server_side

definition nc_side :: "('h, 'k) nsoc_session \<Rightarrow> nat \<Rightarrow> side option" where
  "nc_side s cid =
     (if (case s_client_noise_connection s of None \<Rightarrow> False | Some n \<Rightarrow> nc_connection n = cid)
      then Some Client_side
      else if (case s_server_noise_connection s of None \<Rightarrow> False | Some n \<Rightarrow> nc_connection n = cid)
      then Some Server_side
      else None)"

section \<open>ngx\_nsoc\_recv\<close>

definition plain_data_size :: "byte list \<Rightarrow> nat" where
  "plain_data_size bs = unat (swapw (of_le16 (bs ! 0) (bs ! 1)))"

definition recv_finish ::
  "('h, 'k) noise_c \<Rightarrow> nat \<Rightarrow> recv_buf \<Rightarrow> ('w, 'h, 'k) nst \<Rightarrow> (int, ('w, 'h, 'k) nst) run" where
  "recv_finish X sz b s =
     (let msz = nat (nc_noise_msg_recv_size (nc s)); m = heap s (rb_region b)
      in case mem_read (rb_start b) msz m of
           None \<Rightarrow> Crash Out_of_bounds
         | Some ct \<Rightarrow>
           (let (err, pt, k) =
                  (case NoiseRecvCipherObj (nc_noise_connection (nc s)) of
                     None \<Rightarrow> (1, [], None)
                   | Some k \<Rightarrow> (let (err, pt, k') = cs_decrypt X ct msz k in (err, pt, Some k')));
                s1 = upd_nc (\<lambda>x. x\<lparr>nc_noise_connection :=
                        (nc_noise_connection x)\<lparr>NoiseRecvCipherObj := k\<rparr>\<rparr>) s
            in if err \<noteq> NOISE_ERROR_NONE then
                 Ret NGX_ERROR (upd_nc (\<lambda>x. x\<lparr>nc_noise_msg_recv_size := NGX_NSOC_SIZE_UNSET,
                                              nc_recv_buf := None\<rparr>)
                                 (upd_cn (upd_read (\<lambda>e. e\<lparr>ev_error := True\<rparr>)) s1))
               else
                 (case mem_write (rb_start b) pt m of
                    None \<Rightarrow> Crash Out_of_bounds
                  | Some m' \<Rightarrow>
                    (case mem_read (rb_start b) 2 m' of
                       None \<Rightarrow> Crash Out_of_bounds
                     | Some hd2 \<Rightarrow>
                       (let s2 = s1\<lparr>heap := (heap s1)(rb_region b := m')\<rparr>;
                            n = plain_data_size hd2
                        in if n > sz then Ret NGX_ERROR s2
                           else Ret (int n)
                                  (upd_nc (\<lambda>x. x\<lparr>nc_recv_buf := None, nc_last := 0,
                                                 nc_noise_msg_recv_size := NGX_NSOC_SIZE_UNSET\<rparr>)
                                    (upd_cn (upd_read (\<lambda>e. e\<lparr>ev_ready := True\<rparr>)) s2)))))))"

function recv_loop ::
  "'w nginx \<Rightarrow> ('h, 'k) noise_c \<Rightarrow> nat \<Rightarrow> recv_buf \<Rightarrow> ('w, 'h, 'k) nst \<Rightarrow>
   (int, ('w, 'h, 'k) nst) run" where
  "recv_loop N X sz b s =
     (case do_recv N (rb_end b - rb_pos b) s of
        (n, bs, s1) \<Rightarrow>
          if n > 0 then
            if int (length bs) = n \<and> rb_pos b + length bs \<le> rb_end b then
              (case mem_write (rb_pos b) bs (heap s1 (rb_region b)) of
                 None \<Rightarrow> Crash Out_of_bounds
               | Some m \<Rightarrow>
                   (let b' = b\<lparr>rb_pos := rb_pos b + length bs\<rparr>;
                        s2 = upd_nc (\<lambda>x. x\<lparr>nc_recv_buf := Some b'\<rparr>)
                               (s1\<lparr>heap := (heap s1)(rb_region b := m)\<rparr>)
                    in if int (rb_pos b') - int (rb_start b') = nc_noise_msg_recv_size (nc s2)
                       then recv_finish X sz b' s2
                       else recv_loop N X sz b' s2))
            else Crash Out_of_bounds
          else
            Ret n (upd_nc (\<lambda>x. x\<lparr>nc_last := n\<rparr>)
                    (if n \<noteq> NGX_AGAIN
                     then upd_nc (\<lambda>x. x\<lparr>nc_recv_buf := None,
                                        nc_noise_msg_recv_size := NGX_NSOC_SIZE_UNSET\<rparr>) s1
                     else s1)))"
  by pat_completeness auto
termination
  by (relation "measure (\<lambda>(N, X, sz, b, s). rb_end b - rb_pos b)")
    (auto simp flip: length_greater_0_conv)

declare recv_loop.simps [simp del]

definition recv_open ::
  "'w nginx \<Rightarrow> ('h, 'k) noise_c \<Rightarrow> nat \<times> nat \<Rightarrow> nat \<Rightarrow> ('w, 'h, 'k) nst \<Rightarrow>
   (int, ('w, 'h, 'k) nst) run" where
  "recv_open N X buf sz s =
     (let (m, w) = ngx_palloc N 1 (world s); s1 = s\<lparr>world := w\<rparr>
      in if m = None then Ret NGX_ERROR s1
         else (let st = snd buf + NGX_NSOC_LEN_FIELD_SIZE;
                   b = \<lparr>rb_region = fst buf, rb_start = st, rb_pos = st,
                        rb_end = st + nat (nc_noise_msg_recv_size (nc s1))\<rparr>
               in recv_loop N X sz b (upd_nc (\<lambda>x. x\<lparr>nc_recv_buf := Some b\<rparr>) s1)))"

text \<open>
  \<open>buf\<close> is the caller's pointer: a region of the heap and an offset. The descriptor allocated
  for the receive buffer places \<open>start\<close> two bytes behind \<open>buf\<close> and takes \<open>end\<close> from the
  length field alone.
\<close>

definition recv_body ::
  "'w nginx \<Rightarrow> ('h, 'k) noise_c \<Rightarrow> (nat \<times> nat) option \<Rightarrow> nat \<Rightarrow> ('w, 'h, 'k) nst \<Rightarrow>
   (int, ('w, 'h, 'k) nst) run" where
  "recv_body N X buf sz s =
     (if nc_last (nc s) = NGX_ERROR then
        Ret NGX_ERROR (upd_cn (upd_read (\<lambda>e. e\<lparr>ev_error := True\<rparr>)) s)
      else if nc_noise_msg_recv_size (nc s) = NGX_NSOC_SIZE_UNSET
              \<or> nc_noise_msg_size_reading (nc s) then
        bind_run (ngx_nsoc_read_noise_msg_len N s)
          (\<lambda>n s1.
             if n \<noteq> NGX_OK then Ret n s1
             else if nc_noise_msg_recv_size (nc s1) = NGX_NSOC_SIZE_UNSET then Ret NGX_AGAIN s1
             else case buf of
                    None \<Rightarrow> Ret NGX_ERROR s1
                  | Some p \<Rightarrow> recv_open N X p sz s1)
      else case nc_recv_buf (nc s) of
             None \<Rightarrow> Crash Null_deref
           | Some b \<Rightarrow> recv_loop N X sz b s)"

section \<open>ngx\_nsoc\_write\<close>

function send_loop ::
  "'w nginx \<Rightarrow> byte list \<Rightarrow> nat \<Rightarrow> ('w, 'h, 'k) nst \<Rightarrow> (int, ('w, 'h, 'k) nst) run" where
  "send_loop N out sz s =
     (case ngx_send N out (cn s) (world s) of
        (n, c, w) \<Rightarrow>
          (let s1 = s\<lparr>cn := c, world := w\<rparr>
           in if n > 0 then
                if nat n < length out then send_loop N (drop (nat n) out) sz s1
                else if nat n = length out then
                  Ret (int sz) (upd_nc (\<lambda>x. x\<lparr>nc_send_buf := None, nc_to_send := 0\<rparr>) s1)
                else Crash Out_of_bounds
              else Ret n s1))"
  by pat_completeness auto
termination
  by (relation "measure (\<lambda>(N, out, sz, s). length out)") auto

declare send_loop.simps [simp del]

text \<open>
  \<open>data\<close> is the memory from the caller's pointer to the end of its region; the frame is built
  in place and the memory left behind is returned with the code.
\<close>

definition write_body ::
  "'w nginx \<Rightarrow> ('h, 'k) noise_c \<Rightarrow> byte list option \<Rightarrow> nat \<Rightarrow> ('w, 'h, 'k) nst \<Rightarrow>
   (int \<times> byte list, ('w, 'h, 'k) nst) run" where
  "write_body N X data sz s =
     (case data of
        None \<Rightarrow> Ret (NGX_ERROR, []) s
      | Some m \<Rightarrow>
        if sz < 2 * NGX_NSOC_LEN_FIELD_SIZE then Ret (NGX_ERROR, m) s
        else if sz - 2 * NGX_NSOC_LEN_FIELD_SIZE > nc_buffer_size (nc s)
        then Ret (NGX_ERROR, m) s
        else if nc_to_send (nc s) = 0 then
          (let data_size = sz - 2 * NGX_NSOC_LEN_FIELD_SIZE;
               (a, w) = ngx_palloc N 1 (world s); s1 = s\<lparr>world := w\<rparr>
           in if a = None then Ret (NGX_ERROR, m) s1
              else case mem_write 2 (be16 data_size) m of
                     None \<Rightarrow> Crash Out_of_bounds
                   | Some m1 \<Rightarrow>
                     (case mem_read 2 (data_size + NGX_NSOC_LEN_FIELD_SIZE) m1 of
                        None \<Rightarrow> Crash Out_of_bounds
                      | Some pt \<Rightarrow>
                        (let (err, ct, k) =
                               (case NoiseSendCipherObj (nc_noise_connection (nc s1)) of
                                  None \<Rightarrow> (1, [], None)
                                | Some k \<Rightarrow>
                                    (let (err, ct, k') =
                                       cs_encrypt X pt (data_size + NOISE_PROTOCOL_MAC_DATA_SIZE
                                                        + NGX_NSOC_LEN_FIELD_SIZE) k
                                     in (err, ct, Some k')));
                             s2 = upd_nc (\<lambda>x. x\<lparr>nc_noise_connection :=
                                    (nc_noise_connection x)\<lparr>NoiseSendCipherObj := k\<rparr>\<rparr>) s1
                         in if err \<noteq> NOISE_ERROR_NONE then
                              Ret (NGX_ERROR, m1)
                                (upd_nc (\<lambda>x. x\<lparr>nc_send_buf := None, nc_to_send := 0\<rparr>) s2)
                            else case mem_write 2 ct m1 of
                                   None \<Rightarrow> Crash Out_of_bounds
                                 | Some m2 \<Rightarrow>
                                   (case mem_write 0 (be16 (length ct)) m2 of
                                      None \<Rightarrow> Crash Out_of_bounds
                                    | Some m3 \<Rightarrow>
                                      bind_run
                                        (send_loop N (take (length ct + 2) m3) sz
                                          (upd_nc (\<lambda>x. x\<lparr>nc_to_send :=
                                             length ct + NGX_NSOC_LEN_FIELD_SIZE\<rparr>) s2))
                                        (\<lambda>n s3. Ret (n, m3) s3)))))
        else case nc_send_buf (nc s) of
               None \<Rightarrow> Crash Null_deref
             | Some b \<Rightarrow>
                 bind_run (send_loop N (take (b_last b - b_pos b) (drop (b_pos b) (b_mem b))) sz s)
                   (\<lambda>n s1. Ret (n, m) s1))"

section \<open>Calls through the session\<close>

text \<open>
  The connection's \<open>recv\<close> and \<open>send\<close> functions get a socket and find the noise connection
  through the socket's session; a socket that belongs to neither side is an error. \<open>sst\<close> is
  the state with the whole session; \<open>with_nc\<close> runs a body on the side's noise connection.
\<close>

record ('w, 'h, 'k) sst =
  ss :: "('h, 'k) nsoc_session"
  sock :: ngx_connection
  smem :: "nat \<Rightarrow> byte list"
  net :: 'w

fun side_nc :: "side \<Rightarrow> ('h, 'k) nsoc_session \<Rightarrow> ('h, 'k) ngx_noise_connection option" where
  "side_nc Client_side s = s_client_noise_connection s"
| "side_nc Server_side s = s_server_noise_connection s"

fun set_side_nc ::
  "side \<Rightarrow> ('h, 'k) ngx_noise_connection \<Rightarrow> ('h, 'k) nsoc_session \<Rightarrow> ('h, 'k) nsoc_session" where
  "set_side_nc Client_side x s = s\<lparr>s_client_noise_connection := Some x\<rparr>"
| "set_side_nc Server_side x s = s\<lparr>s_server_noise_connection := Some x\<rparr>"

definition with_nc ::
  "'a \<Rightarrow> (('w, 'h, 'k) nst \<Rightarrow> ('a, ('w, 'h, 'k) nst) run) \<Rightarrow> ('w, 'h, 'k) sst \<Rightarrow>
   ('a, ('w, 'h, 'k) sst) run" where
  "with_nc err body t =
     (case nc_side (ss t) (c_id (sock t)) of
        None \<Rightarrow> Ret err t
      | Some sd \<Rightarrow>
          (case side_nc sd (ss t) of
             None \<Rightarrow> Crash Null_deref
           | Some x \<Rightarrow>
               (case body \<lparr>nc = x, cn = sock t, heap = smem t, world = net t\<rparr> of
                  Ret a u \<Rightarrow> Ret a \<lparr>ss = set_side_nc sd (nc u) (ss t), sock = cn u,
                                    smem = heap u, net = world u\<rparr>
                | Crash e \<Rightarrow> Crash e
                | Diverge \<Rightarrow> Diverge)))"

definition ngx_nsoc_recv ::
  "'w nginx \<Rightarrow> ('h, 'k) noise_c \<Rightarrow> (nat \<times> nat) option \<Rightarrow> nat \<Rightarrow> ('w, 'h, 'k) sst \<Rightarrow>
   (int, ('w, 'h, 'k) sst) run" where
  "ngx_nsoc_recv N X buf sz = with_nc NGX_ERROR (recv_body N X buf sz)"

definition ngx_nsoc_write ::
  "'w nginx \<Rightarrow> ('h, 'k) noise_c \<Rightarrow> byte list option \<Rightarrow> nat \<Rightarrow> ('w, 'h, 'k) sst \<Rightarrow>
   (int \<times> byte list, ('w, 'h, 'k) sst) run" where
  "ngx_nsoc_write N X data sz =
     with_nc (NGX_ERROR, case data of None \<Rightarrow> [] | Some m \<Rightarrow> m) (write_body N X data sz)"

lemma nc_side_SomeD: "nc_side s cid = Some sd \<Longrightarrow> \<exists>x. side_nc sd s = Some x \<and> nc_connection x = cid"
  by (auto simp: nc_side_def split: if_splits option.splits)

lemma with_nc_cases:
  obtains (foreign) "nc_side (ss t) (c_id (sock t)) = None" "with_nc err body t = Ret err t"
  | (own) sd x where "nc_side (ss t) (c_id (sock t)) = Some sd" "side_nc sd (ss t) = Some x"
      "nc_connection x = c_id (sock t)"
      "with_nc err body t =
         (case body \<lparr>nc = x, cn = sock t, heap = smem t, world = net t\<rparr> of
            Ret a u \<Rightarrow> Ret a \<lparr>ss = set_side_nc sd (nc u) (ss t), sock = cn u,
                              smem = heap u, net = world u\<rparr>
          | Crash e \<Rightarrow> Crash e | Diverge \<Rightarrow> Diverge)"
proof (cases "nc_side (ss t) (c_id (sock t))")
  case None
  then show thesis using foreign by (simp add: with_nc_def)
next
  case (Some sd)
  with nc_side_SomeD own show thesis by (fastforce simp: with_nc_def)
qed

lemma set_side_nc_other: "sd' \<noteq> sd \<Longrightarrow> side_nc sd' (set_side_nc sd x s) = side_nc sd' s"
  by (cases sd; cases sd') auto

section \<open>What the transport relies on\<close>

text \<open>The cipher writes its result over its input: it never needs more room than it was given.\<close>

definition decrypt_contract :: "('h, 'k) noise_c \<Rightarrow> bool" where
  "decrypt_contract X \<longleftrightarrow> (\<forall>ct cap k pt k'. cs_decrypt X ct cap k = (NOISE_ERROR_NONE, pt, k') \<longrightarrow>
     length pt \<le> cap)"

definition encrypt_contract :: "('h, 'k) noise_c \<Rightarrow> bool" where
  "encrypt_contract X \<longleftrightarrow> (\<forall>pt cap k ct k'. cs_encrypt X pt cap k = (NOISE_ERROR_NONE, ct, k') \<longrightarrow>
     length ct = length pt + NOISE_PROTOCOL_MAC_DATA_SIZE \<and> length ct \<le> cap)"

section \<open>The state of a connection between two receive calls\<close>

definition recv_buf_ok :: "('w, 'h, 'k) nst \<Rightarrow> recv_buf \<Rightarrow> bool" where
  "recv_buf_ok s b \<longleftrightarrow>
     0 \<le> nc_noise_msg_recv_size (nc s) \<and> nc_noise_msg_recv_size (nc s) < 65536 \<and>
     rb_start b \<le> rb_pos b \<and> rb_end b = rb_start b + nat (nc_noise_msg_recv_size (nc s)) \<and>
     rb_pos b \<le> rb_end b \<and> rb_start b + 65535 \<le> length (heap s (rb_region b))"

definition recv_inv :: "('w, 'h, 'k) nst \<Rightarrow> bool" where
  "recv_inv s \<longleftrightarrow>
     (if nc_noise_msg_size_reading (nc s)
      then 0 \<le> nc_noise_msg_recv_size (nc s) \<and> nc_noise_msg_recv_size (nc s) < 256
      else nc_noise_msg_recv_size (nc s) = NGX_NSOC_SIZE_UNSET \<or>
           (case nc_recv_buf (nc s) of None \<Rightarrow> False | Some b \<Rightarrow> recv_buf_ok s b))"

text \<open>The part of the current frame already taken from the stream, followed by the stream.\<close>

definition frame_view :: "('w \<Rightarrow> byte list) \<Rightarrow> ('w, 'h, 'k) nst \<Rightarrow> byte list" where
  "frame_view pending s =
     (if nc_noise_msg_size_reading (nc s)
      then word_of_int (nc_noise_msg_recv_size (nc s)) # pending (world s)
      else if nc_noise_msg_recv_size (nc s) = NGX_NSOC_SIZE_UNSET then pending (world s)
      else case nc_recv_buf (nc s) of
             None \<Rightarrow> pending (world s)
           | Some b \<Rightarrow> be16 (nat (nc_noise_msg_recv_size (nc s)))
                 @ take (rb_pos b - rb_start b) (drop (rb_start b) (heap s (rb_region b)))
                 @ pending (world s))"

abbreviation recv_cipher where
  "recv_cipher s \<equiv> NoiseRecvCipherObj (nc_noise_connection (nc s))"

abbreviation send_cipher where
  "send_cipher s \<equiv> NoiseSendCipherObj (nc_noise_connection (nc s))"

text \<open>
  What one call of \<open>ngx_nsoc_recv\<close> may do: report \<open>NGX_AGAIN\<close> and keep everything it has
  seen, or report a payload, having taken exactly one frame off the stream, decrypted it and
  left its plaintext in memory; and nothing else is a crash.
\<close>

definition recv_post ::
  "('h, 'k) noise_c \<Rightarrow> ('w \<Rightarrow> byte list) \<Rightarrow> nat \<Rightarrow> byte list \<Rightarrow> 'k option \<Rightarrow>
   (int, ('w, 'h, 'k) nst) run \<Rightarrow> bool" where
  "recv_post X pending sz view k0 r \<longleftrightarrow>
     (case r of
        Crash e \<Rightarrow> False
      | Diverge \<Rightarrow> False
      | Ret n s' \<Rightarrow>
          n \<le> int sz \<and>
          (n = NGX_AGAIN \<longrightarrow> recv_inv s' \<and> frame_view pending s' = view \<and> recv_cipher s' = k0) \<and>
          (0 < n \<longrightarrow> recv_inv s' \<and> nc_last (nc s') = 0 \<and>
             (\<exists>ct pt k k' r st.
                view = be16 (length ct) @ ct @ frame_view pending s' \<and> length ct < 65536 \<and>
                k0 = Some k \<and> cs_decrypt X ct (length ct) k = (NOISE_ERROR_NONE, pt, k') \<and>
                recv_cipher s' = Some k' \<and>
                take (length pt) (drop st (heap s' r)) = pt \<and>
                (2 \<le> length pt \<longrightarrow> n = int (rd16 (pt ! 0) (pt ! 1))))))"

lemma plain_data_size_rd16: "plain_data_size (a # b # xs) = rd16 a b"
proof -
  have "swapw (of_le16 a b) = of_le16 b a"
    by (rule bit_word_eqI) (auto simp: swapw_bit of_le16_def bit_simps byte_bit_high)
  moreover have "unat (of_le16 b a) = unat a * 256 + unat b"
  proof -
    have "of_le16 b a = push_bit 8 (ucast a) + ucast b"
      unfolding of_le16_def
      by (subst disjunctive_add [symmetric]) (auto simp: bit_simps byte_bit_high add.commute)
    then have eq: "of_le16 b a = word_of_nat (unat a * 256 + unat b)"
      by (simp add: push_bit_eq_mult)
    have "unat (of_le16 b a) = (unat a * 256 + unat b) mod 2 ^ LENGTH(16)"
      unfolding eq by (rule unat_of_nat)
    moreover have "unat a * 256 + unat b < 65536"
      using rd16_less [of a b] by (simp add: rd16_def)
    ultimately show ?thesis by simp
  qed
  ultimately show ?thesis by (simp add: plain_data_size_def rd16_def)
qed

section \<open>One call of ngx\_nsoc\_recv\<close>

lemma upd_read_nc [simp]: "nc (upd_cn f s) = nc s" "heap (upd_cn f s) = heap s" "world (upd_cn f s) = world s"
  by simp_all

lemma recv_finish_post:
  fixes s :: "('w, 'h, 'k) nst"
  assumes "decrypt_contract X" and ok: "recv_buf_ok s b" and full: "rb_pos b = rb_end b"
    and nr: "\<not> nc_noise_msg_size_reading (nc s)"
    and buf: "nc_recv_buf (nc s) = Some b"
  shows "recv_post X pending sz (frame_view pending s) (recv_cipher s) (recv_finish X sz b s)"
proof -
  let ?m = "heap s (rb_region b)" and ?k = "nat (nc_noise_msg_recv_size (nc s))"
  define ct where "ct = take ?k (drop (rb_start b) ?m)"
  have room: "rb_start b + ?k \<le> length ?m" and room2: "rb_start b + 2 \<le> length ?m"
    and pos: "nc_noise_msg_recv_size (nc s) \<noteq> NGX_NSOC_SIZE_UNSET"
    using ok by (auto simp: recv_buf_ok_def)
  have rd: "mem_read (rb_start b) ?k ?m = Some ct"
    using room by (simp add: mem_read_def ct_def)
  have len: "length ct = ?k" using room by (simp add: ct_def)
  then have small: "length ct < 65536" using ok by (auto simp: recv_buf_ok_def)
  have view: "frame_view pending s = be16 (length ct) @ ct @ pending (world s)"
    using nr pos buf full ok by (simp add: frame_view_def len recv_buf_ok_def) (simp add: ct_def)
  show ?thesis
  proof (cases "recv_cipher s")
    case None
    then show ?thesis
      by (simp add: recv_finish_def rd recv_post_def Let_def)
  next
    case (Some k)
    obtain err pt k' where dec: "cs_decrypt X ct (length ct) k = (err, pt, k')"
      by (metis prod_cases3)
    show ?thesis
    proof (cases "err = NOISE_ERROR_NONE")
      case False
      then show ?thesis
        using Some dec by (simp add: recv_finish_def rd recv_post_def Let_def len)
    next
      case True
      with assms(1) dec have ptlen: "length pt \<le> length ct"
        unfolding decrypt_contract_def by blast
      with room len obtain m' where wr: "mem_write (rb_start b) pt ?m = Some m'"
        by (auto simp: mem_write_def)
      then have lm': "length m' = length ?m" by (rule mem_write_length)
      define hd2 where "hd2 = take 2 (drop (rb_start b) m')"
      have rd2: "mem_read (rb_start b) 2 m' = Some hd2"
        using room2 lm' by (simp add: mem_read_def hd2_def)
      have inmem: "take (length pt) (drop (rb_start b) m') = pt"
        using mem_read_write [OF wr] by (auto simp: mem_read_def split: if_splits)
      have hdpt: "plain_data_size hd2 = rd16 (pt ! 0) (pt ! 1)" if "2 \<le> length pt"
      proof -
        from that obtain x y ys where pt: "pt = x # y # ys"
          by (cases pt; cases "tl pt") auto
        have "hd2 = take 2 (take (length pt) (drop (rb_start b) m'))"
          using that by (simp add: hd2_def min_def)
        with pt inmem have "hd2 = [x, y]" by simp
        with pt show ?thesis by (simp add: plain_data_size_rd16)
      qed
      show ?thesis
      proof (cases "plain_data_size hd2 \<le> sz")
        case False
        then show ?thesis
          using Some dec True by (simp add: recv_finish_def rd rd2 wr recv_post_def Let_def len)
      next
        case fits: True
        define s3 where "s3 = upd_nc (\<lambda>x. x\<lparr>nc_recv_buf := None, nc_last := 0,
              nc_noise_msg_recv_size := NGX_NSOC_SIZE_UNSET\<rparr>)
            (upd_cn (upd_read (\<lambda>e. e\<lparr>ev_ready := True\<rparr>))
              (upd_nc (\<lambda>x. x\<lparr>nc_noise_connection :=
                  (nc_noise_connection x)\<lparr>NoiseRecvCipherObj := Some k'\<rparr>\<rparr>) s
                \<lparr>heap := (heap s)(rb_region b := m')\<rparr>))"
        have ret: "recv_finish X sz b s = Ret (int (plain_data_size hd2)) s3"
          using fits Some dec True
          by (simp add: recv_finish_def rd rd2 wr Let_def len s3_def)
        have "view = be16 (length ct) @ ct @ frame_view pending s3 \<and> length ct < 65536 \<and>
            recv_cipher s = Some k \<and> cs_decrypt X ct (length ct) k = (NOISE_ERROR_NONE, pt, k') \<and>
            recv_cipher s3 = Some k' \<and>
            take (length pt) (drop (rb_start b) (heap s3 (rb_region b))) = pt \<and>
            (2 \<le> length pt \<longrightarrow> int (plain_data_size hd2) = int (rd16 (pt ! 0) (pt ! 1)))"
          if "view = frame_view pending s" for view
          using that Some dec True hdpt inmem view nr small
          by (simp add: s3_def frame_view_def)
        moreover have "recv_inv s3" "nc_last (nc s3) = 0"
          using nr by (simp_all add: s3_def recv_inv_def)
        ultimately show ?thesis
          using fits unfolding ret recv_post_def by fastforce
      qed
    qed
  qed
qed

lemma recv_loop_post:
  fixes s :: "('w, 'h, 'k) nst"
  assumes "recv_contract N" and "open_stream N pending" and "decrypt_contract X"
    and "recv_buf_ok s b" and "\<not> nc_noise_msg_size_reading (nc s)"
    and "nc_recv_buf (nc s) = Some b"
  shows "recv_post X pending sz (frame_view pending s) (recv_cipher s) (recv_loop N X sz b s)"
  using assms
proof (induction N X sz b s rule: recv_loop.induct)
  case (1 N X sz b s)
  obtain n bs s1 where rd: "do_recv N (rb_end b - rb_pos b) s = (n, bs, s1)"
    by (metis prod_cases3)
  note fr = do_recv_frame [OF rd] and st = do_recv_stream (1) [OF "1.prems"(2) rd]
  note ok = "1.prems"(4) and nr = "1.prems"(5) and buf = "1.prems"(6)
  have pos: "nc_noise_msg_recv_size (nc s) \<noteq> NGX_NSOC_SIZE_UNSET"
    using ok by (auto simp: recv_buf_ok_def)
  show ?case
  proof (cases "0 < n")
    case True
    have sz: "int (length bs) = n" "rb_pos b + length bs \<le> rb_end b"
      using do_recv_contract [OF "1.prems"(1) rd True] ok by (auto simp: recv_buf_ok_def)
    have "rb_end b \<le> length (heap s (rb_region b))"
      using ok by (auto simp: recv_buf_ok_def)
    with sz obtain m where wr: "mem_write (rb_pos b) bs (heap s (rb_region b)) = Some m"
      by (auto simp: mem_write_def)
    then have wr': "mem_write (rb_pos b) bs (heap s1 (rb_region b)) = Some m"
      using fr by simp
    define b' where "b' = b\<lparr>rb_pos := rb_pos b + length bs\<rparr>"
    define s2 where "s2 = upd_nc (\<lambda>x. x\<lparr>nc_recv_buf := Some b'\<rparr>)
      (s1\<lparr>heap := (heap s1)(rb_region b := m)\<rparr>)"
    have ok': "recv_buf_ok s2 b'"
      using ok sz fr mem_write_length [OF wr] by (auto simp: recv_buf_ok_def s2_def b'_def)
    have pre: "take (rb_pos b + length bs - rb_start b) (drop (rb_start b) m)
        = take (rb_pos b - rb_start b) (drop (rb_start b) (heap s (rb_region b))) @ bs"
      using mem_write_prefix [OF wr] ok by (simp add: recv_buf_ok_def)
    have view': "frame_view pending s2 = frame_view pending s"
      using pos nr buf fr st True pre
      by (simp add: frame_view_def s2_def b'_def)
    have cip: "recv_cipher s2 = recv_cipher s" using fr by (simp add: s2_def)
    have nr': "\<not> nc_noise_msg_size_reading (nc s2)" using nr fr by (simp add: s2_def)
    have buf': "nc_recv_buf (nc s2) = Some b'" by (simp add: s2_def)
    have step: "recv_loop N X sz b s =
        (if int (rb_pos b') - int (rb_start b') = nc_noise_msg_recv_size (nc s2)
         then recv_finish X sz b' s2 else recv_loop N X sz b' s2)"
      using rd True sz wr fr
      by (subst recv_loop.simps) (simp add: Let_def b'_def s2_def)
    show ?thesis
    proof (cases "int (rb_pos b') - int (rb_start b') = nc_noise_msg_recv_size (nc s2)")
      case full: True
      then have "rb_pos b' = rb_end b'" using ok' by (auto simp: recv_buf_ok_def)
      from recv_finish_post [OF "1.prems"(3) ok' this nr' buf', of pending sz] full step view' cip
      show ?thesis by simp
    next
      case False
      have "recv_post X pending sz (frame_view pending s2) (recv_cipher s2) (recv_loop N X sz b' s2)"
        using sz by (intro "1.IH" [OF rd [symmetric] refl True _ wr' b'_def s2_def False
              "1.prems"(1-3) ok' nr' buf']) simp
      with False step view' cip show ?thesis by simp
    qed
  next
    case False
    show ?thesis
    proof (cases "n = NGX_AGAIN")
      case True
      then show ?thesis
        using rd fr st False ok nr buf pos
        by (subst recv_loop.simps)
          (simp add: recv_post_def recv_inv_def frame_view_def recv_buf_ok_def)
    next
      case neq: False
      with False rd fr show ?thesis
        by (subst recv_loop.simps) (simp add: recv_post_def)
    qed
  qed
qed

lemma palloc_stream:
  "open_stream N pending \<Longrightarrow> ngx_palloc N k w = (m, w') \<Longrightarrow> pending w' = pending w"
  by (auto simp: open_stream_def)

lemma recv_open_post:
  fixes s :: "('w, 'h, 'k) nst"
  assumes c: "recv_contract N" "open_stream N pending" "decrypt_contract X"
    and nr: "\<not> nc_noise_msg_size_reading (nc s)"
    and k: "nc_noise_msg_recv_size (nc s) = int k" "k < 65536"
    and room: "off + 2 + 65535 \<le> length (heap s r)"
  shows "recv_post X pending sz (be16 k @ pending (world s)) (recv_cipher s) (recv_open N X (r, off) sz s)"
proof -
  obtain m w where al: "ngx_palloc N 1 (world s) = (m, w)" by fastforce
  define b where "b = \<lparr>rb_region = r, rb_start = off + 2, rb_pos = off + 2, rb_end = off + 2 + k\<rparr>"
  define s1 where "s1 = upd_nc (\<lambda>x. x\<lparr>nc_recv_buf := Some b\<rparr>) (s\<lparr>world := w\<rparr>)"
  have view: "frame_view pending s1 = be16 k @ pending (world s)" and ok: "recv_buf_ok s1 b"
    using nr k room palloc_stream [OF c(2) al]
    by (simp_all add: s1_def b_def frame_view_def recv_buf_ok_def)
  have "\<not> nc_noise_msg_size_reading (nc s1)" "nc_recv_buf (nc s1) = Some b"
    "recv_cipher s1 = recv_cipher s"
    using nr by (simp_all add: s1_def)
  with recv_loop_post [OF c ok, of sz] view
  have post: "recv_post X pending sz (be16 k @ pending (world s)) (recv_cipher s) (recv_loop N X sz b s1)"
    by simp
  have "recv_open N X (r, off) sz s =
      (if m = None then Ret NGX_ERROR (s\<lparr>world := w\<rparr>) else recv_loop N X sz b s1)"
    using k by (auto simp: recv_open_def al [simplified] s1_def b_def Let_def)
  with post show ?thesis by (simp add: recv_post_def)
qed

lemma read_msg_len_frame:
  assumes "recv_contract N" and "ngx_nsoc_read_noise_msg_len N s = Ret n s'"
  shows "nc_noise_connection (nc s') = nc_noise_connection (nc s) \<and> heap s' = heap s"
proof -
  define got where "got = (if nc_noise_msg_size_reading (nc s)
    then [word_of_int (nc_noise_msg_recv_size (nc s)) :: byte] else [])"
  define s1 where "s1 = (if nc_noise_msg_size_reading (nc s) then s else upd_nc (set_msg_size (- 1)) s)"
  have "length got < 2" by (simp add: got_def)
  from len_loop_total [OF assms(1) this, of s1]
  obtain m got' s2 where l: "len_loop N got s1 = Ret (m, got') s2" "nc s2 = nc s1" "heap s2 = heap s1"
    by blast
  with assms(2) show ?thesis
    by (auto simp: ngx_nsoc_read_noise_msg_len_def read_len_field_def got_def s1_def split: if_splits)
qed

lemma recv_body_post:
  fixes s :: "('w, 'h, 'k) nst"
  assumes c: "recv_contract N" "open_stream N pending" "decrypt_contract X"
    and inv: "recv_inv s" and last: "nc_last (nc s) \<noteq> NGX_ERROR"
    and room: "off + 2 + 65535 \<le> length (heap s r)"
  shows "recv_post X pending sz (frame_view pending s) (recv_cipher s)
           (recv_body N X (Some (r, off)) sz s)"
proof (cases "nc_noise_msg_recv_size (nc s) = NGX_NSOC_SIZE_UNSET \<or> nc_noise_msg_size_reading (nc s)")
  case False
  with inv obtain b where b: "nc_recv_buf (nc s) = Some b" "recv_buf_ok s b"
    by (auto simp: recv_inv_def split: option.splits)
  with False last recv_loop_post [OF c b(2) _ b(1), of sz] show ?thesis
    by (simp add: recv_body_def)
next
  case True
  obtain n s1 where rl: "ngx_nsoc_read_noise_msg_len N s = Ret n s1"
    using msg.read_len_total [OF c(1), of s] by (auto simp: ngx_nsoc_read_noise_msg_len_def)
  define got0 :: "byte list" where "got0 = (if nc_noise_msg_size_reading (nc s)
    then [word_of_int (nc_noise_msg_recv_size (nc s))] else [])"
  have view: "frame_view pending s = got0 @ pending (world s)"
    using True by (auto simp: frame_view_def got0_def)
  have rest: "recv_cipher s1 = recv_cipher s \<and> heap s1 = heap s"
    using read_msg_len_frame [OF c(1) rl] by simp
  have body: "recv_body N X (Some (r, off)) sz s =
      (if n \<noteq> NGX_OK then Ret n s1
       else if nc_noise_msg_recv_size (nc s1) = NGX_NSOC_SIZE_UNSET then Ret NGX_AGAIN s1
       else recv_open N X (r, off) sz s1)"
    using True last rl by (simp add: recv_body_def recv_open_def)
  have "nc_noise_msg_size_reading (nc s) \<Longrightarrow>
      0 \<le> nc_noise_msg_recv_size (nc s) \<and> nc_noise_msg_recv_size (nc s) < 256"
    using inv by (simp add: recv_inv_def)
  from msg.read_len_cases [OF c(1,2) rl [unfolded ngx_nsoc_read_noise_msg_len_def] this]
  consider (ok) k where "n = NGX_OK" "\<not> nc_noise_msg_size_reading (nc s1)" "k < 65536"
      "nc_noise_msg_recv_size (nc s1) = int k" "got0 @ pending (world s) = be16 k @ pending (world s1)"
    | (one) "n = NGX_AGAIN" "nc_noise_msg_size_reading (nc s1)" "0 \<le> nc_noise_msg_recv_size (nc s1)"
      "nc_noise_msg_recv_size (nc s1) < 256"
      "got0 @ pending (world s) = word_of_int (nc_noise_msg_recv_size (nc s1)) # pending (world s1)"
    | (none) "n = NGX_AGAIN" "\<not> nc_noise_msg_size_reading (nc s1)"
      "nc_noise_msg_recv_size (nc s1) = NGX_NSOC_SIZE_UNSET" "got0 @ pending (world s) = pending (world s1)"
    | (err) "n < 0" "n \<noteq> NGX_AGAIN"
    unfolding got0_def by auto
  then show ?thesis
  proof cases
    case ok
    then have "frame_view pending s = be16 k @ pending (world s1)" by (simp add: view)
    with recv_open_post [OF c ok(2,4,3) room [folded rest [THEN conjunct2]]] ok rest body
    show ?thesis by simp
  next
    case one
    then show ?thesis
      using view rest body by (simp add: recv_post_def recv_inv_def frame_view_def)
  next
    case none
    then show ?thesis
      using view rest body by (simp add: recv_post_def recv_inv_def frame_view_def)
  next
    case err
    then show ?thesis
      using body by (simp add: recv_post_def)
  qed
qed

section \<open>One call of ngx\_nsoc\_write\<close>

text \<open>TCP as the writer sees it: \<open>sent\<close> is what the socket has accepted so far.\<close>

definition send_stream :: "'w nginx \<Rightarrow> ('w \<Rightarrow> byte list) \<Rightarrow> bool" where
  "send_stream N sent \<longleftrightarrow>
     (\<forall>bs c w n c' w'. ngx_send N bs c w = (n, c', w') \<longrightarrow>
        n \<le> int (length bs) \<and> sent w' = sent w @ take (nat n) bs) \<and>
     (\<forall>k w m w'. ngx_palloc N k w = (m, w') \<longrightarrow> sent w' = sent w)"

lemma send_loop_post:
  assumes "send_stream N sent"
  shows "\<exists>n s'. send_loop N out sz s = Ret n s' \<and>
     (n = int sz \<and> sent (world s') = sent (world s) @ out \<and>
        nc s' = (nc s)\<lparr>nc_send_buf := None, nc_to_send := 0\<rparr>
      \<or> n \<le> 0 \<and> nc s' = nc s \<and>
        (\<exists>j \<le> length out. sent (world s') = sent (world s) @ take j out))"
  using assms
proof (induction N out sz s rule: send_loop.induct)
  case (1 N out sz s)
  obtain n c w where sd: "ngx_send N out (cn s) (world s) = (n, c, w)"
    by (metis prod_cases3)
  with "1.prems" have le: "n \<le> int (length out)" and st: "sent w = sent (world s) @ take (nat n) out"
    by (auto simp: send_stream_def)
  let ?s1 = "s\<lparr>cn := c, world := w\<rparr>"
  consider (part) "0 < n" "nat n < length out" | (all) "0 < n" "nat n = length out" | (none) "n \<le> 0"
    using le by linarith
  then show ?case
  proof cases
    case part
    from "1.IH" [OF sd [symmetric] refl refl part "1.prems"]
    obtain n' s' where IH: "send_loop N (drop (nat n) out) sz ?s1 = Ret n' s'"
      "n' = int sz \<and> sent (world s') = sent w @ drop (nat n) out \<and>
         nc s' = (nc s)\<lparr>nc_send_buf := None, nc_to_send := 0\<rparr>
       \<or> n' \<le> 0 \<and> nc s' = nc s \<and>
         (\<exists>j \<le> length out - nat n. sent (world s') = sent w @ take j (drop (nat n) out))"
      by auto
    have step: "send_loop N out sz s = Ret n' s'"
      using sd part IH(1) by (subst send_loop.simps) (simp add: Let_def)
    have "\<exists>i \<le> length out. sent w @ take j (drop (nat n) out) = sent (world s) @ take i out"
      if "j \<le> length out - nat n" for j
      using that part by (intro exI [of _ "nat n + j"]) (simp add: st take_add)
    with step IH(2) st show ?thesis by fastforce
  next
    case all
    then show ?thesis
      using sd st by (subst send_loop.simps) (simp add: Let_def)
  next
    case none
    then show ?thesis
      using sd st by (subst send_loop.simps) (auto simp: Let_def)
  qed
qed

text \<open>
  The call with an idle connection, a buffer with room for the frame and a cipher: the frame
  is built, and either all of it has been handed to the socket or the call reports what the
  socket said and the connection remembers that bytes are outstanding, without the buffer.
\<close>

lemma write_body_post:
  fixes s :: "('w, 'h, 'k) nst"
  assumes "send_stream N sent" and enc: "encrypt_contract X"
    and al: "ngx_palloc N 1 (world s) = (Some a, w)"
    and idle: "nc_to_send (nc s) = 0" "nc_send_buf (nc s) = None"
    and sz: "4 \<le> sz" "sz - 4 \<le> nc_buffer_size (nc s)"
    and room: "sz + 16 \<le> length m"
    and k: "send_cipher s = Some k"
    and ct: "cs_encrypt X (be16 (sz - 4) @ take (sz - 4) (drop 4 m)) (sz - 4 + 18) k
               = (NOISE_ERROR_NONE, ct, k')"
  shows "\<exists>n m' s'. write_body N X (Some m) sz s = Ret (n, m') s' \<and>
     length ct = sz + 14 \<and> send_cipher s' = Some k' \<and> nc_send_buf (nc s') = None \<and>
     nc_buffer_size (nc s') = nc_buffer_size (nc s) \<and>
     (n = int sz \<and> sent (world s') = sent (world s) @ be16 (length ct) @ ct \<and> nc_to_send (nc s') = 0
      \<or> n \<le> 0 \<and> nc_to_send (nc s') = length ct + 2 \<and>
        (\<exists>j \<le> length ct + 2. sent (world s') = sent (world s) @ take j (be16 (length ct) @ ct)))"
proof -
  have len: "length ct = sz + 14"
    using enc ct sz(1) room by (auto simp: encrypt_contract_def dest!: spec)
  obtain m1 where m1: "mem_write 2 (be16 (sz - 4)) m = Some m1"
    "m1 = take 2 m @ be16 (sz - 4) @ drop 4 m"
    using room by (auto simp: mem_write_def)
  have pt: "mem_read 2 (sz - 4 + 2) m1 = Some (be16 (sz - 4) @ take (sz - 4) (drop 4 m))"
  proof -
    have "drop 2 m1 = be16 (sz - 4) @ drop 4 m"
      using m1(2) room by simp
    then have "take (sz - 4 + 2) (drop 2 m1) = be16 (sz - 4) @ take (sz - 4) (drop 4 m)"
      by simp
    moreover have "2 + (sz - 4 + 2) \<le> length m1"
      using mem_write_length [OF m1(1)] room sz(1) by simp
    ultimately show ?thesis by (simp add: mem_read_def)
  qed
  obtain m2 where m2: "mem_write 2 ct m1 = Some m2" "m2 = take 2 m @ ct @ drop (2 + length ct) m1"
    using m1(2) room len sz(1) by (auto simp: mem_write_def)
  obtain m3 where m3: "mem_write 0 (be16 (length ct)) m2 = Some m3"
    "m3 = be16 (length ct) @ ct @ drop (2 + length ct) m1"
    using m2(2) room by (auto simp: mem_write_def)
  have out: "take (length ct + 2) m3 = be16 (length ct) @ ct"
    by (simp add: m3(2))
  define s2 where "s2 = upd_nc (\<lambda>x. x\<lparr>nc_noise_connection := (nc_noise_connection x)
      \<lparr>NoiseSendCipherObj := Some k'\<rparr>, nc_to_send := length ct + 2\<rparr>) (s\<lparr>world := w\<rparr>)"
  have sw: "sent (world s2) = sent (world s)"
    using assms(1) al by (auto simp: send_stream_def s2_def)
  obtain n s' where l: "send_loop N (be16 (length ct) @ ct) sz s2 = Ret n s'"
    "n = int sz \<and> sent (world s') = sent (world s2) @ be16 (length ct) @ ct \<and>
        nc s' = (nc s2)\<lparr>nc_send_buf := None, nc_to_send := 0\<rparr>
      \<or> n \<le> 0 \<and> nc s' = nc s2 \<and>
        (\<exists>j \<le> length (be16 (length ct) @ ct).
           sent (world s') = sent (world s2) @ take j (be16 (length ct) @ ct))"
    using send_loop_post [OF assms(1), of "be16 (length ct) @ ct" sz s2] by blast
  have cap: "sz - 4 + NOISE_PROTOCOL_MAC_DATA_SIZE + NGX_NSOC_LEN_FIELD_SIZE = sz - 4 + 18" by simp
  have "write_body N X (Some m) sz s = Ret (n, m3) s'"
    unfolding write_body_def
    using sz idle al [simplified] m1(1) pt k ct m2(1) m3(1) out l(1)
    by (simp add: Let_def s2_def)
  moreover have "send_cipher s' = Some k'" "nc_send_buf (nc s') = None"
    "nc_buffer_size (nc s') = nc_buffer_size (nc s)"
    using l(2) idle by (auto simp: s2_def)
  moreover have "n = int sz \<and> sent (world s') = sent (world s) @ be16 (length ct) @ ct
        \<and> nc_to_send (nc s') = 0
      \<or> n \<le> 0 \<and> nc_to_send (nc s') = length ct + 2 \<and>
        (\<exists>j \<le> length ct + 2. sent (world s') = sent (world s) @ take j (be16 (length ct) @ ct))"
    using l(2)
  proof (elim disjE conjE)
    assume "n \<le> 0" "nc s' = nc s2" "\<exists>j \<le> length (be16 (length ct) @ ct).
           sent (world s') = sent (world s2) @ take j (be16 (length ct) @ ct)"
    moreover have "nc_to_send (nc s2) = length ct + 2" by (simp add: s2_def)
    ultimately show ?thesis using sw by (simp add: add.commute)
  qed (simp add: sw)
  ultimately show ?thesis using len by blast
qed

section \<open>A connection to evaluate\<close>

definition demo_ctx :: noise_ctx where
  "demo_ctx = \<lparr>private_keys = Some \<lparr>arr_strs = [\<lparr>str_len = 32, str_ptr = 0x1000, str_data = replicate 32 5\<rparr>],
       arr_slack = replicate 64 0\<rparr>, public_keys = None\<rparr>"

definition demo_prologue :: noise_prologue_data where
  "demo_prologue = \<lparr>strPrologue = replicate 16 1, header_len = swapw 6,
     header = \<lparr>version_id = swapw 1, dh_id = 1, cipher_id = 2, hash_id = 3, pattern_id = 9\<rparr>\<rparr>"

definition demo_noise_conf :: "nat \<Rightarrow> ngx_noise" where
  "demo_noise_conf bsz = \<lparr>noise_ctx_p = Some demo_ctx, noise_prologue = demo_prologue,
     noise_buffer_size = bsz, noise_handshake_timeout = 60000\<rparr>"

definition demo_transport :: "nat \<Rightarrow> (nat \<Rightarrow> byte list) \<Rightarrow> script \<Rightarrow> (script, demo_hs, nat) nst" where
  "demo_transport bsz h w =
     \<lparr>nc = (fresh_nc (demo_noise_conf bsz) 0 True NGX_NSOC_CLIENT_ROLE)
            \<lparr>nc_noise_connection := empty_npc\<lparr>NoiseSendCipherObj := Some 0, NoiseRecvCipherObj := Some 0\<rparr>\<rparr>,
      cn = plain_connection 0, heap = h, world = w\<rparr>"

lemma demo_transport_simps [simp]:
  "nc_last (nc (demo_transport bsz h w)) = 0"
  "nc_to_send (nc (demo_transport bsz h w)) = 0"
  "nc_send_buf (nc (demo_transport bsz h w)) = None"
  "nc_noise_msg_size_reading (nc (demo_transport bsz h w)) = False"
  "nc_noise_msg_recv_size (nc (demo_transport bsz h w)) = NGX_NSOC_SIZE_UNSET"
  "nc_buffer_size (nc (demo_transport bsz h w)) = bsz"
  "send_cipher (demo_transport bsz h w) = Some 0"
  "recv_cipher (demo_transport bsz h w) = Some 0"
  "heap (demo_transport bsz h w) = h" "world (demo_transport bsz h w) = w"
  by (simp_all add: demo_transport_def fresh_nc_def demo_noise_conf_def)

lemma demo_recv_inv [simp]: "recv_inv (demo_transport bsz h w)"
  by (simp add: recv_inv_def)

lemma demo_decrypt_contract: "decrypt_contract demo_noise"
  by (auto simp: decrypt_contract_def demo_noise_def split: if_splits)

lemma demo_encrypt_contract: "encrypt_contract demo_noise"
  by (auto simp: encrypt_contract_def demo_noise_def split: if_splits)

lemma live_send_stream: "send_stream live_nginx sc_out"
  by (auto simp: send_stream_def live_nginx_def script_nginx_def script_send_def Let_def min_def
      split: if_splits)

section \<open>Properties\<close>

text \<open>
  C6: \<open>ngx_nsoc_recv\<close> implements the reading of whole frames, however the stream is cut into
  segments. From every state the function leaves between two calls, with at least 65537 bytes
  behind the caller's pointer, a call does not crash and does not loop; \<open>NGX_AGAIN\<close> means
  that nothing seen so far is lost; a positive result means that exactly one frame (length
  field and ciphertext) was taken off the stream, that it decrypted under the receive
  cipher, that its plaintext is in memory and that the result is the length it announces,
  which is at most the caller's size.
\<close>

theorem recv_refines_frames:
  assumes "recv_contract N" and "open_stream N pending" and "decrypt_contract X"
    and "recv_inv s" and "nc_last (nc s) \<noteq> NGX_ERROR"
    and "off + 65537 \<le> length (heap s r)"
  shows "recv_post X pending sz (frame_view pending s) (recv_cipher s)
           (recv_body N X (Some (r, off)) sz s)"
  using assms by (intro recv_body_post) simp_all

theorem recv_refines_frames_witness:
  "recv_post demo_noise (\<lambda>w. concat (sc_in w)) 65517
     (frame_view (\<lambda>w. concat (sc_in w)) (demo_transport 65517 (\<lambda>_. replicate 65537 0)
        (script_world [[0], [], [18, 0, 0], replicate 16 0])))
     (Some 0)
     (recv_body live_nginx demo_noise (Some (0, 0)) 65517
        (demo_transport 65517 (\<lambda>_. replicate 65537 0) (script_world [[0], [], [18, 0, 0], replicate 16 0])))"
  using recv_refines_frames [OF live_recv_contract live_open_stream demo_decrypt_contract,
      of "demo_transport 65517 (\<lambda>_. replicate 65537 0) (script_world [[0], [], [18, 0, 0], replicate 16 0])" 0 0 65517]
  by simp

text \<open>
  C16: The largest payload the module accepts makes the largest frame the length field can
  carry. For an idle connection whose buffer size is at most 65517, a payload that fits and a
  buffer with room for the frame, \<open>ngx_nsoc_write\<close> builds a frame of \<open>size + 14\<close> bytes behind a
  length field that reads back as that number; it either reports the whole size with exactly
  that frame handed to the socket, or a code that is not positive with a prefix of it handed
  over.
\<close>

theorem write_frame_on_wire:
  fixes s :: "('w, 'h, 'k) nst"
  assumes "send_stream N sent" and "encrypt_contract X"
    and "ngx_palloc N 1 (world s) = (Some a, w)"
    and "nc_to_send (nc s) = 0" and "nc_send_buf (nc s) = None"
    and "4 \<le> sz" and "sz - 4 \<le> nc_buffer_size (nc s)"
    and "nc_buffer_size (nc s) \<le> NOISE_PROTOCOL_PAYLOAD_SIZE"
    and "sz + 16 \<le> length m" and "send_cipher s = Some k"
    and "cs_encrypt X (be16 (sz - 4) @ take (sz - 4) (drop 4 m)) (sz - 4 + 18) k
           = (NOISE_ERROR_NONE, ct, k')"
  shows "length ct = sz + 14 \<and> (\<exists>x y. be16 (length ct) = [x, y] \<and> rd16 x y = length ct) \<and>
    (\<exists>n m' s'. write_body N X (Some m) sz s = Ret (n, m') s' \<and>
      (n = int sz \<and> sent (world s') = sent (world s) @ be16 (length ct) @ ct
       \<or> n \<le> 0 \<and> (\<exists>j \<le> length ct + 2.
            sent (world s') = sent (world s) @ take j (be16 (length ct) @ ct))))"
proof -
  note post = write_body_post [OF assms(1-7,9-11)]
  then have len: "length ct = sz + 14" by blast
  then have "length ct < 65536" using assms(7,8) by simp
  then have "\<exists>x y. be16 (length ct) = [x, y] \<and> rd16 x y = length ct"
    unfolding be16_def using rd16_word_of_nat by blast
  with post len show ?thesis by blast
qed

theorem write_frame_on_wire_witness:
  "\<exists>n m' s'. write_body live_nginx demo_noise (Some ([0, 0, 0, 0, 65, 66] @ replicate 16 0)) 6
      (demo_transport 65517 (\<lambda>_. []) (script_world [])) = Ret (n, m') s' \<and>
      (n = 6 \<and> sc_out (world s') = be16 20 @ [0, 2, 65, 66] @ replicate 16 0
       \<or> n \<le> 0 \<and> (\<exists>j \<le> 22. sc_out (world s') = take j (be16 20 @ [0, 2, 65, 66] @ replicate 16 0)))"
proof -
  have "be16 2 = [0, 2]" by (simp add: be16_def)
  then have enc: "cs_encrypt demo_noise (be16 (6 - 4) @ take (6 - 4) (drop 4 ([0, 0, 0, 0, 65, 66] @ replicate 16 0)))
      (6 - 4 + 18) 0 = (NOISE_ERROR_NONE, [0, 2, 65, 66] @ replicate 16 0, Suc 0)"
    by (simp add: demo_noise_def)
  show ?thesis
    using write_frame_on_wire [OF live_send_stream demo_encrypt_contract _ _ _ _ _ _ _ _ enc,
        of "demo_transport 65517 (\<lambda>_. []) (script_world [])"]
    by (simp add: live_nginx_def script_nginx_def script_world_def)
qed

text \<open>
  C1: Delivery. When \<open>ngx_nsoc_write\<close> reports the whole size, and the peer's receive cipher is
  the counterpart of the sender's, and the peer's stream continues with what was sent, then
  the first positive result of the peer's \<open>ngx_nsoc_recv\<close> (in however many calls and
  segments) is the payload's length; the payload is in the peer's memory behind the inner
  length field; and the peer's stream continues exactly behind the frame.
\<close>

theorem transport_delivers_payload:
  fixes s :: "('w, 'h, 'k) nst" and t :: "('v, 'h, 'k) nst"
  assumes "send_stream N sent" and "encrypt_contract X"
    and "ngx_palloc N 1 (world s) = (Some a, w)"
    and "nc_to_send (nc s) = 0" and "nc_send_buf (nc s) = None"
    and "4 \<le> sz" and "sz - 4 \<le> nc_buffer_size (nc s)"
    and "nc_buffer_size (nc s) \<le> NOISE_PROTOCOL_PAYLOAD_SIZE"
    and "sz + 16 \<le> length m" and "send_cipher s = Some k"
    and enc: "cs_encrypt X (be16 (sz - 4) @ take (sz - 4) (drop 4 m)) (sz - 4 + 18) k
           = (NOISE_ERROR_NONE, ct, k')"
    and wr: "write_body N X (Some m) sz s = Ret (int sz, m') s'"
    and rc: "recv_contract M" "open_stream M pending" "decrypt_contract X" "recv_inv t"
      "nc_last (nc t) \<noteq> NGX_ERROR" "off + 65537 \<le> length (heap t r)"
    and pair: "recv_cipher t = Some kr"
      "cs_decrypt X ct (length ct) kr = (NOISE_ERROR_NONE, be16 (sz - 4) @ take (sz - 4) (drop 4 m), kr')"
    and wire: "sent (world s') = sent (world s) @ fr" "frame_view pending t = fr @ rest"
    and got: "recv_body M X (Some (r, off)) rsz t = Ret n t'" "0 < n"
  shows "n = int (sz - 4) \<and> frame_view pending t' = rest \<and> recv_cipher t' = Some kr' \<and>
    (\<exists>r' st. take (sz - 4) (drop (st + 2) (heap t' r')) = take (sz - 4) (drop 4 m))"
proof -
  define pt where "pt = be16 (sz - 4) @ take (sz - 4) (drop 4 m)"
  from write_body_post [OF assms(1-7,9,10) enc] wr
  have len: "length ct = sz + 14" and fr: "fr = be16 (length ct) @ ct"
    using wire(1) assms(6) by (auto simp: ac_simps)
  from recv_body_post [OF rc(1-5), of off r rsz] rc(6) got pair(1) wire(2) fr
  obtain ct' pt' k2 r' st where v: "be16 (length ct) @ ct @ rest = be16 (length ct') @ ct' @ frame_view pending t'"
    and dec: "cs_decrypt X ct' (length ct') kr = (NOISE_ERROR_NONE, pt', k2)"
    and c2: "recv_cipher t' = Some k2"
    and mem: "take (length pt') (drop st (heap t' r')) = pt'"
    and n: "2 \<le> length pt' \<longrightarrow> n = int (rd16 (pt' ! 0) (pt' ! 1))"
    and small: "length ct' < 65536"
    by (auto simp: recv_post_def)
  from v have "be16 (length ct) = be16 (length ct')" and tail: "ct @ rest = ct' @ frame_view pending t'"
    by (auto simp: append_eq_append_conv)
  then have "length ct = length ct'"
    using be16_inject [of "length ct" "length ct'"] small len assms(7,8) by simp
  with tail have ct: "ct' = ct" and rest: "frame_view pending t' = rest" by auto
  with dec pair(2) have pt: "pt' = pt" and k2: "k2 = kr'" by (simp_all add: pt_def)
  have lpt: "length pt = 2 + (sz - 4)" using assms(6,9) by (simp add: pt_def)
  have "rd16 (pt ! 0) (pt ! 1) = sz - 4"
    using rd16_word_of_nat [of "sz - 4"] assms(7,8) by (simp add: pt_def be16_def)
  with n pt lpt have "n = int (sz - 4)" by simp
  moreover have "take (sz - 4) (drop (st + 2) (heap t' r')) = drop 2 pt"
    using mem pt lpt by (metis (no_types, lifting) add.commute drop_drop drop_take add_diff_cancel_left')
  moreover have "drop 2 pt = take (sz - 4) (drop 4 m)" by (simp add: pt_def)
  ultimately show ?thesis using rest c2 k2 by metis
qed

theorem transport_delivers_payload_witness:
  "\<exists>t'. recv_body live_nginx demo_noise (Some (0, 0)) 65517
       (demo_transport 65517 (\<lambda>_. replicate 65537 0)
          (script_world [[0], [20, 0], [2, 65, 66] @ replicate 16 0])) = Ret 2 t' \<and>
     frame_view (\<lambda>w. concat (sc_in w)) t' = [] \<and> recv_cipher t' = Some 1 \<and>
     (\<exists>r' st. take 2 (drop (st + 2) (heap t' r')) = [65, 66])"
proof -
  let ?s = "demo_transport 65517 (\<lambda>_. []) (script_world [])"
  let ?t = "demo_transport 65517 (\<lambda>_. replicate 65537 0)
          (script_world [[0], [20, 0], [2, 65, 66] @ replicate 16 0])"
  let ?m = "[0, 0, 0, 0, 65, 66] @ replicate 16 0 :: byte list"
  let ?ct = "[0, 2, 65, 66] @ replicate 16 0 :: byte list"
  have b2: "be16 2 = [0, 2]" and b20: "be16 20 = [0, 20]" by (simp_all add: be16_def)
  have enc: "cs_encrypt demo_noise (be16 (6 - 4) @ take (6 - 4) (drop 4 ?m)) (6 - 4 + 18) 0
      = (NOISE_ERROR_NONE, ?ct, Suc 0)"
    by (simp add: demo_noise_def b2)
  obtain m' s' where wr: "write_body live_nginx demo_noise (Some ?m) 6 ?s = Ret (int 6, m') s'"
    "sc_out (world s') = be16 20 @ ?ct"
    by (simp add: write_body_def mem_write_def mem_read_def b2 b20 live_nginx_def script_nginx_def
        script_world_def demo_noise_def send_loop.simps script_send_def Let_def)
  have rd: "rd16 0 20 = 20" by (simp add: rd16_def)
  obtain n t' where got: "recv_body live_nginx demo_noise (Some (0, 0)) 65517 ?t = Ret n t'" "0 < n"
    by (simp add: recv_body_def recv_open_def ngx_nsoc_read_noise_msg_len_def read_len_field_def
        len_loop.simps recv_loop.simps recv_finish_def do_recv_def read_available_def
        live_nginx_def live_recv_def script_nginx_def script_recv_def script_world_def
        demo_transport_def fresh_nc_def demo_noise_conf_def mem_write_def mem_read_def
        demo_noise_def Let_def rd plain_data_size_rd16 rd16_def)
  have "frame_view (\<lambda>w. concat (sc_in w)) ?t = (be16 20 @ ?ct) @ []"
    by (simp add: frame_view_def script_world_def b20)
  moreover have "sc_out (world s') = sc_out (world ?s) @ be16 20 @ ?ct"
    using wr(2) by (simp add: script_world_def)
  moreover have "cs_decrypt demo_noise ?ct (length ?ct) 0
      = (NOISE_ERROR_NONE, be16 (6 - 4) @ take (6 - 4) (drop 4 ?m), Suc 0)"
    by (simp add: demo_noise_def b2)
  moreover have "ngx_palloc live_nginx 1 (world ?s) = (Some [0], world ?s)"
    by (simp add: live_nginx_def script_nginx_def)
  ultimately have "n = int (6 - 4) \<and> frame_view (\<lambda>w. concat (sc_in w)) t' = [] \<and> recv_cipher t' = Some (Suc 0) \<and>
    (\<exists>r' st. take (6 - 4) (drop (st + 2) (heap t' r')) = take (6 - 4) (drop 4 ?m))"
    using got
    by (intro transport_delivers_payload [OF live_send_stream demo_encrypt_contract _ _ _ _ _ _ _ _ enc
          wr(1) live_recv_contract live_open_stream demo_decrypt_contract]) simp_all
  with got(1) show ?thesis by simp
qed





text \<open>
  C27: An interrupted write cannot be resumed. When \<open>ngx_nsoc_write\<close> reports a code that is not
  positive after building a frame, it records how much is outstanding but not the buffer, and
  the next call with an acceptable size dereferences the null \<open>send_buf\<close>.
\<close>

theorem write_resume_dereferences_null:
  fixes s :: "('w, 'h, 'k) nst"
  assumes "send_stream N sent" and "encrypt_contract X"
    and "ngx_palloc N 1 (world s) = (Some a, w)"
    and "nc_to_send (nc s) = 0" and "nc_send_buf (nc s) = None"
    and "4 \<le> sz" and "sz - 4 \<le> nc_buffer_size (nc s)"
    and "sz + 16 \<le> length m" and "send_cipher s = Some k"
    and "cs_encrypt X (be16 (sz - 4) @ take (sz - 4) (drop 4 m)) (sz - 4 + 18) k
           = (NOISE_ERROR_NONE, ct, k')"
    and "write_body N X (Some m) sz s = Ret (n, m') s'" and "n \<le> 0"
    and "4 \<le> sz2" and "sz2 - 4 \<le> nc_buffer_size (nc s)"
  shows "write_body N X (Some m2) sz2 s' = Crash Null_deref"
proof -
  from write_body_post [OF assms(1-10)] assms(6,11,12)
  have "nc_to_send (nc s') \<noteq> 0" "nc_send_buf (nc s') = None"
    "nc_buffer_size (nc s') = nc_buffer_size (nc s)" by auto
  with assms(13,14) show ?thesis by (simp add: write_body_def)
qed

theorem write_resume_dereferences_null_witness:
  "write_body live_nginx demo_noise (Some ([0, 0, 0, 0, 65, 66] @ replicate 16 0)) 6
     (demo_transport 65517 (\<lambda>_. []) ((script_world [])\<lparr>sc_room := 0\<rparr>)) \<noteq> Diverge \<and>
   (\<exists>m' s'. write_body live_nginx demo_noise (Some ([0, 0, 0, 0, 65, 66] @ replicate 16 0)) 6
     (demo_transport 65517 (\<lambda>_. []) ((script_world [])\<lparr>sc_room := 0\<rparr>)) = Ret (NGX_AGAIN, m') s' \<and>
     write_body live_nginx demo_noise (Some m') 6 s' = Crash Null_deref)"
proof -
  let ?s = "demo_transport 65517 (\<lambda>_. []) ((script_world [])\<lparr>sc_room := 0\<rparr>)"
  let ?m = "[0, 0, 0, 0, 65, 66] @ replicate 16 0 :: byte list"
  have b2: "be16 2 = [0, 2]" by (simp add: be16_def)
  have enc: "cs_encrypt demo_noise (be16 (6 - 4) @ take (6 - 4) (drop 4 ?m)) (6 - 4 + 18) 0
      = (NOISE_ERROR_NONE, [0, 2, 65, 66] @ replicate 16 0, Suc 0)"
    by (simp add: demo_noise_def b2)
  obtain m' s' where wr: "write_body live_nginx demo_noise (Some ?m) 6 ?s = Ret (NGX_AGAIN, m') s'"
    by (simp add: write_body_def mem_write_def mem_read_def b2 live_nginx_def script_nginx_def
        script_world_def demo_noise_def send_loop.simps script_send_def Let_def)
  have "ngx_palloc live_nginx 1 (world ?s) = (Some [0], world ?s)"
    by (simp add: live_nginx_def script_nginx_def)
  then have "write_body live_nginx demo_noise (Some m') 6 s' = Crash Null_deref"
    by (intro write_resume_dereferences_null [OF live_send_stream demo_encrypt_contract _ _ _ _ _ _ _ enc wr])
      simp_all
  with wr show ?thesis by simp
qed

end
