(* ===== verification/Nsoc_Chain.thy ===== *)
theory Nsoc_Chain
  imports Nsoc_Transport
begin

text \<open>
  Model of \<open>ngx_nsoc_recv_chain\<close> and \<open>ngx_nsoc_send_chain\<close> of \<open>src/ngx_nsoc_handler.c\<close>. Both
  work through the connection's \<open>recv\<close> and \<open>send\<close> function pointers; what they need of those
  functions is stated as the locales \<open>recv_fn\<close> and \<open>send_fn\<close>, and both are discharged for
  the bodies of \<open>ngx_nsoc_recv\<close> and \<open>ngx_nsoc_write\<close>, which the handshake installs.
\<close>

section \<open>ngx\_nsoc\_recv\_chain\<close>

text \<open>A buffer of the chain: where it lies in the heap and the offsets of \<open>last\<close> and \<open>end\<close>.\<close>

record rchain_buf =
  rc_region :: nat
  rc_last :: nat
  rc_end :: nat

type_synonym ('w, 'h, 'k) recv_pt =
  "nat \<times> nat \<Rightarrow> nat \<Rightarrow> ('w, 'h, 'k) nst \<Rightarrow> (int, ('w, 'h, 'k) nst) run"

definition chain_size :: "int \<Rightarrow> int \<Rightarrow> nat \<Rightarrow> nat" where
  "chain_size limit bytes room =
     (if limit \<noteq> 0 \<and> bytes + int room > limit then nat (limit - bytes) else room)"

function recv_chain_loop ::
  "('w, 'h, 'k) recv_pt \<Rightarrow> rchain_buf \<Rightarrow> rchain_buf list \<Rightarrow> nat \<Rightarrow> int \<Rightarrow> int \<Rightarrow>
   ('w, 'h, 'k) nst \<Rightarrow> (int, ('w, 'h, 'k) nst) run" where
  "recv_chain_loop rcv b cl lst bytes limit s =
     (if limit \<noteq> 0 \<and> bytes \<ge> limit then Ret bytes s
      else bind_run (rcv (rc_region b, lst) (chain_size limit bytes (rc_end b - lst)) s)
        (\<lambda>n s1.
           if n > 0 then
             if n \<le> int (rc_end b - lst) then
               if lst + nat n = rc_end b then
                 (case cl of
                    [] \<Rightarrow> Ret (bytes + n) s1
                  | b' # cl' \<Rightarrow> recv_chain_loop rcv b' cl' (rc_last b') (bytes + n) limit s1)
               else recv_chain_loop rcv b cl (lst + nat n) (bytes + n) limit s1
             else Crash Out_of_bounds
           else if bytes \<noteq> 0 then
             Ret bytes (if n = 0 \<or> n = NGX_ERROR
                        then upd_cn (upd_read (\<lambda>e. e\<lparr>ev_ready := True\<rparr>)) s1 else s1)
           else Ret n s1))"
  by pat_completeness auto
termination
  by (relation "measures [\<lambda>(rcv, b, cl, lst, bytes, limit, s). length cl,
        \<lambda>(rcv, b, cl, lst, bytes, limit, s). rc_end b - lst]") auto

declare recv_chain_loop.simps [simp del]

definition ngx_nsoc_recv_chain ::
  "('w, 'h, 'k) recv_pt \<Rightarrow> rchain_buf \<Rightarrow> rchain_buf list \<Rightarrow> int \<Rightarrow> ('w, 'h, 'k) nst \<Rightarrow>
   (int, ('w, 'h, 'k) nst) run" where
  "ngx_nsoc_recv_chain rcv b cl limit s = recv_chain_loop rcv b cl (rc_last b) 0 limit s"

section \<open>ngx\_nsoc\_send\_chain\<close>

type_synonym ('w, 'h, 'k) send_pt =
  "byte list option \<Rightarrow> nat \<Rightarrow> ('w, 'h, 'k) nst \<Rightarrow> (int \<times> byte list, ('w, 'h, 'k) nst) run"

definition NGX_NSOC_BUFFERED :: "8 word" where "NGX_NSOC_BUFFERED = 1"

definition NGX_MAX_INT32_VALUE :: int where [simp]: "NGX_MAX_INT32_VALUE = 2147483647"

text \<open>\<open>ngx_buf_special\<close> of nginx: a control buffer that carries no data.\<close>

definition ngx_buf_special :: "ngx_buf \<Rightarrow> bool" where
  "ngx_buf_special b \<longleftrightarrow> (b_flush b \<or> b_last_buf b \<or> b_sync b)
     \<and> \<not> (b_temporary b \<or> b_memory b) \<and> \<not> b_in_file b"

text \<open>
  The branch without an output buffer; \<open>None\<close> stands for \<open>NGX_CHAIN_ERROR\<close>. Every round sets
  \<open>pos\<close> to \<open>start\<close> before it sends. A result that moves \<open>pos\<close> in front of \<open>start\<close> is not defined.
\<close>

fun send_chain_direct ::
  "nat \<Rightarrow> ('w, 'h, 'k) send_pt \<Rightarrow> ngx_buf list \<Rightarrow> ('w, 'h, 'k) nst \<Rightarrow>
   (ngx_buf list option, ('w, 'h, 'k) nst) run" where
  "send_chain_direct 0 snd_fn chain s = Diverge"
| "send_chain_direct (Suc fuel) snd_fn [] s = Ret (Some []) s"
| "send_chain_direct (Suc fuel) snd_fn (b # rest) s =
     (if ngx_buf_special b then send_chain_direct fuel snd_fn rest s
      else bind_run (snd_fn (Some (b_mem b)) (b_last b) s)
        (\<lambda>(n, m) s1.
           if n = NGX_ERROR then Ret None s1
           else if n = NGX_AGAIN then Ret (Some (b\<lparr>b_mem := m, b_pos := 0\<rparr> # rest)) s1
           else if n < 0 then Crash Out_of_bounds
           else if nat n = b_last b then send_chain_direct fuel snd_fn rest s1
           else send_chain_direct fuel snd_fn (b\<lparr>b_mem := m, b_pos := nat n\<rparr> # rest) s1))"

text \<open>
  The inner loop of the buffered branch: copy chain buffers into the output buffer while
  there is room and the limit is not reached. Each copied buffer counts without its two
  length fields. \<open>None\<close> is a copy that leaves a buffer.
\<close>

definition copy_size :: "ngx_buf \<Rightarrow> ngx_buf \<Rightarrow> int \<Rightarrow> int \<Rightarrow> nat" where
  "copy_size buf b sent limit =
     (let size0 = min (b_last b) (b_end buf - b_last buf)
      in if sent + int size0 > limit then nat (limit - sent) else size0)"

definition copy_into :: "ngx_buf \<Rightarrow> ngx_buf \<Rightarrow> nat \<Rightarrow> ngx_buf option" where
  "copy_into buf b k =
     (case mem_read 0 k (b_mem b) of
        None \<Rightarrow> None
      | Some bs \<Rightarrow> map_option (\<lambda>m. buf\<lparr>b_mem := m, b_last := b_last buf + k\<rparr>)
                    (mem_write (b_last buf) bs (b_mem buf)))"

lemma copy_into_SomeD:
  assumes "copy_into buf b k = Some buf1"
  shows "b_last buf1 = b_last buf + k" and "b_end buf1 = b_end buf" and "b_pos buf1 = b_pos buf"
    and "b_last buf + k \<le> b_end buf" and "b_flush buf1 = b_flush buf"
    and "b_pos buf \<le> b_last buf \<Longrightarrow>
      take (b_last buf1 - b_pos buf1) (drop (b_pos buf1) (b_mem buf1))
      = take (b_last buf - b_pos buf) (drop (b_pos buf) (b_mem buf)) @ take k (b_mem b)"
proof -
  from assms obtain m where le: "k \<le> length (b_mem b)"
    and m: "mem_write (b_last buf) (take k (b_mem b)) (b_mem buf) = Some m"
    and b1: "buf1 = buf\<lparr>b_mem := m, b_last := b_last buf + k\<rparr>"
    by (auto simp: copy_into_def mem_read_def split: if_splits)
  then show "b_last buf1 = b_last buf + k" "b_pos buf1 = b_pos buf" "b_flush buf1 = b_flush buf"
    by simp_all
  show "b_end buf1 = b_end buf" using mem_write_length [OF m] b1 by simp
  show "b_last buf + k \<le> b_end buf" using m le by (simp add: mem_write_def split: if_splits)
  show "take (b_last buf1 - b_pos buf1) (drop (b_pos buf1) (b_mem buf1))
      = take (b_last buf - b_pos buf) (drop (b_pos buf) (b_mem buf)) @ take k (b_mem b)"
    if "b_pos buf \<le> b_last buf"
    using mem_write_prefix [OF m that] le b1 by (simp add: min.absorb2)
qed

function send_fill ::
  "ngx_buf \<Rightarrow> int \<Rightarrow> bool \<Rightarrow> int \<Rightarrow> ngx_buf list \<Rightarrow> (ngx_buf \<times> int \<times> bool \<times> ngx_buf list) option" where
  "send_fill buf sent flush limit [] = Some (buf, sent, flush, [])"
| "send_fill buf sent flush limit (b # rest) =
     (if b_last buf < b_end buf \<and> sent < limit then
        (let flush1 = (flush \<or> b_last_buf b \<or> b_flush b)
         in if ngx_buf_special b then send_fill buf sent flush1 limit rest
            else (let k = copy_size buf b sent limit;
                      sent1 = sent + int k - 2 * int NGX_NSOC_LEN_FIELD_SIZE
                  in case copy_into buf b k of
                       None \<Rightarrow> None
                     | Some buf1 \<Rightarrow>
                         if k = b_last b then send_fill buf1 sent1 flush1 limit rest
                         else send_fill buf1 sent1 flush1 limit (b\<lparr>b_pos := k\<rparr> # rest)))
      else Some (buf, sent, flush, b # rest))"
  by pat_completeness auto
termination
proof (relation "measures [\<lambda>(buf, sent, flush, limit, chain). length chain,
    \<lambda>(buf, sent, flush, limit, chain). b_end buf - b_last buf]", goal_cases)
  case (4 buf sent flush limit b rest flush1 k sent1 buf1)
  then have "0 < k" by (auto simp: copy_size_def Let_def split: if_splits)
  moreover note copy_into_SomeD(1,2) [OF 4(6)]
  ultimately show ?case using 4(1) by auto
qed auto

definition buffered_on :: "bool \<Rightarrow> ngx_connection \<Rightarrow> ngx_connection" where
  "buffered_on b c =
     (if b then c\<lparr>c_buffered := c_buffered c OR NGX_NSOC_BUFFERED\<rparr>
      else c\<lparr>c_buffered := c_buffered c AND NOT NGX_NSOC_BUFFERED\<rparr>)"

definition send_finish ::
  "ngx_buf \<Rightarrow> bool \<Rightarrow> ngx_buf list \<Rightarrow> ('w, 'h, 'k) nst \<Rightarrow>
   (ngx_buf list option, ('w, 'h, 'k) nst) run" where
  "send_finish buf flush rest s =
     Ret (Some rest) (upd_cn (buffered_on (b_pos buf < b_last buf))
       (upd_nc (\<lambda>x. x\<lparr>nc_buf := Some (buf\<lparr>b_flush := flush\<rparr>)\<rparr>) s))"

text \<open>The outer loop of the buffered branch.\<close>

fun send_chain_buffered ::
  "nat \<Rightarrow> ('w, 'h, 'k) send_pt \<Rightarrow> ngx_buf \<Rightarrow> int \<Rightarrow> bool \<Rightarrow> int \<Rightarrow> ngx_buf list \<Rightarrow> ('w, 'h, 'k) nst \<Rightarrow>
   (ngx_buf list option, ('w, 'h, 'k) nst) run" where
  "send_chain_buffered 0 snd_fn buf sent flush limit chain s = Diverge"
| "send_chain_buffered (Suc fuel) snd_fn buf sent flush limit chain s =
     (case send_fill buf sent flush limit chain of
        None \<Rightarrow> Crash Out_of_bounds
      | Some (buf1, sent1, flush1, rest) \<Rightarrow>
          (let sz = b_last buf1 - b_pos buf1
           in if \<not> flush1 \<and> sent1 < limit \<and> b_last buf1 < b_end buf1
              then send_finish buf1 flush1 rest s
              else if sz = 0 then send_finish buf1 False rest s
              else bind_run (snd_fn (Some (drop (b_pos buf1) (b_mem buf1))) sz s)
                (\<lambda>(n, m) s1.
                   let buf2 = buf1\<lparr>b_mem := take (b_pos buf1) (b_mem buf1) @ m\<rparr>;
                       buf3 = buf2\<lparr>b_pos := b_pos buf2 + nat n\<rparr>;
                       buf4 = buf3\<lparr>b_pos := 0, b_last := 0\<rparr>
                   in if n = NGX_ERROR then Ret None (upd_nc (\<lambda>x. x\<lparr>nc_buf := Some buf2\<rparr>) s1)
                      else if n = NGX_AGAIN then send_finish buf2 flush1 rest s1
                      else if n < 0 then Crash Out_of_bounds
                      else if n < int sz then send_finish buf3 flush1 rest s1
                      else if rest = [] \<or> sent1 = limit then send_finish buf4 False rest s1
                      else send_chain_buffered fuel snd_fn buf4 sent1 False limit rest s1)))"

definition out_buf_size :: "('h, 'k) ngx_noise_connection \<Rightarrow> nat" where
  "out_buf_size x = nc_buffer_size x + NOISE_PROTOCOL_MAC_DATA_SIZE + 2 * NGX_NSOC_LEN_FIELD_SIZE"

text \<open>
  \<open>buf->start\<close> is null exactly when the buffer owns no memory. \<open>pagesize\<close> is \<open>ngx_pagesize\<close>.
\<close>

definition send_chain_body ::
  "nat \<Rightarrow> 'w nginx \<Rightarrow> int \<Rightarrow> ('w, 'h, 'k) send_pt \<Rightarrow> ngx_buf list \<Rightarrow> int \<Rightarrow> ('w, 'h, 'k) nst \<Rightarrow>
   (ngx_buf list option, ('w, 'h, 'k) nst) run" where
  "send_chain_body fuel N pagesize snd_fn chain limit s =
     (if \<not> nc_buffer (nc s) then send_chain_direct fuel snd_fn chain s
      else
        (let limit1 = (if limit = 0 \<or> limit > NGX_MAX_INT32_VALUE - pagesize
                       then NGX_MAX_INT32_VALUE - pagesize else limit);
             (buf, s1) =
               (case nc_buf (nc s) of
                  Some b \<Rightarrow> (Some b, s)
                | None \<Rightarrow> (let (m, w) = ngx_palloc N (out_buf_size (nc s)) (world s)
                          in case m of
                               None \<Rightarrow> (None, s\<lparr>world := w\<rparr>)
                             | Some m \<Rightarrow> (Some (temp_buf m), upd_nc (\<lambda>x. x\<lparr>nc_buf := Some (temp_buf m)\<rparr>)
                                           (s\<lparr>world := w\<rparr>))));
             (buf', s2) =
               (case buf of
                  None \<Rightarrow> (None, s1)
                | Some b \<Rightarrow>
                    if b_mem b = [] then
                      (let (m, w) = ngx_palloc N (out_buf_size (nc s1)) (world s1)
                       in (map_option (\<lambda>m. b\<lparr>b_mem := m, b_pos := 0, b_last := 0\<rparr>) m, s1\<lparr>world := w\<rparr>))
                    else (Some b, s1))
         in case buf' of
              None \<Rightarrow> Ret None s2
            | Some b \<Rightarrow>
                send_chain_buffered fuel snd_fn b (int (b_last b) - int (b_pos b))
                  (chain = [] \<or> b_flush b) limit1 chain s2))"

definition ngx_nsoc_send_chain ::
  "nat \<Rightarrow> 'w nginx \<Rightarrow> ('h, 'k) noise_c \<Rightarrow> int \<Rightarrow> ngx_buf list \<Rightarrow> int \<Rightarrow> ('w, 'h, 'k) sst \<Rightarrow>
   (ngx_buf list option, ('w, 'h, 'k) sst) run" where
  "ngx_nsoc_send_chain fuel N X pagesize chain limit =
     with_nc None (send_chain_body fuel N pagesize (write_body N X) chain limit)"

section \<open>What a receive function promises\<close>

text \<open>A receive function never reports more than it was asked for.\<close>

definition chain_room :: "rchain_buf \<Rightarrow> rchain_buf list \<Rightarrow> nat \<Rightarrow> nat" where
  "chain_room b cl lst = (rc_end b - lst) + sum_list (map (\<lambda>x. rc_end x - rc_last x) cl)"

lemma recv_chain_loop_step:
  assumes "\<not> (limit \<noteq> 0 \<and> bytes \<ge> limit)"
    and "rcv (rc_region b, lst) (chain_size limit bytes (rc_end b - lst)) s = Ret n s1"
  shows "recv_chain_loop rcv b cl lst bytes limit s =
    (if n > 0 then
       if n \<le> int (rc_end b - lst) then
         if lst + nat n = rc_end b then
           (case cl of
              [] \<Rightarrow> Ret (bytes + n) s1
            | b' # cl' \<Rightarrow> recv_chain_loop rcv b' cl' (rc_last b') (bytes + n) limit s1)
         else recv_chain_loop rcv b cl (lst + nat n) (bytes + n) limit s1
       else Crash Out_of_bounds
     else if bytes \<noteq> 0 then
       Ret bytes (if n = 0 \<or> n = NGX_ERROR
                  then upd_cn (upd_read (\<lambda>e. e\<lparr>ev_ready := True\<rparr>)) s1 else s1)
     else Ret n s1)"
  by (subst recv_chain_loop.simps) (simp only: assms bind_run.simps if_False)

locale recv_fn =
  fixes rcv :: "('w, 'h, 'k) recv_pt"
  assumes rcv_bound: "rcv p sz s = Ret n s' \<Longrightarrow> n \<le> int sz"
begin

lemma recv_chain_loop_bound:
  "recv_chain_loop rcv b cl lst bytes limit s = Ret n s' \<Longrightarrow> 0 \<le> bytes \<Longrightarrow> 0 \<le> limit \<Longrightarrow>
   (limit \<noteq> 0 \<Longrightarrow> bytes \<le> limit) \<Longrightarrow>
   n \<le> bytes + int (chain_room b cl lst) \<and> (limit \<noteq> 0 \<longrightarrow> n \<le> limit) \<and> (0 < bytes \<longrightarrow> bytes \<le> n)"
proof (induction r \<equiv> rcv b cl lst bytes limit s rule: recv_chain_loop.induct)
  case (1 b cl lst bytes limit s)
  show ?case
  proof (cases "limit \<noteq> 0 \<and> bytes \<ge> limit")
    case True
    with "1.prems" show ?thesis by (simp add: recv_chain_loop.simps)
  next
    case go: False
    let ?room = "rc_end b - lst"
    from go obtain k s1 where rc: "rcv (rc_region b, lst) (chain_size limit bytes ?room) s = Ret k s1"
      using "1.prems"(1) by (subst (asm) recv_chain_loop.simps) (auto simp: bind_run_Ret_iff)
    have k: "k \<le> int ?room" "limit \<noteq> 0 \<Longrightarrow> bytes + k \<le> limit"
      using rcv_bound [OF rc] go "1.prems"(3) by (auto simp: chain_size_def split: if_splits)
    note unf = "1.prems"(1) [unfolded recv_chain_loop_step [where rcv = rcv, OF go rc]]
    consider (stop) "k \<le> 0" | (last) "0 < k" "lst + nat k = rc_end b" "cl = []"
      | (nxt) b' cl' where "0 < k" "lst + nat k = rc_end b" "cl = b' # cl'"
      | (more) "0 < k" "lst + nat k \<noteq> rc_end b"
      by (cases cl) force+
    then show ?thesis
    proof cases
      case stop
      with unf go rc "1.prems" show ?thesis by (auto split: if_splits)
    next
      case last
      with unf go rc k show ?thesis by (auto simp: chain_room_def)
    next
      case (nxt b' cl')
      with unf go rc k have "recv_chain_loop rcv b' cl' (rc_last b') (bytes + k) limit s1 = Ret n s'"
        by simp
      from "1.hyps"(1) [OF _ rc _ _ _ _ this] nxt go k "1.prems" show ?thesis
        by (auto simp: chain_room_def)
    next
      case more
      with unf go rc k have "recv_chain_loop rcv b cl (lst + nat k) (bytes + k) limit s1 = Ret n s'"
        by (simp split: if_splits)
      moreover have "k \<le> int (rc_end b) - int lst" using more k by auto
      ultimately show ?thesis
        using "1.hyps"(2) [OF _ rc] more go k "1.prems" by (auto simp: chain_room_def)
    qed
  qed
qed

end


text \<open>Every result of a body of \<open>ngx_nsoc_recv\<close> is bounded, for every nginx and every cipher.\<close>

lemma read_len_field_le:
  "read_len_field gs sts gr sr N s = Ret n s' \<Longrightarrow> n \<le> 0"
  by (auto simp: read_len_field_def bind_run_Ret_iff Let_def split: if_splits prod.splits)

lemma recv_finish_le: "recv_finish X sz b s = Ret n s' \<Longrightarrow> n \<le> int sz"
  by (auto simp: recv_finish_def Let_def split: if_splits prod.splits option.splits)

lemma recv_loop_le: "recv_loop N X sz b s = Ret n s' \<Longrightarrow> n \<le> int sz"
proof (induction N X sz b s rule: recv_loop.induct)
  case (1 N X sz b s)
  obtain k bs s1 where rd: "do_recv N (rb_end b - rb_pos b) s = (k, bs, s1)" by (metis prod_cases3)
  note ih = "1.IH" [OF rd [symmetric] refl _ _ _ refl refl]
  from "1.prems" show ?case
    by (subst (asm) recv_loop.simps)
      (auto simp: rd Let_def dest: recv_finish_le intro: ih split: if_splits option.splits)
qed

lemma recv_body_le:
  assumes "recv_body N X buf sz s = Ret n s'"
  shows "n \<le> int sz"
proof -
  have "k \<le> 0" if "ngx_nsoc_read_noise_msg_len N t = Ret k t'" for k t t'
    using that unfolding ngx_nsoc_read_noise_msg_len_def by (rule read_len_field_le)
  moreover have "k \<le> int sz" if "recv_open N X p sz t = Ret k t'" for k p t t'
    using that recv_loop_le by (auto simp: recv_open_def Let_def split: if_splits prod.splits)
  ultimately show ?thesis
    using assms recv_loop_le
    by (fastforce simp: recv_body_def bind_run_Ret_iff split: if_splits option.splits)
qed

interpretation nsr: recv_fn "\<lambda>p. recv_body N X (Some p)" for N X
  by unfold_locales (rule recv_body_le)

section \<open>What a send function promises\<close>

text \<open>
  A send function takes all it is given or reports a code that is not positive. \<open>sends\<close> is
  the specification of the direct branch: the data buffers of a list go out whole and in
  order, the special ones are skipped.
\<close>

inductive sends ::
  "('w, 'h, 'k) send_pt \<Rightarrow> ngx_buf list \<Rightarrow> ('w, 'h, 'k) nst \<Rightarrow> ('w, 'h, 'k) nst \<Rightarrow> bool"
  for snd_fn where
  sends_nil: "sends snd_fn [] s s"
| sends_special: "ngx_buf_special b \<Longrightarrow> sends snd_fn bs s s' \<Longrightarrow> sends snd_fn (b # bs) s s'"
| sends_data: "\<not> ngx_buf_special b \<Longrightarrow>
    snd_fn (Some (b_mem b)) (b_last b) s = Ret (int (b_last b), m) s1 \<Longrightarrow>
    sends snd_fn bs s1 s' \<Longrightarrow> sends snd_fn (b # bs) s s'"

inductive_simps sends_nil_iff [simp]: "sends snd_fn [] s s'"

locale send_fn =
  fixes snd_fn :: "('w, 'h, 'k) send_pt" and inv :: "('w, 'h, 'k) nst \<Rightarrow> bool"
  assumes snd_inv: "inv s \<Longrightarrow> snd_fn d sz s = Ret (n, m) s' \<Longrightarrow> inv s'"
    and snd_whole: "snd_fn d sz s = Ret (n, m) s' \<Longrightarrow> n = int sz \<or> n \<le> 0"
    and snd_zero: "inv s \<Longrightarrow> snd_fn d sz s = Ret (0, m) s' \<Longrightarrow> 0 < sz \<Longrightarrow> snd_fn (Some d') sz s' \<noteq> Ret r u"
begin

text \<open>What is left of the chain is a suffix of it that starts with the buffer that was refused.\<close>

lemma direct_suffix:
  "send_chain_direct fuel snd_fn chain s = Ret (Some rest) s' \<Longrightarrow> inv s \<Longrightarrow>
   \<exists>pre suf s1. chain = pre @ suf \<and> sends snd_fn pre s s1 \<and>
     (suf = [] \<and> rest = [] \<and> s' = s1
      \<or> (\<exists>b bs m. suf = b # bs \<and> \<not> ngx_buf_special b \<and> rest = b\<lparr>b_mem := m, b_pos := 0\<rparr> # bs \<and>
           snd_fn (Some (b_mem b)) (b_last b) s1 = Ret (NGX_AGAIN, m) s'))"
proof (induction fuel snd_fn' \<equiv> snd_fn chain s rule: send_chain_direct.induct)
  case (3 fuel b chain s)
  show ?case
  proof (cases "ngx_buf_special b")
    case True
    with "3.hyps"(1) "3.prems" obtain pre suf s1 where
      "chain = pre @ suf" "sends snd_fn pre s s1"
      "suf = [] \<and> rest = [] \<and> s' = s1
        \<or> (\<exists>b bs m. suf = b # bs \<and> \<not> ngx_buf_special b \<and> rest = b\<lparr>b_mem := m, b_pos := 0\<rparr> # bs \<and>
             snd_fn (Some (b_mem b)) (b_last b) s1 = Ret (NGX_AGAIN, m) s')"
      by auto
    with True show ?thesis
      by (intro exI [of _ "b # pre"] exI [of _ suf] exI [of _ s1]) (auto intro: sends_special)
  next
    case data: False
    with "3.prems"(1) obtain n m t where sd: "snd_fn (Some (b_mem b)) (b_last b) s = Ret (n, m) t"
      by (auto simp: bind_run_Ret_iff)
    note inv = snd_inv [OF "3.prems"(2) sd]
    consider (all) "n = int (b_last b)" | (again) "n = NGX_AGAIN"
      | (zero) "n = 0" "0 < b_last b" | (bad) "n < 0" "n \<noteq> NGX_AGAIN"
      using snd_whole [OF sd] by force
    then show ?thesis
    proof cases
      case all
      with "3.prems"(1) data sd have "send_chain_direct fuel snd_fn chain t = Ret (Some rest) s'"
        by simp
      from "3.hyps"(2) [OF data sd refl _ _ _ _ this inv] all obtain pre suf s1 where
        "chain = pre @ suf" "sends snd_fn pre t s1"
        "suf = [] \<and> rest = [] \<and> s' = s1
          \<or> (\<exists>b bs m. suf = b # bs \<and> \<not> ngx_buf_special b \<and> rest = b\<lparr>b_mem := m, b_pos := 0\<rparr> # bs \<and>
               snd_fn (Some (b_mem b)) (b_last b) s1 = Ret (NGX_AGAIN, m) s')"
        by auto
      with data sd all show ?thesis
        by (intro exI [of _ "b # pre"] exI [of _ suf] exI [of _ s1]) (auto intro: sends_data)
    next
      case again
      with "3.prems"(1) data sd show ?thesis
        by (intro exI [of _ "[]"] exI [of _ "b # chain"] exI [of _ s]) auto
    next
      case zero
      with snd_zero [OF "3.prems"(2)] sd
      have no: "snd_fn (Some d') (b_last b) t \<noteq> Ret r u" for d' r u by blast
      have "send_chain_direct fuel snd_fn (b\<lparr>b_mem := m, b_pos := 0\<rparr> # chain) t \<noteq> Ret (Some rest) s'"
        using no data by (cases fuel) (auto simp: ngx_buf_special_def bind_run_Ret_iff)
      with "3.prems"(1) data sd zero show ?thesis by simp
    next
      case bad
      with "3.prems"(1) data sd show ?thesis by (simp split: if_splits)
    qed
  qed
qed auto

end


lemma send_loop_codes:
  "send_loop N out sz s = Ret n s' \<Longrightarrow>
   (n = int sz \<or> n \<le> 0 \<and> nc s' = nc s) \<and> nc_buffer_size (nc s') = nc_buffer_size (nc s)
   \<and> (nc_send_buf (nc s) = None \<longrightarrow> nc_send_buf (nc s') = None)"
proof (induction N out sz s rule: send_loop.induct)
  case (1 N out sz s)
  obtain k c w where sn: "ngx_send N out (cn s) (world s) = (k, c, w)" by (metis prod_cases3)
  from "1.prems" show ?case
    by (subst (asm) send_loop.simps)
      (auto simp: sn Let_def dest: "1.IH" [OF sn [symmetric] refl refl] split: if_splits)
qed

text \<open>The send buffer of a noise connection is never assigned: its null value is invariant.\<close>

lemma write_body_codes:
  assumes "write_body N X d sz s = Ret (n, m) s'"
  shows "n = int sz \<or> n \<le> 0"
    and "nc_send_buf (nc s) = None \<Longrightarrow> nc_send_buf (nc s') = None"
    and "nc_send_buf (nc s) = None \<Longrightarrow> n = 0 \<Longrightarrow> 0 < sz \<Longrightarrow>
      4 \<le> sz \<and> sz - 4 \<le> nc_buffer_size (nc s') \<and> nc_to_send (nc s') \<noteq> 0"
  using assms
  by (auto simp: write_body_def bind_run_Ret_iff Let_def not_less dest: send_loop_codes
      split: if_splits option.splits prod.splits)

interpretation nsw: send_fn "write_body N X" "\<lambda>s. nc_send_buf (nc s) = None" for N X
proof (unfold_locales, goal_cases)
  case (1 s d sz n m s')
  then show ?case by (blast dest: write_body_codes(2))
next
  case (2 d sz s n m s')
  then show ?case by (rule write_body_codes(1))
next
  case (3 s d sz m s' d' r u)
  then show ?case
    using write_body_codes(2,3) [OF 3(2)] by (auto simp: write_body_def)
qed

section \<open>Properties\<close>

text \<open>
  \<open>ngx_nsoc_recv_chain\<close> over \<open>ngx_nsoc_recv\<close> never reports more bytes than the chain has
  room for and, with a limit, never more than the limit.
\<close>

theorem recv_chain_bounded:
  assumes "ngx_nsoc_recv_chain (\<lambda>p. recv_body N X (Some p)) b cl limit s = Ret n s'" and "0 \<le> limit"
  shows "n \<le> int (chain_room b cl (rc_last b)) \<and> (limit \<noteq> 0 \<longrightarrow> n \<le> limit)"
  using nsr.recv_chain_loop_bound [OF assms(1) [unfolded ngx_nsoc_recv_chain_def]] assms(2) by simp

theorem recv_chain_bounded_witness:
  "\<exists>n s'. ngx_nsoc_recv_chain (\<lambda>p. recv_body script_nginx demo_noise (Some p))
      \<lparr>rc_region = 0, rc_last = 0, rc_end = 65537\<rparr> [] 10
      (demo_transport 65517 (\<lambda>_. replicate 65537 0) (script_world [[0, 20, 0, 2, 65, 66] @ replicate 16 0]))
      = Ret n s' \<and> n \<le> 10"
proof -
  obtain n s' where r: "ngx_nsoc_recv_chain (\<lambda>p. recv_body script_nginx demo_noise (Some p))
      \<lparr>rc_region = 0, rc_last = 0, rc_end = 65537\<rparr> [] 10
      (demo_transport 65517 (\<lambda>_. replicate 65537 0) (script_world [[0, 20, 0, 2, 65, 66] @ replicate 16 0]))
      = Ret n s'"
    by (simp add: ngx_nsoc_recv_chain_def recv_chain_loop.simps chain_size_def
        recv_body_def recv_open_def ngx_nsoc_read_noise_msg_len_def read_len_field_def
        len_loop.simps recv_loop.simps recv_finish_def do_recv_def read_available_def
        script_nginx_def script_recv_def script_world_def
        demo_transport_def fresh_nc_def demo_noise_conf_def mem_write_def mem_read_def
        demo_noise_def Let_def plain_data_size_rd16 rd16_def)
  from recv_chain_bounded [OF this] r show ?thesis by simp
qed

text \<open>
  C19: What the direct branch of \<open>ngx_nsoc_send_chain\<close> hands back is a suffix of the chain it was
  given: the data buffers in front of it were accepted whole and in order by
  \<open>ngx_nsoc_write\<close>, the control buffers were skipped, and the first buffer of the suffix is
  the one \<open>ngx_nsoc_write\<close> answered with \<open>NGX_AGAIN\<close>.
\<close>

theorem send_chain_direct_suffix:
  assumes "send_chain_direct fuel (write_body N X) chain s = Ret (Some rest) s'"
    and "nc_send_buf (nc s) = None"
  shows "\<exists>pre suf s1. chain = pre @ suf \<and> sends (write_body N X) pre s s1 \<and>
     (suf = [] \<and> rest = [] \<and> s' = s1
      \<or> (\<exists>b bs m. suf = b # bs \<and> \<not> ngx_buf_special b \<and> rest = b\<lparr>b_mem := m, b_pos := 0\<rparr> # bs \<and>
           write_body N X (Some (b_mem b)) (b_last b) s1 = Ret (NGX_AGAIN, m) s'))"
  using assms by (rule nsw.direct_suffix)

theorem send_chain_direct_suffix_witness:
  "\<exists>s1. sends (write_body script_nginx demo_noise)
     [(temp_buf ([0, 0, 0, 0, 65, 66] @ replicate 16 0))\<lparr>b_last := 6\<rparr>]
     (demo_transport 65517 (\<lambda>_. []) (script_world [])) s1"
proof -
  let ?c = "[(temp_buf ([0, 0, 0, 0, 65, 66] @ replicate 16 0))\<lparr>b_last := 6\<rparr>]"
  let ?s = "demo_transport 65517 (\<lambda>_. []) (script_world [])"
  obtain s' where r: "send_chain_direct 2 (write_body script_nginx demo_noise) ?c ?s = Ret (Some []) s'"
    by (simp add: numeral_2_eq_2 ngx_buf_special_def temp_buf_def write_body_def mem_write_def
        mem_read_def be16_def script_nginx_def script_world_def demo_noise_def send_loop.simps
        script_send_def Let_def)
  from send_chain_direct_suffix [OF this] show ?thesis by auto
qed

end
