(* ===== verification/Nsoc_Handshake.thy ===== *)
theory Nsoc_Handshake
  imports Nsoc_Transport
begin

text \<open>
  Model of the handshake of \<open>src/ngx_nsoc_handler.c\<close>: \<open>ngx_nsoc_handshake\<close>, the construction
  of the handshake messages (\<open>ngx_nsoc_handshake_start_action_write_message\<close>), their reception
  (\<open>ngx_nsoc_handshake_start_action_read_message\<close>), the phase machine
  \<open>ngx_nsoc_do_handshake_process\<close> and the event handler \<open>ngx_nsoc_handshake_handler\<close>.

  During the handshake the socket's \<open>send\<close> is still the operating system's, so \<open>c->send\<close> is
  \<open>ngx_send\<close>. \<open>nc_prologue\<close> is the value of the structure \<open>nc->prologue\<close> points to.
\<close>

section \<open>Message construction\<close>

text \<open>The library rejects a null handshake object with an error and has no action for it.\<close>

definition NOISE_ERROR_INVALID_PARAM :: int where
  "NOISE_ERROR_INVALID_PARAM = NOISE_ID 69 11"

abbreviation NOISE_ACTION_NONE :: int where "NOISE_ACTION_NONE \<equiv> 0"

abbreviation hs_obj where "hs_obj s \<equiv> NoiseHandshakeObj (nc_noise_connection (nc s))"

definition set_hs_obj :: "'h option \<Rightarrow> ('w, 'h, 'k) nst \<Rightarrow> ('w, 'h, 'k) nst" where
  "set_hs_obj h s = upd_nc (\<lambda>x. x\<lparr>nc_noise_connection :=
     (nc_noise_connection x)\<lparr>NoiseHandshakeObj := h\<rparr>\<rparr>) s"

definition get_action :: "('h, 'k) noise_c \<Rightarrow> ('w, 'h, 'k) nst \<Rightarrow> int" where
  "get_action X s = (case hs_obj s of None \<Rightarrow> NOISE_ACTION_NONE | Some h \<Rightarrow> hs_get_action X h)"

text \<open>
  For each message: the number of negotiation bytes and length fields in front of the Noise
  message, the bytes stored at the start of the buffer, and the next value of \<open>msg_num\<close>.
\<close>

definition msg_layout ::
  "nat \<Rightarrow> ('h, 'k) ngx_noise_connection \<Rightarrow> (nat \<times> byte list \<times> nat) option" where
  "msg_layout num x =
     (if num = NGX_NSOC_1MSG then
        Some (NGX_NSOC_1MSG_NEG_DATA_SIZE + 2 * NGX_NSOC_LEN_FIELD_SIZE,
              le16 (header_len (nc_prologue x)) @ first_hdr_bytes (header (nc_prologue x)),
              NGX_NSOC_2MSG_OK)
      else if num = NGX_NSOC_2MSG_OK then
        Some (NGX_NSOC_2MSG_NEG_DATA_OK_SIZE + 2 * NGX_NSOC_LEN_FIELD_SIZE,
              le16 (swapw (word_of_nat NGX_NSOC_2MSG_NEG_DATA_OK_SIZE)), NGX_NSOC_3MSG)
      else if num = NGX_NSOC_3MSG then
        Some (NGX_NSOC_3MSG_NEG_DATA_SIZE + 2 * NGX_NSOC_LEN_FIELD_SIZE,
              le16 (swapw (word_of_nat NGX_NSOC_3MSG_NEG_DATA_SIZE)), NGX_NSOC_1MSG)
      else if num = NGX_NSOC_2MSG_ERR then
        Some (NGX_NSOC_2MSG_NEG_DATA_ERR_SIZE + 2 * NGX_NSOC_LEN_FIELD_SIZE,
              le16 (swapw (word_of_nat NGX_NSOC_2MSG_NEG_DATA_ERR_SIZE))
                @ le16 NGX_NSOC_VERSION_ID @ [0xFF] @ le16 0, NGX_NSOC_1MSG)
      else if num = NGX_NSOC_2MSG_FB then
        Some (NGX_NSOC_2MSG_NEG_DATA_ERR_SIZE + 2 * NGX_NSOC_LEN_FIELD_SIZE,
              le16 (swapw (word_of_nat NGX_NSOC_2MSG_NEG_DATA_ERR_SIZE))
                @ le16 NGX_NSOC_VERSION_ID @ [0x01], NGX_NSOC_1MSG)
      else None)"

definition out_msg :: "byte list \<Rightarrow> nat \<Rightarrow> ngx_buf" where
  "out_msg m lst = (temp_buf m)\<lparr>b_temporary := False, b_memory := True, b_last_buf := True, b_last := lst\<rparr>"

text \<open>The Noise message behind the prefix, and its length in front of it.\<close>

definition write_noise_part ::
  "('h, 'k) noise_c \<Rightarrow> nat \<Rightarrow> byte list \<Rightarrow> ('w, 'h, 'k) nst \<Rightarrow>
   (int \<times> ngx_buf option, ('w, 'h, 'k) nst) run" where
  "write_noise_part X msize m s =
     (case hs_obj s of
        None \<Rightarrow> Ret (NOISE_ERROR_INVALID_PARAM, None) s
      | Some h \<Rightarrow>
          (let (err, msg, h') = hs_write_message X NOISE_PROTOCOL_MAX_HANDSHAKE_LEN h;
               s1 = set_hs_obj (Some h') s
           in if err \<noteq> NOISE_ERROR_NONE then Ret (err, None) s1
              else (case mem_write msize msg m of
                      None \<Rightarrow> Crash Out_of_bounds
                    | Some m1 \<Rightarrow>
                        (case mem_write (msize - NGX_NSOC_LEN_FIELD_SIZE) (be16 (length msg)) m1 of
                           None \<Rightarrow> Crash Out_of_bounds
                         | Some m2 \<Rightarrow> Ret (NGX_OK, Some (out_msg m2 (msize + length msg))) s1))))"

definition ngx_nsoc_handshake_start_action_write_message ::
  "'w nginx \<Rightarrow> ('h, 'k) noise_c \<Rightarrow> ('w, 'h, 'k) nst \<Rightarrow>
   (int \<times> ngx_buf option, ('w, 'h, 'k) nst) run" where
  "ngx_nsoc_handshake_start_action_write_message N X s =
     (let (a, w) = ngx_palloc N 1 (world s); s1 = s\<lparr>world := w\<rparr>; num = nc_msg_num (nc s)
      in if a = None then Ret (NGX_ERROR, None) s1
         else case msg_layout num (nc s) of
                None \<Rightarrow> Ret (NGX_ERROR, None) s1
              | Some (msize, pre, nxt) \<Rightarrow>
                  (let (m, w') = ngx_palloc N (msize + NOISE_PROTOCOL_MAX_HANDSHAKE_LEN) w;
                       s2 = upd_nc (\<lambda>x. x\<lparr>nc_msg_num := nxt\<rparr>) (s1\<lparr>world := w'\<rparr>)
                   in case m of
                        None \<Rightarrow> Crash Null_deref
                      | Some m \<Rightarrow>
                          (case mem_write 0 pre m of
                             None \<Rightarrow> Crash Out_of_bounds
                           | Some m1 \<Rightarrow>
                               if num = NGX_NSOC_2MSG_ERR then Ret (NGX_OK, Some (out_msg m1 msize)) s2
                               else write_noise_part X msize m1 s2)))"

section \<open>Message reception\<close>

text \<open>
  The loop that reads the negotiation part. \<open>msize\<close> is the local \<open>size\<close>; the result is
  \<open>Inr n\<close> when the loop was left by \<open>break\<close> and \<open>Inl n\<close> when the function returned from it.
\<close>

fun read_neg_loop ::
  "nat \<Rightarrow> 'w nginx \<Rightarrow> int \<Rightarrow> ('w, 'h, 'k) nst \<Rightarrow> (int + int, ('w, 'h, 'k) nst) run" where
  "read_neg_loop 0 N msize s = Diverge"
| "read_neg_loop (Suc fuel) N msize s =
     (let again = (\<lambda>sz s. bind_run (ngx_nsoc_read_negotiation (Suc fuel) N sz s)
                     (\<lambda>n s1. if n < 0 then Ret (Inr n) s1 else read_neg_loop fuel N sz s1));
          num = nc_msg_num (nc s);
          leave = (\<lambda>k. Ret (Inr NGX_OK) (upd_nc (\<lambda>x. x\<lparr>nc_msg_num := k\<rparr>) s))
      in if num = NGX_NSOC_1MSG then leave NGX_NSOC_2MSG_OK
         else if num = NGX_NSOC_2MSG_OK then
           if msize = NGX_NSOC_SIZE_UNSET then again (int NGX_NSOC_2MSG_NEG_DATA_OK_SIZE) s
           else if nc_neg_data_recv_size (nc s) = int NGX_NSOC_2MSG_NEG_DATA_OK_SIZE
           then leave NGX_NSOC_3MSG
           else (case nc_buf (nc s) of
                   None \<Rightarrow> Crash Null_deref
                 | Some b \<Rightarrow>
                     (case mem_read (b_pos b + 2) 1 (b_mem b) of
                        None \<Rightarrow> Crash Out_of_bounds
                      | Some st \<Rightarrow>
                          if st = [0xFF] \<or> st = [1] then Ret (Inl NGX_ERROR) s else again msize s))
         else if num = NGX_NSOC_3MSG then
           if msize = NGX_NSOC_SIZE_UNSET then again (int NGX_NSOC_3MSG_NEG_DATA_SIZE) s
           else leave NGX_NSOC_1MSG
         else Ret (Inl NGX_ERROR) s)"

definition free_buf :: "('w, 'h, 'k) nst \<Rightarrow> ('w, 'h, 'k) nst" where
  "free_buf s = upd_nc (\<lambda>x. x\<lparr>nc_buf := None\<rparr>) s"

text \<open>The Noise message goes to the library; afterwards the reader's fields are reset.\<close>

definition read_noise_part ::
  "('h, 'k) noise_c \<Rightarrow> ('w, 'h, 'k) nst \<Rightarrow> (int, ('w, 'h, 'k) nst) run" where
  "read_noise_part X s =
     (case nc_buf (nc s) of
        None \<Rightarrow> Crash Null_deref
      | Some b \<Rightarrow>
          (case mem_read 0 (nat (nc_noise_msg_recv_size (nc s))) (b_mem b) of
             None \<Rightarrow> Crash Out_of_bounds
           | Some msg \<Rightarrow>
               (let (err, h') = (case hs_obj s of
                                   None \<Rightarrow> (NOISE_ERROR_INVALID_PARAM, None)
                                 | Some h \<Rightarrow> (let (err, h') = hs_read_message X msg h in (err, Some h')));
                    s1 = set_hs_obj h' s
                in if err \<noteq> NOISE_ERROR_NONE then Ret NGX_ERROR s1
                   else Ret NGX_OK
                     (upd_nc (\<lambda>x. x\<lparr>nc_buf := None, nc_last := 0,
                         nc_noise_msg_recv_size := NGX_NSOC_SIZE_UNSET,
                         nc_noise_msg_size_reading := False,
                         nc_neg_data_recv_size := NGX_NSOC_SIZE_UNSET,
                         nc_neg_data_size_reading := False\<rparr>) s1))))"

definition ngx_nsoc_handshake_start_action_read_message ::
  "nat \<Rightarrow> 'w nginx \<Rightarrow> ('h, 'k) noise_c \<Rightarrow> ('w, 'h, 'k) nst \<Rightarrow> (int, ('w, 'h, 'k) nst) run" where
  "ngx_nsoc_handshake_start_action_read_message fuel N X s =
     bind_run (read_neg_loop fuel N NGX_NSOC_SIZE_UNSET s)
       (\<lambda>r s1. case r of
          Inl n \<Rightarrow> Ret n s1
        | Inr n \<Rightarrow>
            if n < 0 then Ret n (free_buf s1)
            else bind_run (ngx_nsoc_read_noise_msg fuel N (free_buf s1))
              (\<lambda>n s2. if n < 0 then Ret n s2 else read_noise_part X s2))"

section \<open>The phase machine\<close>

text \<open>
  Sending a handshake message: \<open>Inl\<close> is the return of the function, \<open>Inr ()\<close> that the message
  is out. A short count or an error is treated as \<open>NGX_AGAIN\<close>, and the buffer's \<open>pos\<close> is not moved.
\<close>

definition send_handshake_msg ::
  "'w nginx \<Rightarrow> ngx_buf \<Rightarrow> ('w, 'h, 'k) nst \<Rightarrow> (int + unit, ('w, 'h, 'k) nst) run" where
  "send_handshake_msg N b s =
     (let msize = b_last b - b_pos b;
          (n, c, w) = ngx_send N (take msize (drop (b_pos b) (b_mem b))) (cn s) (world s);
          s1 = upd_cn set_handshake_handlers (s\<lparr>cn := c, world := w\<rparr>)
      in if n = NGX_AGAIN \<or> n < int msize then
           (let (rc, c1, w1) = ngx_handle_write_event N
                  (upd_write (\<lambda>e. e\<lparr>ev_ready := False\<rparr>) (cn s1)) (world s1);
                s2 = s1\<lparr>cn := c1, world := w1\<rparr>
            in if rc \<noteq> NGX_OK then Ret (Inl NGX_ERROR) s2
               else
                 (let s3 = (if \<not> ev_timer_set (c_write (cn s2))
                            then upd_cn (upd_write (\<lambda>e. ngx_add_timer N e (nc_handshake_timeout (nc s2)))) s2
                            else s2);
                      s4 = (if ev_timer_set (c_read (cn s3))
                            then upd_cn (upd_read (ngx_del_timer N)) s3 else s3)
                  in Ret (Inl NGX_AGAIN)
                       (upd_nc (\<lambda>x. x\<lparr>nc_buf := Some b, nc_last := NOISE_ACTION_WRITE_MESSAGE\<rparr>) s4)))
         else Ret (Inr ()) (free_buf (upd_cn (upd_read (\<lambda>e. e\<lparr>ev_ready := False\<rparr>)) s1)))"

definition no_keys :: noise_ctx where
  "no_keys = \<lparr>private_keys = None, public_keys = None\<rparr>"

text \<open>
  From a decided header to the first action. A null key context is dereferenced only where a
  key is taken from it. The result of \<open>noise_handshakestate_start\<close> is compared with
  \<open>NGX_ERROR\<close>.
\<close>

definition start_handshake ::
  "('h, 'k) noise_c \<Rightarrow> ('w, 'h, 'k) nst \<Rightarrow> (int + unit, ('w, 'h, 'k) nst) run" where
  "start_handshake X s =
     (case ngx_noise_protocol_init_handshake X
             (case nc_noise_ctx (nc s) of None \<Rightarrow> no_keys | Some ctx \<Rightarrow> ctx)
             (nc_prologue (nc s)) (nc_noise_role (nc s)) (nc_noise_connection (nc s)) of
        Crash e \<Rightarrow> Crash e
      | Diverge \<Rightarrow> Diverge
      | Ret rc npc \<Rightarrow>
          (let s1 = free_buf (upd_nc (\<lambda>x. x\<lparr>nc_noise_connection := npc\<rparr>) s)
           in if rc = NGX_ERROR then Ret (Inl NGX_ERROR) s1
              else
                (let (n, h) = (case hs_obj s1 of
                                 None \<Rightarrow> (NOISE_ERROR_INVALID_PARAM, None)
                               | Some h \<Rightarrow> (let (n, h') = hs_start X h in (n, Some h')));
                     s2 = set_hs_obj h s1
                 in if n = NGX_ERROR then Ret (Inl n) s2
                    else Ret (Inr ()) (upd_nc (\<lambda>x. x\<lparr>nc_handshake_phase :=
                           NGX_NSOC_HANDSHAKE_PROCESS_PHASE, nc_last := 0\<rparr>) s2))))"

text \<open>A first message of another version is answered with the error message.\<close>

definition reject_version ::
  "'w nginx \<Rightarrow> ('h, 'k) noise_c \<Rightarrow> ('w, 'h, 'k) nst \<Rightarrow> (int, ('w, 'h, 'k) nst) run" where
  "reject_version N X s =
     bind_run (ngx_nsoc_handshake_start_action_write_message N X
                (upd_nc (\<lambda>x. x\<lparr>nc_msg_num := NGX_NSOC_2MSG_ERR\<rparr>) s))
       (\<lambda>(n, b) s1.
          if n \<noteq> NGX_OK then Ret n s1
          else case b of
                 None \<Rightarrow> Crash Uninitialised
               | Some b \<Rightarrow>
                   bind_run (send_handshake_msg N b s1)
                     (\<lambda>r s2. Ret (case r of Inl n \<Rightarrow> n | Inr _ \<Rightarrow> NGX_ERROR) s2))"

definition none_phase ::
  "nat \<Rightarrow> 'w nginx \<Rightarrow> ('h, 'k) noise_c \<Rightarrow> ('w, 'h, 'k) nst \<Rightarrow> (int + unit, ('w, 'h, 'k) nst) run" where
  "none_phase fuel N X s =
     (if nc_noise_role (nc s) \<noteq> NGX_NSOC_SERVER_ROLE then start_handshake X s
      else bind_run (ngx_nsoc_read_negotiation fuel N (int NGX_NSOC_1MSG_NEG_DATA_SIZE) s)
        (\<lambda>n s1.
           if n \<le> 0 then Ret (Inl n) s1
           else case nc_buf (nc s1) of
                  None \<Rightarrow> Crash Null_deref
                | Some rb \<Rightarrow>
                    (case first_hdr_of_bytes (b_mem rb) of
                       None \<Rightarrow> Crash Out_of_bounds
                     | Some h \<Rightarrow>
                         if version_id h \<noteq> NGX_NSOC_VERSION_ID
                         then bind_run (reject_version N X s1) (\<lambda>n s2. Ret (Inl n) s2)
                         else start_handshake X
                                (upd_nc (\<lambda>x. x\<lparr>nc_prologue := (nc_prologue x)\<lparr>header := h\<rparr>\<rparr>) s1))))"

definition process_split ::
  "('h, 'k) noise_c \<Rightarrow> ('w, 'h, 'k) nst \<Rightarrow> (int, ('w, 'h, 'k) nst) run" where
  "process_split X s =
     (case hs_obj s of
        None \<Rightarrow> Ret NGX_ERROR s
      | Some h \<Rightarrow>
          (let (err, snd_c, rcv_c, h') = hs_split X h;
               s1 = upd_nc (\<lambda>x. x\<lparr>nc_noise_connection := (nc_noise_connection x)
                      \<lparr>NoiseHandshakeObj := Some h', NoiseSendCipherObj := snd_c,
                       NoiseRecvCipherObj := rcv_c\<rparr>\<rparr>) s
           in if err \<noteq> NOISE_ERROR_NONE then Ret NGX_ERROR s1
              else (let s2 = set_hs_obj None s1
                    in if hs_free X h' \<noteq> NOISE_ERROR_NONE then Ret NGX_ERROR s2
                       else Ret NGX_OK
                         (upd_cn (\<lambda>c. c\<lparr>c_sent := 0, c_recv := Io_nsoc, c_send := Io_nsoc,
                                        c_recv_chain := Io_nsoc, c_send_chain := Io_nsoc\<rparr>)
                           (upd_nc (\<lambda>x. x\<lparr>nc_handshake_phase := NGX_NSOC_HANDSHAKE_END_PHASE,
                              nc_buf := None, nc_handshaked := True\<rparr>) s2)))))"

text \<open>After a message went out: wait for the answer, or go on at once (\<open>Inr ()\<close>).\<close>

definition after_write ::
  "'w nginx \<Rightarrow> ('h, 'k) noise_c \<Rightarrow> ('w, 'h, 'k) nst \<Rightarrow> (int + unit, ('w, 'h, 'k) nst) run" where
  "after_write N X s =
     (if get_action X s = NOISE_ACTION_READ_MESSAGE then
        (let (rc, c, w) = ngx_handle_read_event N
               (upd_read (\<lambda>e. e\<lparr>ev_ready := False\<rparr>) (cn s)) (world s);
             s1 = s\<lparr>cn := c, world := w\<rparr>
         in if rc \<noteq> NGX_OK then Ret (Inl NGX_ERROR) s1
            else
              (let s2 = (if \<not> ev_timer_set (c_read (cn s1))
                         then upd_cn (upd_read (\<lambda>e. ngx_add_timer N e (nc_handshake_timeout (nc s1)))) s1
                         else s1);
                   s3 = (if ev_timer_set (c_write (cn s2))
                         then upd_cn (upd_write (ngx_del_timer N)) s2 else s2)
               in Ret (Inl NGX_AGAIN) s3))
      else Ret (Inr ()) (if ev_timer_set (c_read (cn s))
                         then upd_cn (upd_read (ngx_del_timer N)) s else s))"

definition write_action ::
  "'w nginx \<Rightarrow> ('h, 'k) noise_c \<Rightarrow> ('w, 'h, 'k) nst \<Rightarrow> (int + unit, ('w, 'h, 'k) nst) run" where
  "write_action N X s =
     bind_run (if nc_last (nc s) = 0
               then ngx_nsoc_handshake_start_action_write_message N X s
               else Ret (NGX_OK, nc_buf (nc s)) s)
       (\<lambda>(n, b) s1.
          if n \<noteq> NGX_OK then Ret (Inl n) s1
          else case b of
                 None \<Rightarrow> Crash Null_deref
               | Some b \<Rightarrow>
                   bind_run (send_handshake_msg N b (upd_nc (\<lambda>x. x\<lparr>nc_last := 0\<rparr>) s1))
                     (\<lambda>r s2. case r of Inl n \<Rightarrow> Ret (Inl n) s2 | Inr _ \<Rightarrow> after_write N X s2))"

text \<open>One pass through the \<open>switch\<close>: \<open>Inl\<close> a return, \<open>Inr ()\<close> a \<open>continue\<close>.\<close>

definition process_phase ::
  "nat \<Rightarrow> 'w nginx \<Rightarrow> ('h, 'k) noise_c \<Rightarrow> ('w, 'h, 'k) nst \<Rightarrow> (int + unit, ('w, 'h, 'k) nst) run" where
  "process_phase fuel N X s =
     (let action = (if nc_last (nc s) \<noteq> 0 then nc_last (nc s) else get_action X s)
      in if action = NOISE_ACTION_WRITE_MESSAGE then write_action N X s
         else if action = NOISE_ACTION_READ_MESSAGE then
           bind_run (ngx_nsoc_handshake_start_action_read_message fuel N X
                      (upd_nc (\<lambda>x. x\<lparr>nc_last := 0\<rparr>) s))
             (\<lambda>n s1. Ret (if n \<noteq> NGX_OK then Inl n else Inr ()) s1)
         else if action = NOISE_ACTION_SPLIT then
           bind_run (process_split X s) (\<lambda>n s1. Ret (Inl n) s1)
         else Ret (Inl NGX_ERROR) s)"

fun ngx_nsoc_do_handshake_process ::
  "nat \<Rightarrow> 'w nginx \<Rightarrow> ('h, 'k) noise_c \<Rightarrow> ('w, 'h, 'k) nst \<Rightarrow> (int, ('w, 'h, 'k) nst) run" where
  "ngx_nsoc_do_handshake_process 0 N X s = Diverge"
| "ngx_nsoc_do_handshake_process (Suc fuel) N X s =
     bind_run
       (case nc_handshake_phase (nc s) of
          NGX_NSOC_HANDSHAKE_NONE_PHASE \<Rightarrow>
            bind_run (none_phase (Suc fuel) N X s)
              (\<lambda>r s1. case r of Inl n \<Rightarrow> Ret (Inl n) s1 | Inr _ \<Rightarrow> process_phase (Suc fuel) N X s1)
        | NGX_NSOC_HANDSHAKE_PROCESS_PHASE \<Rightarrow> process_phase (Suc fuel) N X s
        | NGX_NSOC_HANDSHAKE_END_PHASE \<Rightarrow> Ret (Inr ()) s)
       (\<lambda>r s1. case r of Inl n \<Rightarrow> Ret n s1 | Inr _ \<Rightarrow> ngx_nsoc_do_handshake_process fuel N X s1)"

definition ngx_nsoc_handshake ::
  "nat \<Rightarrow> 'w nginx \<Rightarrow> ('h, 'k) noise_c \<Rightarrow> ('w, 'h, 'k) sst \<Rightarrow> (int, ('w, 'h, 'k) sst) run" where
  "ngx_nsoc_handshake fuel N X = with_nc NGX_ERROR (ngx_nsoc_do_handshake_process fuel N X)"

text \<open>The event handler; its result is the connection handler it calls, if any.\<close>

definition ngx_nsoc_handshake_handler ::
  "nat \<Rightarrow> 'w nginx \<Rightarrow> ('h, 'k) noise_c \<Rightarrow> bool \<Rightarrow> ('w, 'h, 'k) sst \<Rightarrow>
   (conn_handler option, ('w, 'h, 'k) sst) run" where
  "ngx_nsoc_handshake_handler fuel N X timedout t =
     (let handler = (\<lambda>t. case nc_side (ss t) (c_id (sock t)) of
                           None \<Rightarrow> None
                         | Some sd \<Rightarrow> map_option nc_handler (side_nc sd (ss t)))
      in case nc_side (ss t) (c_id (sock t)) of
           None \<Rightarrow> Ret None t
         | Some _ \<Rightarrow>
             if timedout then Ret (handler t) t
             else bind_run (ngx_nsoc_handshake fuel N X t)
                    (\<lambda>n t1. if n = NGX_AGAIN then Ret None t1 else Ret (handler t1) t1))"

definition ngx_nsoc_shutdown :: "ngx_connection \<Rightarrow> int" where
  "ngx_nsoc_shutdown c = NGX_OK"



section \<open>Outcomes of the phase machine\<close>

text \<open>
  \<open>secured\<close>: the handshake object is gone, the cipher objects are those of a successful split,
  and the connection's I/O functions are the encrypting ones.
\<close>

definition secured :: "('h, 'k) noise_c \<Rightarrow> ('w, 'h, 'k) nst \<Rightarrow> bool" where
  "secured X s \<longleftrightarrow> nc_handshaked (nc s) \<and> nc_handshake_phase (nc s) = NGX_NSOC_HANDSHAKE_END_PHASE \<and>
     hs_obj s = None \<and> nc_buf (nc s) = None \<and>
     (\<exists>h h'. hs_split X h = (NOISE_ERROR_NONE, send_cipher s, recv_cipher s, h')) \<and>
     c_recv (cn s) = Io_nsoc \<and> c_send (cn s) = Io_nsoc \<and>
     c_recv_chain (cn s) = Io_nsoc \<and> c_send_chain (cn s) = Io_nsoc"

abbreviation obs where "obs s \<equiv> hs_outcome (nc s)"

text \<open>A step of the machine: it goes on, it returns success and is secured, or it returns another code.\<close>

fun step_ok :: "('h, 'k) noise_c \<Rightarrow> bool \<times> ngx_noise_handshake_phase \<times> ngx_noise_role \<Rightarrow>
    (int + unit, ('w, 'h, 'k) nst) run \<Rightarrow> bool" where
  "step_ok X v (Ret (Inr _) s) \<longleftrightarrow> obs s = v"
| "step_ok X v (Ret (Inl n) s) \<longleftrightarrow> (if n = NGX_OK then secured X s else fst (obs s) = fst v)"
| "step_ok X v _ \<longleftrightarrow> True"

lemma step_okI: "keeps obs v r \<Longrightarrow> yields (\<lambda>x. x \<noteq> Inl NGX_OK) r \<Longrightarrow> step_ok X v r"
  by (cases "(X, v, r)" rule: step_ok.cases) auto

lemma step_ok_bind:
  assumes "keeps obs v r" and "\<And>a t. r = Ret a t \<Longrightarrow> obs t = v \<Longrightarrow> step_ok X v (g a t)"
  shows "step_ok X v (bind_run r g)"
  using assms by (cases r) simp_all

lemma free_buf_simps [simp]:
  "obs (free_buf s) = obs s" "cn (free_buf s) = cn s" "world (free_buf s) = world s"
  by (simp_all add: free_buf_def hs_outcome_def)

lemma set_hs_obj_simps [simp]:
  "obs (set_hs_obj h s) = obs s" "cn (set_hs_obj h s) = cn s" "world (set_hs_obj h s) = world s"
  by (simp_all add: set_hs_obj_def hs_outcome_def)

lemma hs_outcome_simps [simp]:
  "hs_outcome (x\<lparr>nc_buf := b\<rparr>) = hs_outcome x" "hs_outcome (x\<lparr>nc_last := l\<rparr>) = hs_outcome x"
  "hs_outcome (x\<lparr>nc_msg_num := k\<rparr>) = hs_outcome x"
  "hs_outcome (x\<lparr>nc_prologue := p\<rparr>) = hs_outcome x"
  "hs_outcome (x\<lparr>nc_noise_connection := npc\<rparr>) = hs_outcome x"
  "hs_outcome (set_neg_size v x) = hs_outcome x" "hs_outcome (set_neg_reading r x) = hs_outcome x"
  "hs_outcome (set_msg_size v x) = hs_outcome x" "hs_outcome (set_msg_reading r x) = hs_outcome x"
  by (simp_all add: hs_outcome_def)

lemma write_noise_part_keeps: "obs s = v \<Longrightarrow> keeps obs v (write_noise_part X k m s)"
  by (auto simp: write_noise_part_def Let_def split: option.split prod.split)

lemma write_message_keeps:
  "obs s = v \<Longrightarrow> keeps obs v (ngx_nsoc_handshake_start_action_write_message N X s)"
  by (auto simp: ngx_nsoc_handshake_start_action_write_message_def Let_def
      intro!: write_noise_part_keeps split: option.split prod.split)

lemma read_neg_loop_keeps: "obs s = v \<Longrightarrow> keeps obs v (read_neg_loop fuel N k s)"
proof (induction fuel arbitrary: k s)
  case (Suc fuel)
  have ag: "keeps obs v (bind_run (ngx_nsoc_read_negotiation (Suc fuel) N sz s)
      (\<lambda>n s1. if n < 0 then Ret (Inr n) s1 else read_neg_loop fuel N sz s1))" for sz
    using Suc by (intro keeps_bind outcome.read_negotiation_keeps) auto
  show ?case
    using Suc.prems ag [of "int NGX_NSOC_2MSG_NEG_DATA_OK_SIZE"]
      ag [of "int NGX_NSOC_3MSG_NEG_DATA_SIZE"] ag [of k]
    by (simp add: Let_def del: ngx_nsoc_read_negotiation.simps split: option.split)
qed simp

lemma read_noise_part_keeps: "obs s = v \<Longrightarrow> keeps obs v (read_noise_part X s)"
  by (auto simp: read_noise_part_def Let_def split: option.split prod.split)

lemma read_message_keeps:
  "obs s = v \<Longrightarrow> keeps obs v (ngx_nsoc_handshake_start_action_read_message fuel N X s)"
  unfolding ngx_nsoc_handshake_start_action_read_message_def
  by (rule keeps_bind [OF read_neg_loop_keeps])
    (auto intro!: keeps_bind outcome.read_noise_msg_keeps read_noise_part_keeps split: sum.split)


lemma send_handshake_msg_keeps: "obs s = v \<Longrightarrow> keeps obs v (send_handshake_msg N b s)"
  by (auto simp: send_handshake_msg_def Let_def split: prod.split)

lemma send_handshake_msg_codes: "yields (\<lambda>x. x \<noteq> Inl NGX_OK) (send_handshake_msg N b s)"
  by (auto simp: send_handshake_msg_def Let_def split: prod.split)

lemma send_handshake_msg_not_ok [simp]: "send_handshake_msg N b s \<noteq> Ret (Inl NGX_OK) t"
  using yieldsD [OF send_handshake_msg_codes] by blast

lemma after_write_ok: "obs s = v \<Longrightarrow> step_ok X' v (after_write N X s)"
  by (rule step_okI) (auto simp: after_write_def Let_def split: prod.split)

lemma sent_then_ok:
  assumes "obs s = v" and "\<And>t. obs t = v \<Longrightarrow> step_ok X v (g t)"
  shows "step_ok X v (bind_run (send_handshake_msg N b s)
           (\<lambda>r t. case r of Inl n \<Rightarrow> Ret (Inl n) t | Inr _ \<Rightarrow> g t))"
proof (rule step_ok_bind [OF send_handshake_msg_keeps [OF assms(1)]])
  fix a t
  assume r: "send_handshake_msg N b s = Ret a t" and t: "obs t = v"
  from yieldsD [OF send_handshake_msg_codes r] t assms(2) show
    "step_ok X v (case a of Inl n \<Rightarrow> Ret (Inl n) t | Inr _ \<Rightarrow> g t)"
    by (cases a) auto
qed

lemma write_action_ok: "obs s = v \<Longrightarrow> step_ok X v (write_action N X s)"
  unfolding write_action_def
  by (rule step_ok_bind)
    (auto intro!: write_message_keeps sent_then_ok after_write_ok
      split: option.split prod.split)

lemma process_split_ok:
  "obs s = v \<Longrightarrow> step_ok X v (bind_run (process_split X s) (\<lambda>n s1. Ret (Inl n) s1))"
  by (auto simp: process_split_def secured_def set_hs_obj_def hs_outcome_def Let_def
      split: option.split prod.split)

lemma process_phase_ok: "obs s = v \<Longrightarrow> step_ok X v (process_phase fuel N X s)"
  unfolding process_phase_def Let_def
  by (auto intro!: write_action_ok process_split_ok step_ok_bind [OF read_message_keeps])


lemma start_handshake_ok:
  "obs s = (f, p, r) \<Longrightarrow>
   step_ok X (f, NGX_NSOC_HANDSHAKE_PROCESS_PHASE, r) (start_handshake X s)"
  by (auto simp: start_handshake_def hs_outcome_def free_buf_def set_hs_obj_def Let_def
      split: run.split option.split prod.split)

lemma reject_version_keeps: "obs s = v \<Longrightarrow> keeps obs v (reject_version N X s)"
  unfolding reject_version_def
  by (rule keeps_bind [OF write_message_keeps])
    (auto intro!: keeps_bind send_handshake_msg_keeps split: option.split)

lemma reject_version_codes: "yields (\<lambda>n. n \<noteq> NGX_OK) (reject_version N X s)"
  unfolding reject_version_def
  by (auto intro!: yields_bind split: option.split sum.split)

lemma none_phase_ok:
  assumes "obs s = (f, p, r)" and "neg_ok (nc s)"
  shows "step_ok X (f, NGX_NSOC_HANDSHAKE_PROCESS_PHASE, r) (none_phase fuel N X s)"
proof (cases "nc_noise_role (nc s) = NGX_NSOC_SERVER_ROLE")
  case True
  show ?thesis
  proof (cases "ngx_nsoc_read_negotiation fuel N (int NGX_NSOC_1MSG_NEG_DATA_SIZE) s")
    case (Ret n s1)
    have n: "n \<noteq> 0" using yieldsD [OF read_negotiation_nonzero [OF assms(2)] Ret] by simp
    have o: "obs s1 = (f, p, r)" using keepsD [OF outcome.read_negotiation_keeps [OF assms(1)] Ret] .
    have e: "step_ok X (f, NGX_NSOC_HANDSHAKE_PROCESS_PHASE, r)
        (bind_run (reject_version N X s1) (\<lambda>n s2. Ret (Inl n) s2))"
      using keepsD [OF reject_version_keeps [OF o]] yieldsD [OF reject_version_codes]
      by (cases "reject_version N X s1") fastforce+
    show ?thesis
      using n o e
      by (auto simp: none_phase_def True Ret [simplified] intro!: start_handshake_ok split: option.split)
  qed (simp_all add: none_phase_def True)
next
  case False
  with start_handshake_ok [OF assms(1)] show ?thesis by (simp add: none_phase_def)
qed

lemma handshake_step_ok:
  assumes "step_ok X v r" and "\<And>t. obs t = v \<Longrightarrow> step_ok X v (g t)"
  shows "step_ok X v (bind_run r (\<lambda>x s1. case x of Inl n \<Rightarrow> Ret (Inl n) s1 | Inr _ \<Rightarrow> g s1))"
  using assms by (cases "(X, v, r)" rule: step_ok.cases) auto

lemma process_outcome:
  "ngx_nsoc_do_handshake_process fuel N X s = Ret n s' \<Longrightarrow>
   (nc_handshake_phase (nc s) = NGX_NSOC_HANDSHAKE_NONE_PHASE \<Longrightarrow> neg_ok (nc s)) \<Longrightarrow>
   if n = NGX_OK then secured X s' else nc_handshaked (nc s') = nc_handshaked (nc s)"
proof (induction fuel arbitrary: s)
  case (Suc fuel)
  define r where "r = (case nc_handshake_phase (nc s) of
          NGX_NSOC_HANDSHAKE_NONE_PHASE \<Rightarrow>
            bind_run (none_phase (Suc fuel) N X s)
              (\<lambda>r s1. case r of Inl n \<Rightarrow> Ret (Inl n) s1 | Inr _ \<Rightarrow> process_phase (Suc fuel) N X s1)
        | NGX_NSOC_HANDSHAKE_PROCESS_PHASE \<Rightarrow> process_phase (Suc fuel) N X s
        | NGX_NSOC_HANDSHAKE_END_PHASE \<Rightarrow> Ret (Inr ()) s)"
  define ph where "ph = (if nc_handshake_phase (nc s) = NGX_NSOC_HANDSHAKE_END_PHASE
     then NGX_NSOC_HANDSHAKE_END_PHASE else NGX_NSOC_HANDSHAKE_PROCESS_PHASE)"
  define v where "v = (nc_handshaked (nc s), ph, nc_noise_role (nc s))"
  have "step_ok X v r"
  proof (cases "nc_handshake_phase (nc s)")
    case NGX_NSOC_HANDSHAKE_NONE_PHASE
    with Suc.prems(2) show ?thesis
      by (auto simp: r_def v_def ph_def hs_outcome_def intro!: handshake_step_ok none_phase_ok process_phase_ok)
  qed (auto simp: r_def v_def ph_def hs_outcome_def intro!: process_phase_ok)
  moreover have "bind_run r (\<lambda>r s1. case r of Inl n \<Rightarrow> Ret n s1
      | Inr _ \<Rightarrow> ngx_nsoc_do_handshake_process fuel N X s1) = Ret n s'"
    using Suc.prems(1) by (simp add: r_def)
  ultimately show ?case
  proof (cases "(X, v, r)" rule: step_ok.cases)
    case (1 X' v' u t)
    then have t: "nc_handshaked (nc t) = nc_handshaked (nc s)" "nc_handshake_phase (nc t) = ph"
      using \<open>step_ok X v r\<close> by (auto simp: v_def hs_outcome_def)
    with Suc.IH [of t] 1 \<open>bind_run r _ = Ret n s'\<close> show ?thesis
      by (simp add: ph_def split: if_splits)
  qed (auto simp: v_def hs_outcome_def)
qed simp


section \<open>The messages on the wire\<close>

text \<open>What the library promises of a handshake message: it fits into the room it was given.\<close>

definition hs_write_contract :: "('h, 'k) noise_c \<Rightarrow> bool" where
  "hs_write_contract X \<longleftrightarrow> (\<forall>cap h msg h'. hs_write_message X cap h = (NOISE_ERROR_NONE, msg, h') \<longrightarrow>
     length msg \<le> cap)"

definition alloc_total :: "'w nginx \<Rightarrow> bool" where
  "alloc_total N \<longleftrightarrow> (\<forall>n w. \<exists>m w'. ngx_palloc N n w = (Some m, w') \<and> length m = n)"

text \<open>
  The protocol's negotiation part: a big-endian length and the negotiation data. The first
  message carries the header, the answer and the third message carry nothing, the refusals
  carry the version and a status byte.
\<close>

definition negotiation_part :: "nat \<Rightarrow> noise_handshake_first_hdr \<Rightarrow> byte list" where
  "negotiation_part num h =
     (if num = NGX_NSOC_1MSG then be16 6 @ first_hdr_bytes h
      else if num = NGX_NSOC_2MSG_OK \<or> num = NGX_NSOC_3MSG then be16 0
      else if num = NGX_NSOC_2MSG_ERR then be16 3 @ be16 1 @ [0xFF]
      else be16 3 @ be16 1 @ [0x01])"

lemma version_bytes: "le16 NGX_NSOC_VERSION_ID = be16 1"
  using le16_swapw [of 1] by (simp add: NGX_NSOC_VERSION_ID_def)

lemma le16_swapw_num: "le16 (swapw (numeral k)) = be16 (numeral k)" if "numeral k < (65536 :: nat)"
  using le16_swapw [OF that] by simp

lemma le16_zero: "le16 (swapw 0) = be16 0" "le16 0 = be16 0"
  using le16_swapw [of 0] by (simp_all add: le16_def be16_def)

lemma msg_layout_part:
  assumes "header_len (nc_prologue x) = swapw 6" and "num \<le> NGX_NSOC_3MSG"
  shows "\<exists>sz nxt. msg_layout num x =
      Some (sz, negotiation_part num (header (nc_prologue x))
                  @ (if num = NGX_NSOC_2MSG_ERR then be16 0 else []), nxt) \<and>
      length (negotiation_part num (header (nc_prologue x))) + 2 = sz"
proof -
  from assms(2) have "num \<in> {0, 1, 2, 3, 4}" by auto
  with assms(1) show ?thesis
    by (auto simp: msg_layout_def negotiation_part_def le16_swapw_num le16_zero version_bytes)
qed

lemma write_noise_part_layout:
  assumes "hs_write_contract X" and "mem_write 0 pre m = Some m1" and "length pre + 2 = sz"
    and "length m = sz + NOISE_PROTOCOL_MAX_HANDSHAKE_LEN" and "hs_obj s = Some h"
    and "hs_write_message X NOISE_PROTOCOL_MAX_HANDSHAKE_LEN h = (NOISE_ERROR_NONE, msg, h')"
  shows "\<exists>b. write_noise_part X sz m1 s = Ret (NGX_OK, Some b) (set_hs_obj (Some h') s) \<and>
    b_pos b = 0 \<and> take (b_last b) (b_mem b) = pre @ be16 (length msg) @ msg"
proof -
  from assms(1,6) have le: "length msg \<le> NOISE_PROTOCOL_MAX_HANDSHAKE_LEN"
    unfolding hs_write_contract_def by blast
  have l1: "length m1 = length m" using mem_write_length [OF assms(2)] .
  obtain m2 where m2: "mem_write sz msg m1 = Some m2"
    using le l1 assms(4) by (simp add: mem_write_def)
  obtain m3 where m3: "mem_write (sz - 2) (be16 (length msg)) m2 = Some m3"
    using mem_write_length [OF m2] l1 assms(3,4) by (force simp: mem_write_def)
  from mem_write_framed [OF assms(2) m2 m3 assms(3)] m2 m3 assms(5,6) show ?thesis
    by (simp add: write_noise_part_def out_msg_def temp_buf_def)
qed

section \<open>Peers to evaluate\<close>

definition demo_peer :: "ngx_noise_role \<Rightarrow> byte list list \<Rightarrow> (script, demo_hs, nat) nst" where
  "demo_peer role segs =
     \<lparr>nc = fresh_nc (demo_noise_conf 65517) 0 True role, cn = plain_connection 0,
      heap = (\<lambda>_. []), world = script_world segs\<rparr>"

lemmas demo_run_defs =
  demo_peer_def fresh_nc_def empty_npc_def demo_noise_conf_def demo_prologue_def demo_ctx_def
  none_phase_def start_handshake_def process_phase_def write_action_def after_write_def
  ngx_noise_protocol_init_handshake_def set_keys_def set_key_def arr_elts_def le64_def
  ngx_nsoc_handshake_start_action_write_message_def msg_layout_def write_noise_part_def out_msg_def
  send_handshake_msg_def set_handshake_handlers_def get_action_def free_buf_def set_hs_obj_def
  script_nginx_def script_send_def script_recv_def script_world_def plain_connection_def idle_event_def
  demo_noise_def demo_action_def mem_write_def mem_read_def temp_buf_def prologue_bytes_def
  first_hdr_bytes_def le16_def be16_def Let_def
  ngx_nsoc_read_negotiation_data_len_def ngx_nsoc_read_noise_msg_len_def read_len_field_def
  len_loop.simps do_recv_def read_available_def ngx_nsoc_read_handshake_data_def handshake_buf_def
  recv_into_def wait_read_def read_noise_part_def process_split_def
  ngx_nsoc_handshake_start_action_read_message_def rd16_def NGX_NSOC_VERSION_ID_def of_le16_le16

definition polite_noise :: "(demo_hs, nat) noise_c" where
  "polite_noise = demo_noise\<lparr>hs_write_message :=
     (\<lambda>cap h. if 3 \<le> cap then hs_write_message demo_noise cap h else (1, [], h))\<rparr>"

lemma polite_write_contract: "hs_write_contract polite_noise"
  by (auto simp: hs_write_contract_def polite_noise_def demo_noise_def split: if_splits)

lemma script_alloc_total: "alloc_total script_nginx"
  by (simp add: alloc_total_def script_nginx_def)

definition deliver ::
  "(script, demo_hs, nat) nst \<Rightarrow> (script, demo_hs, nat) nst \<Rightarrow> (script, demo_hs, nat) nst" where
  "deliver src dst = dst\<lparr>world := (world dst)\<lparr>sc_in := [sc_out (world src)], sc_out := []\<rparr>\<rparr>"

lemma swapw_consts: "swapw 0 = 0" "swapw 1 = 0x100" "swapw 6 = 0x600"
  by (simp_all add: swapw_def)

text \<open>Re-arming an event does not write to the stream.\<close>

definition events_quiet :: "'w nginx \<Rightarrow> ('w \<Rightarrow> byte list) \<Rightarrow> bool" where
  "events_quiet N sent \<longleftrightarrow> (\<forall>c w. sent (snd (snd (ngx_handle_write_event N c w))) = sent w)"

definition refusal :: "byte list" where
  "refusal = [0, 3, 0, 1, 0xFF, 0, 0]"

lemma refusal_message:
  assumes "alloc_total N" and "send_stream N sent" and "nc_msg_num (nc s) = NGX_NSOC_2MSG_ERR"
  shows "\<exists>b s'. ngx_nsoc_handshake_start_action_write_message N X s = Ret (NGX_OK, Some b) s' \<and>
    b_pos b = 0 \<and> b_last b = 7 \<and> take 7 (b_mem b) = refusal \<and> sent (world s') = sent (world s) \<and>
    hs_obj s' = hs_obj s"
proof -
  obtain a w where a: "ngx_palloc N 1 (world s) = (Some a, w)"
    using assms(1) unfolding alloc_total_def by metis
  obtain m w' where m: "ngx_palloc N (7 + NOISE_PROTOCOL_MAX_HANDSHAKE_LEN) w = (Some m, w')"
    "length m = 7 + NOISE_PROTOCOL_MAX_HANDSHAKE_LEN"
    using assms(1) unfolding alloc_total_def by metis
  have "le16 (swapw 3) @ le16 NGX_NSOC_VERSION_ID @ [0xFF] @ le16 0 = refusal"
    by (simp add: refusal_def le16_swapw_num version_bytes le16_zero be16_def)
  then have "msg_layout NGX_NSOC_2MSG_ERR (nc s) = Some (7, refusal, NGX_NSOC_1MSG)"
    by (simp add: msg_layout_def)
  moreover have len: "length refusal = 7" by (simp add: refusal_def)
  moreover have "mem_write 0 refusal m = Some (refusal @ drop 7 m)"
    using m(2) len by (simp add: mem_write_def)
  moreover have "sent w' = sent (world s)"
    using assms(2) a m unfolding send_stream_def by metis
  ultimately show ?thesis
    using assms(3) a m(1)
    by (simp add: ngx_nsoc_handshake_start_action_write_message_def out_msg_def temp_buf_def)
qed

lemma send_handshake_msg_stream:
  assumes "send_stream N sent" and "events_quiet N sent"
  shows "\<exists>r s'. send_handshake_msg N b s = Ret r s' \<and> hs_obj s' = hs_obj s \<and>
    (r = Inl NGX_AGAIN \<or> r = Inl NGX_ERROR \<or> r = Inr ()) \<and>
    (\<exists>j. sent (world s') = sent (world s) @ take j (take (b_last b - b_pos b) (drop (b_pos b) (b_mem b))))"
proof -
  let ?out = "take (b_last b - b_pos b) (drop (b_pos b) (b_mem b))"
  obtain n c w where sd: "ngx_send N ?out (cn s) (world s) = (n, c, w)" by (metis prod_cases3)
  with assms(1) have st: "sent w = sent (world s) @ take (nat n) ?out"
    unfolding send_stream_def by blast
  have ev: "sent w1 = sent w" if "ngx_handle_write_event N c0 w = (rc, c1, w1)" for c0 rc c1 w1
    using assms(2) that unfolding events_quiet_def by (metis snd_conv)
  have "\<exists>r s'. send_handshake_msg N b s = Ret r s' \<and> hs_obj s' = hs_obj s \<and>
      (r = Inl NGX_AGAIN \<or> r = Inl NGX_ERROR \<or> r = Inr ()) \<and> sent (world s') = sent w"
    using ev by (auto simp: send_handshake_msg_def sd Let_def free_buf_def split: prod.split)
  with st show ?thesis by metis
qed

lemma reject_version_stream:
  assumes "alloc_total N" and "send_stream N sent" and "events_quiet N sent"
  shows "\<exists>k s'. reject_version N X s = Ret k s' \<and> (k = NGX_ERROR \<or> k = NGX_AGAIN) \<and>
    hs_obj s' = hs_obj s \<and> (\<exists>j. sent (world s') = sent (world s) @ take j refusal)"
proof -
  let ?s = "upd_nc (\<lambda>x. x\<lparr>nc_msg_num := NGX_NSOC_2MSG_ERR\<rparr>) s"
  obtain b s1 where wr: "ngx_nsoc_handshake_start_action_write_message N X ?s = Ret (NGX_OK, Some b) s1"
    and b: "b_pos b = 0" "b_last b = 7" "take 7 (b_mem b) = refusal"
    and s1: "sent (world s1) = sent (world s)" "hs_obj s1 = hs_obj s"
    using refusal_message [OF assms(1,2), of ?s X] by auto
  from send_handshake_msg_stream [OF assms(2,3), of b s1] wr b s1 show ?thesis
    by (auto simp: reject_version_def)
qed

lemma script_send_stream: "send_stream script_nginx sc_out"
  by (auto simp: send_stream_def script_nginx_def script_send_def Let_def min_def)

lemma script_events_quiet: "events_quiet script_nginx sc_out"
  by (simp add: events_quiet_def script_nginx_def)

section \<open>Properties\<close>

text \<open>
  C2: The handshake reports success only when the connection is secured: the phase machine is in
  its final phase, the Noise handshake object is released, the two ciphers are those a
  successful split returned, and the socket's four I/O functions are the encrypting ones. Every other code
  leaves the flag \<open>handshaked\<close> as it was.
\<close>

theorem handshake_ok_iff_secured:
  assumes "ngx_nsoc_do_handshake_process fuel N X s = Ret n s'"
    and "nc_handshake_phase (nc s) = NGX_NSOC_HANDSHAKE_NONE_PHASE \<Longrightarrow> neg_ok (nc s)"
  shows "if n = NGX_OK then secured X s' else nc_handshaked (nc s') = nc_handshaked (nc s)"
  using assms by (rule process_outcome)

theorem handshake_ok_iff_secured_witness:
  "\<exists>n s'. ngx_nsoc_do_handshake_process (Suc 0) script_nginx demo_noise (demo_peer NGX_NSOC_CLIENT_ROLE []) = Ret n s' \<and>
     n = NGX_AGAIN \<and> \<not> nc_handshaked (nc s')"
proof -
  obtain s' where r: "ngx_nsoc_do_handshake_process (Suc 0) script_nginx demo_noise
      (demo_peer NGX_NSOC_CLIENT_ROLE []) = Ret NGX_AGAIN s'"
    by (simp add: demo_run_defs)
  from handshake_ok_iff_secured [OF this] r show ?thesis
    by (simp add: demo_peer_def fresh_nc_def neg_ok_def)
qed


text \<open>
  C8: Each handshake message goes out as the protocol prescribes: the negotiation part of its kind,
  a big-endian length, and a Noise message of that length the library produced; the refusal
  carries an empty Noise message. With a working allocator building a message cannot fail
  except by the library's own error.
\<close>

theorem write_message_layout:
  assumes "alloc_total N" and "hs_write_contract X"
    and "header_len (nc_prologue (nc s)) = swapw 6"
    and "nc_msg_num (nc s) \<le> NGX_NSOC_3MSG" and "hs_obj s = Some h"
    and "nc_msg_num (nc s) \<noteq> NGX_NSOC_2MSG_ERR \<Longrightarrow>
      hs_write_message X NOISE_PROTOCOL_MAX_HANDSHAKE_LEN h = (NOISE_ERROR_NONE, msg, h')"
    and "nc_msg_num (nc s) = NGX_NSOC_2MSG_ERR \<Longrightarrow> msg = []"
  shows "\<exists>b s'. ngx_nsoc_handshake_start_action_write_message N X s = Ret (NGX_OK, Some b) s' \<and>
    b_pos b = 0 \<and> take (b_last b) (b_mem b)
      = negotiation_part (nc_msg_num (nc s)) (header (nc_prologue (nc s))) @ be16 (length msg) @ msg"
proof -
  let ?num = "nc_msg_num (nc s)" and ?h = "header (nc_prologue (nc s))"
  obtain sz nxt where lay: "msg_layout ?num (nc s) =
      Some (sz, negotiation_part ?num ?h @ (if ?num = NGX_NSOC_2MSG_ERR then be16 0 else []), nxt)"
    and len: "length (negotiation_part ?num ?h) + 2 = sz"
    using msg_layout_part [OF assms(3,4)] by blast
  obtain a w where a: "ngx_palloc N 1 (world s) = (Some a, w)"
    using assms(1) unfolding alloc_total_def by metis
  obtain m w' where m: "ngx_palloc N (sz + NOISE_PROTOCOL_MAX_HANDSHAKE_LEN) w = (Some m, w')"
    "length m = sz + NOISE_PROTOCOL_MAX_HANDSHAKE_LEN"
    using assms(1) unfolding alloc_total_def by metis
  define s2 where "s2 = upd_nc (\<lambda>x. x\<lparr>nc_msg_num := nxt\<rparr>) (s\<lparr>world := w'\<rparr>)"
  show ?thesis
  proof (cases "?num = NGX_NSOC_2MSG_ERR")
    case True
    then obtain m1 where m1: "mem_write 0 (negotiation_part ?num ?h @ be16 0) m = Some m1"
      using len m(2) by (force simp: mem_write_def)
    have "take sz m1 = negotiation_part ?num ?h @ be16 0"
      using m1 len by (auto simp: mem_write_def split: if_splits)
    with True lay a m m1 assms(7) show ?thesis
      by (simp add: ngx_nsoc_handshake_start_action_write_message_def out_msg_def temp_buf_def)
  next
    case False
    then obtain m1 where m1: "mem_write 0 (negotiation_part ?num ?h) m = Some m1"
      using len m(2) by (force simp: mem_write_def)
    have "hs_obj s2 = Some h" using assms(5) by (simp add: s2_def)
    from write_noise_part_layout [OF assms(2) m1 len m(2) this assms(6) [OF False]]
    obtain b where "write_noise_part X sz m1 s2 = Ret (NGX_OK, Some b) (set_hs_obj (Some h') s2)"
      "b_pos b = 0" "take (b_last b) (b_mem b) = negotiation_part ?num ?h @ be16 (length msg) @ msg"
      by blast
    with False lay a m m1 show ?thesis
      by (simp add: ngx_nsoc_handshake_start_action_write_message_def s2_def)
  qed
qed

theorem write_message_layout_witness:
  "\<exists>b s'. ngx_nsoc_handshake_start_action_write_message script_nginx polite_noise
      (set_hs_obj (Some \<lparr>dh_role = NOISE_ROLE_INITIATOR, dh_step = 0, dh_key = []\<rparr>)
        (demo_peer NGX_NSOC_CLIENT_ROLE [])) = Ret (NGX_OK, Some b) s' \<and>
    take (b_last b) (b_mem b) = be16 6 @ first_hdr_bytes (header demo_prologue) @ be16 3 @ [0, 7, 7]"
proof -
  let ?h = "\<lparr>dh_role = NOISE_ROLE_INITIATOR, dh_step = 0, dh_key = []\<rparr>"
  let ?s = "set_hs_obj (Some ?h) (demo_peer NGX_NSOC_CLIENT_ROLE [])"
  have p: "nc_prologue (nc ?s) = demo_prologue" and num: "nc_msg_num (nc ?s) = NGX_NSOC_1MSG"
    and h: "hs_obj ?s = Some ?h"
    by (simp_all add: set_hs_obj_def demo_peer_def fresh_nc_def demo_noise_conf_def)
  have w: "hs_write_message polite_noise NOISE_PROTOCOL_MAX_HANDSHAKE_LEN ?h
      = (NOISE_ERROR_NONE, [0, 7, 7], \<lparr>dh_role = NOISE_ROLE_INITIATOR, dh_step = 1, dh_key = []\<rparr>)"
    by (simp add: polite_noise_def demo_noise_def)
  have hl: "header_len (nc_prologue (nc ?s)) = swapw 6"
    unfolding p by (simp add: demo_prologue_def)
  have "be16 (length [0, 7, 7 :: byte]) = be16 3" by (simp add: be16_def)
  moreover have "negotiation_part NGX_NSOC_1MSG (header demo_prologue)
      = be16 6 @ first_hdr_bytes (header demo_prologue)"
    by (simp add: negotiation_part_def)
  ultimately show ?thesis
    using write_message_layout [OF script_alloc_total polite_write_contract hl _ h w] num p
    by (metis (no_types, lifting) NGX_NSOC_1MSG_def NGX_NSOC_2MSG_ERR_def append_assoc le0 zero_neq_numeral)
qed

text \<open>
  Once the handshake is over, a further call of the handshake never returns: the \<open>default\<close>
  branch of the phase switch leaves the switch and not the loop.
\<close>

theorem handshake_loops_in_end_phase:
  "nc_handshake_phase (nc s) = NGX_NSOC_HANDSHAKE_END_PHASE \<Longrightarrow>
   ngx_nsoc_do_handshake_process fuel N X s = Diverge"
  by (induction fuel) simp_all

theorem handshake_loops_in_end_phase_witness:
  "ngx_nsoc_do_handshake_process 7 script_nginx demo_noise
     ((demo_peer NGX_NSOC_CLIENT_ROLE [])\<lparr>nc := (nc (demo_peer NGX_NSOC_CLIENT_ROLE []))
        \<lparr>nc_handshake_phase := NGX_NSOC_HANDSHAKE_END_PHASE\<rparr>\<rparr>) = Diverge"
  by (rule handshake_loops_in_end_phase) simp

text \<open>
  C24: A handshake message that the socket takes only in part (or refuses with an error) is kept
  whole: the handshake reports \<open>NGX_AGAIN\<close> with the same buffer and the same position, so the
  next attempt offers every byte again, also those already on the wire.
\<close>

theorem handshake_resends_whole_message:
  assumes "nc_handshake_phase (nc s) = NGX_NSOC_HANDSHAKE_PROCESS_PHASE"
    and "nc_last (nc s) = NOISE_ACTION_WRITE_MESSAGE" and "nc_buf (nc s) = Some b"
    and "ngx_send N (take (b_last b - b_pos b) (drop (b_pos b) (b_mem b))) (cn s) (world s) = (n, c, w)"
    and "n < int (b_last b - b_pos b)"
    and "\<And>c w. fst (ngx_handle_write_event N c w) = NGX_OK"
  shows "\<exists>s'. ngx_nsoc_do_handshake_process (Suc fuel) N X s = Ret NGX_AGAIN s' \<and>
    nc_buf (nc s') = Some b \<and> nc_last (nc s') = NOISE_ACTION_WRITE_MESSAGE \<and>
    nc_handshake_phase (nc s') = NGX_NSOC_HANDSHAKE_PROCESS_PHASE"
  using assms
  by (auto simp: process_phase_def write_action_def send_handshake_msg_def Let_def
      split: prod.split)
    (metis fst_conv)+

theorem handshake_resends_whole_message_witness:
  "\<exists>s'. ngx_nsoc_do_handshake_process (Suc 0) script_nginx demo_noise
      ((demo_peer NGX_NSOC_CLIENT_ROLE [])\<lparr>nc := (nc (demo_peer NGX_NSOC_CLIENT_ROLE []))
        \<lparr>nc_handshake_phase := NGX_NSOC_HANDSHAKE_PROCESS_PHASE, nc_last := NOISE_ACTION_WRITE_MESSAGE,
         nc_buf := Some (out_msg [1, 2, 3] 3)\<rparr>, world := (script_world [])\<lparr>sc_room := 2\<rparr>\<rparr>) = Ret NGX_AGAIN s' \<and>
    nc_buf (nc s') = Some (out_msg [1, 2, 3] 3)"
proof -
  let ?s = "(demo_peer NGX_NSOC_CLIENT_ROLE [])\<lparr>nc := (nc (demo_peer NGX_NSOC_CLIENT_ROLE []))
        \<lparr>nc_handshake_phase := NGX_NSOC_HANDSHAKE_PROCESS_PHASE, nc_last := NOISE_ACTION_WRITE_MESSAGE,
         nc_buf := Some (out_msg [1, 2, 3] 3)\<rparr>, world := (script_world [])\<lparr>sc_room := 2\<rparr>\<rparr>"
  let ?b = "out_msg [1, 2, 3] 3"
  have sd: "ngx_send script_nginx (take (b_last ?b - b_pos ?b) (drop (b_pos ?b) (b_mem ?b))) (cn ?s) (world ?s)
      = (2, cn ?s, (world ?s)\<lparr>sc_out := [1, 2], sc_room := 0\<rparr>)"
    by (simp add: script_nginx_def script_send_def script_world_def out_msg_def temp_buf_def)
  have "2 < int (b_last ?b - b_pos ?b)" by (simp add: out_msg_def temp_buf_def)
  moreover have "fst (ngx_handle_write_event script_nginx c w) = NGX_OK" for c w
    by (simp add: script_nginx_def)
  moreover have "nc_handshake_phase (nc ?s) = NGX_NSOC_HANDSHAKE_PROCESS_PHASE"
    "nc_last (nc ?s) = NOISE_ACTION_WRITE_MESSAGE" "nc_buf (nc ?s) = Some ?b"
    by simp_all
  ultimately show ?thesis
    using handshake_resends_whole_message [OF _ _ _ sd, of 0 demo_noise] by blast
qed

text \<open>
  A peer that announces a Noise message of length zero makes the handshake dereference a null
  pointer: no buffer is allocated for an empty message, and the reader uses it without a test.
  Here a client sends the negotiation header and then two zero bytes.
\<close>

theorem empty_noise_message_crashes:
  "ngx_nsoc_do_handshake_process (Suc (Suc (Suc 0))) script_nginx demo_noise
     (demo_peer NGX_NSOC_SERVER_ROLE [be16 6 @ first_hdr_bytes (header demo_prologue) @ be16 0])
   = Crash Null_deref"
  by (simp add: demo_run_defs)



text \<open>
  The first message must arrive in one piece. When the negotiation header arrives first and
  the Noise message later, the server reads the Noise message as negotiation data, because
  the size of the header is still recorded, and the handshake fails.
\<close>

theorem split_first_message_fails:
  "\<exists>s1 s2.
     ngx_nsoc_do_handshake_process (Suc (Suc (Suc 0))) script_nginx demo_noise
       (demo_peer NGX_NSOC_SERVER_ROLE [be16 6 @ first_hdr_bytes (header demo_prologue), []]) = Ret NGX_AGAIN s1 \<and>
     ngx_nsoc_do_handshake_process (Suc (Suc (Suc 0))) script_nginx demo_noise
       (s1\<lparr>world := (world s1)\<lparr>sc_in := [be16 6 @ [0, 7, 7, 7, 7, 7]]\<rparr>\<rparr>) = Ret NGX_ERROR s2"
  by (simp add: demo_run_defs)


text \<open>
  C7: A server refuses another protocol version: whatever the first message's header says, if its
  version is not this one, the handshake does not create a handshake object, does not leave
  its first phase, does not set \<open>handshaked\<close>, reports an error (or \<open>NGX_AGAIN\<close> while the
  refusal cannot be sent), and sends nothing but the refusal \<open>00 03 00 01 FF 00 00\<close> or a
  prefix of it.
\<close>

theorem server_refuses_other_version:
  assumes "alloc_total N" and "send_stream N sent" and "events_quiet N sent"
    and "nc_handshake_phase (nc s) = NGX_NSOC_HANDSHAKE_NONE_PHASE"
    and "nc_noise_role (nc s) = NGX_NSOC_SERVER_ROLE"
    and "ngx_nsoc_read_negotiation (Suc fuel) N 6 s = Ret n s1" and "0 < n"
    and "nc_buf (nc s1) = Some rb" and "first_hdr_of_bytes (b_mem rb) = Some h"
    and "version_id h \<noteq> NGX_NSOC_VERSION_ID"
  shows "\<exists>k s'. ngx_nsoc_do_handshake_process (Suc fuel) N X s = Ret k s' \<and>
    (k = NGX_ERROR \<or> k = NGX_AGAIN) \<and> hs_obj s' = hs_obj s1 \<and>
    nc_handshake_phase (nc s') = NGX_NSOC_HANDSHAKE_NONE_PHASE \<and>
    nc_handshaked (nc s') = nc_handshaked (nc s) \<and>
    (\<exists>j. sent (world s') = sent (world s1) @ take j refusal)"
proof -
  obtain k s' where rj: "reject_version N X s1 = Ret k s'" "k = NGX_ERROR \<or> k = NGX_AGAIN"
    "hs_obj s' = hs_obj s1" "\<exists>j. sent (world s') = sent (world s1) @ take j refusal"
    using reject_version_stream [OF assms(1-3)] by blast
  have "obs s' = obs s"
    using keepsD [OF reject_version_keeps rj(1)]
      keepsD [OF outcome.read_negotiation_keeps assms(6)] by simp
  moreover have "none_phase (Suc fuel) N X s = Ret (Inl k) s'"
    using assms(5-10) rj(1) by (simp add: none_phase_def del: ngx_nsoc_read_negotiation.simps)
  ultimately show ?thesis
    using assms(4) rj(2-4) by (auto simp: hs_outcome_def)
qed

theorem server_refuses_other_version_witness:
  "\<exists>k s'. ngx_nsoc_do_handshake_process (Suc (Suc 0)) script_nginx demo_noise
      (demo_peer NGX_NSOC_SERVER_ROLE [[0, 6, 0, 2, 1, 2, 3, 9]]) = Ret k s' \<and>
    (k = NGX_ERROR \<or> k = NGX_AGAIN) \<and> \<not> nc_handshaked (nc s') \<and> (\<exists>j. sc_out (world s') = take j refusal)"
proof -
  let ?s = "demo_peer NGX_NSOC_SERVER_ROLE [[0, 6, 0, 2, 1, 2, 3, 9]]"
  obtain s1 rb where rd: "ngx_nsoc_read_negotiation (Suc (Suc 0)) script_nginx 6 ?s = Ret 6 s1"
    "nc_buf (nc s1) = Some rb" "b_mem rb = [0, 2, 1, 2, 3, 9]" "sc_out (world s1) = []"
    by (simp add: demo_run_defs)
  have "of_le16 0 2 \<noteq> NGX_NSOC_VERSION_ID"
    by (simp add: of_le16_def NGX_NSOC_VERSION_ID_def swapw_consts)
  moreover have "nc_handshake_phase (nc ?s) = NGX_NSOC_HANDSHAKE_NONE_PHASE"
    "nc_noise_role (nc ?s) = NGX_NSOC_SERVER_ROLE" "\<not> nc_handshaked (nc ?s)"
    by (simp_all add: demo_peer_def fresh_nc_def)
  ultimately show ?thesis
    using server_refuses_other_version [OF script_alloc_total script_send_stream script_events_quiet _ _ rd(1) _ rd(2),
        of _ demo_noise] rd(3,4)
    by auto
qed

text \<open>
  When the peer closes before the length of a Noise message, the reader never returns: the
  end of the stream is neither \<open>NGX_AGAIN\<close> nor \<open>NGX_ERROR\<close>, so the loop reads the length again.
\<close>

theorem read_noise_msg_loops_at_eof:
  assumes "\<And>sz c w. ngx_recv N sz c w = (0, [], c, w)"
    and "nc_noise_msg_recv_size (nc s) = NGX_NSOC_SIZE_UNSET" and "\<not> nc_noise_msg_size_reading (nc s)"
  shows "ngx_nsoc_read_noise_msg fuel N s = Diverge"
  using assms(2,3)
proof (induction fuel arbitrary: s)
  case (Suc fuel)
  define s1 where "s1 = read_available (upd_nc (\<lambda>x. x\<lparr>nc_noise_msg_recv_size := NGX_NSOC_SIZE_UNSET,
      nc_last := 0, nc_noise_msg_size_reading := False\<rparr>) (upd_cn set_handshake_handlers s))"
  have "ngx_nsoc_read_noise_msg_len N (upd_cn set_handshake_handlers s) = Ret 0 s1"
    using Suc.prems(2)
    by (simp add: ngx_nsoc_read_noise_msg_len_def read_len_field_def len_loop.simps do_recv_def
        assms(1) s1_def read_available_def)
  moreover have "ngx_nsoc_read_noise_msg fuel N s1 = Diverge"
    by (rule Suc.IH) (simp_all add: s1_def)
  ultimately show ?case using Suc.prems by simp
qed simp

theorem read_noise_msg_loops_at_eof_witness:
  "ngx_nsoc_read_noise_msg 1000 (script_nginx\<lparr>ngx_recv := \<lambda>sz c w. (0, [], c, w)\<rparr>)
     (demo_peer NGX_NSOC_CLIENT_ROLE []) = Diverge"
  by (rule read_noise_msg_loops_at_eof) (simp_all add: demo_peer_def fresh_nc_def)

end
