(* ===== verification/Nsoc_Round_Robin.thy ===== *)
theory Nsoc_Round_Robin
  imports Nsoc_Prelude
begin

text \<open>
  Model of \<open>src/ngx_nsoc_upstream_round_robin.c\<close> and \<open>.h\<close>: the weighted round-robin balancer.

  An upstream has a primary group of peers and possibly a backup group (\<open>peers->next\<close>); both
  are shared by all sessions. A session has its own record (\<open>rr_peer_data\<close>): the group it
  draws from, the peer it holds, and a bit map of the peers it has tried. A pointer to a peer
  is a group and an index. Weights and times are integers; the connection counters are 64-bit
  words, since \<open>conns--\<close> wraps.
\<close>

section \<open>Data\<close>

type_synonym uint = "64 word"

record rr_peer =
  rp_name :: string
  rp_server :: string
  current_weight :: int
  effective_weight :: int
  weight :: int
  conns :: uint
  max_conns :: uint
  fails :: nat
  accessed :: int
  checked :: int
  max_fails :: nat
  fail_timeout :: int
  down :: bool

record rr_peers =
  number :: nat
  total_weight :: int
  single :: bool
  weighted :: bool
  rr_name :: string
  plist :: "rr_peer list"

datatype group = Primary | Backup

record rr_peer_data =
  rrp_peers :: group
  rrp_current :: "(group \<times> nat) option"
  rrp_tried :: "64 word list"

record peer_connection =
  pc_peer :: "(group \<times> nat) option"
  pc_name :: string
  pc_connected :: bool
  pc_stream :: bool
  pc_tries :: nat

record rr_state =
  rr_primary :: rr_peers
  rr_backup :: "rr_peers option"
  rr_data :: rr_peer_data
  rr_pc :: peer_connection

fun rr_group :: "group \<Rightarrow> rr_state \<Rightarrow> rr_peers option" where
  "rr_group Primary s = Some (rr_primary s)"
| "rr_group Backup s = rr_backup s"

fun set_group :: "group \<Rightarrow> rr_peers \<Rightarrow> rr_state \<Rightarrow> rr_state" where
  "set_group Primary g s = s\<lparr>rr_primary := g\<rparr>"
| "set_group Backup g s = s\<lparr>rr_backup := Some g\<rparr>"

fun rr_next :: "group \<Rightarrow> rr_state \<Rightarrow> rr_peers option" where
  "rr_next Primary s = rr_backup s"
| "rr_next Backup s = None"

section \<open>Initialisation\<close>

record upstream_server =
  us_name :: string
  us_addrs :: "string list"
  us_weight :: nat
  us_max_conns :: uint
  us_max_fails :: nat
  us_fail_timeout :: int
  us_down :: bool
  us_backup :: bool

definition peer_of :: "upstream_server \<Rightarrow> string \<Rightarrow> rr_peer" where
  "peer_of sv addr =
     \<lparr>rp_name = addr, rp_server = us_name sv, current_weight = 0,
      effective_weight = int (us_weight sv), weight = int (us_weight sv), conns = 0,
      max_conns = us_max_conns sv, fails = 0, accessed = 0, checked = 0,
      max_fails = us_max_fails sv, fail_timeout = us_fail_timeout sv, down = us_down sv\<rparr>"

definition default_peer :: "string \<Rightarrow> rr_peer" where
  "default_peer addr =
     \<lparr>rp_name = addr, rp_server = [], current_weight = 0, effective_weight = 1, weight = 1,
      conns = 0, max_conns = 0, fails = 0, accessed = 0, checked = 0, max_fails = 1,
      fail_timeout = 10, down = False\<rparr>"

definition count_addrs :: "upstream_server list \<Rightarrow> nat" where
  "count_addrs svs = (\<Sum>sv\<leftarrow>svs. length (us_addrs sv))"

definition count_weight :: "upstream_server list \<Rightarrow> nat" where
  "count_weight svs = (\<Sum>sv\<leftarrow>svs. length (us_addrs sv) * us_weight sv)"

definition server_peers :: "bool \<Rightarrow> string \<Rightarrow> upstream_server list \<Rightarrow> rr_peers" where
  "server_peers sgl host svs =
     \<lparr>number = count_addrs svs, total_weight = int (count_weight svs), single = sgl,
      weighted = (count_weight svs \<noteq> count_addrs svs), rr_name = host,
      plist = concat (map (\<lambda>sv. map (peer_of sv) (us_addrs sv)) svs)\<rparr>"

record upstream_conf =
  uc_host :: string
  uc_port :: nat
  uc_servers :: "upstream_server list option"

text \<open>
  \<open>resolve\<close> is \<open>ngx_inet_resolve_host\<close>; \<open>alloc k\<close> tells whether the \<open>k\<close>-th allocation of the
  call succeeds. The result is the code and the groups left in \<open>us->peer.data\<close>.
\<close>

definition ngx_nsoc_upstream_init_round_robin ::
  "(string \<Rightarrow> nat \<Rightarrow> string list option) \<Rightarrow> (nat \<Rightarrow> bool) \<Rightarrow> upstream_conf \<Rightarrow>
   int \<times> (rr_peers \<times> rr_peers option) option" where
  "ngx_nsoc_upstream_init_round_robin resolve alloc us =
     (case uc_servers us of
        Some svs \<Rightarrow>
          (let main = filter (\<lambda>sv. \<not> us_backup sv) svs; back = filter us_backup svs
           in if count_addrs main = 0 then (NGX_ERROR, None)
              else if \<not> alloc 0 \<or> \<not> alloc 1 then (NGX_ERROR, None)
              else
                (let ps = server_peers (count_addrs main = 1) (uc_host us) main
                 in if count_addrs back = 0 then (NGX_OK, Some (ps, None))
                    else if \<not> alloc 2 \<or> \<not> alloc 3 then (NGX_ERROR, Some (ps, None))
                    else (NGX_OK, Some (ps\<lparr>single := False\<rparr>,
                                        Some (server_peers False (uc_host us) back)))))
      | None \<Rightarrow>
          if uc_port us = 0 then (NGX_ERROR, None)
          else (case resolve (uc_host us) (uc_port us) of
                  None \<Rightarrow> (NGX_ERROR, None)
                | Some addrs \<Rightarrow>
                    if \<not> alloc 0 \<or> \<not> alloc 1 then (NGX_ERROR, None)
                    else (NGX_OK, Some (\<lparr>number = length addrs, total_weight = int (length addrs),
                            single = (length addrs = 1), weighted = False, rr_name = uc_host us,
                            plist = map default_peer addrs\<rparr>, None))))"

definition tries_of :: "rr_peers \<Rightarrow> rr_peers option \<Rightarrow> nat" where
  "tries_of p b = number p + (case b of None \<Rightarrow> 0 | Some g \<Rightarrow> number g)"

definition words_for :: "nat \<Rightarrow> nat" where
  "words_for n = (n + 63) div 64"

text \<open>
  The session's record and its number of tries at the start of a request; \<open>None\<close> is
  \<open>NGX_ERROR\<close>. \<open>have_rrp\<close> tells whether \<open>peer.data\<close> is already there, \<open>alloc\<close> whether an
  allocation succeeds.
\<close>

definition ngx_nsoc_upstream_init_round_robin_peer ::
  "bool \<Rightarrow> bool \<Rightarrow> rr_peers \<Rightarrow> rr_peers option \<Rightarrow> (rr_peer_data \<times> nat) option" where
  "ngx_nsoc_upstream_init_round_robin_peer have_rrp alloc p b =
     (let n = (case b of Some g \<Rightarrow> if number g > number p then number g else number p
                       | None \<Rightarrow> number p)
      in if \<not> have_rrp \<and> \<not> alloc then None
         else if n \<le> 64
         then Some (\<lparr>rrp_peers = Primary, rrp_current = None, rrp_tried = [0]\<rparr>, tries_of p b)
         else if alloc
         then Some (\<lparr>rrp_peers = Primary, rrp_current = None,
                     rrp_tried = replicate (words_for n) 0\<rparr>, tries_of p b)
         else None)"

text \<open>
  The group made of the addresses a name resolved to at run time. A configured address
  (\<open>ur->sockaddr\<close>) fills the first peer only; the other \<open>naddrs - 1\<close> are not linked.
\<close>

definition ngx_nsoc_upstream_create_round_robin_peer ::
  "bool \<Rightarrow> string \<Rightarrow> string option \<Rightarrow> string list \<Rightarrow> nat \<Rightarrow> (rr_peers \<times> rr_peer_data \<times> nat) option" where
  "ngx_nsoc_upstream_create_round_robin_peer alloc host sockaddr addrs naddrs =
     (let g = \<lparr>number = naddrs, total_weight = 0, single = (naddrs = 1), weighted = False,
               rr_name = host,
               plist = (case sockaddr of
                          Some a \<Rightarrow> [default_peer a]
                        | None \<Rightarrow> map default_peer (take naddrs addrs))\<rparr>
      in if \<not> alloc then None
         else if naddrs \<le> 64
         then Some (g, \<lparr>rrp_peers = Primary, rrp_current = None, rrp_tried = [0]\<rparr>, tries_of g None)
         else Some (g, \<lparr>rrp_peers = Primary, rrp_current = None,
                        rrp_tried = replicate (words_for naddrs) 0\<rparr>, tries_of g None))"

section \<open>Choosing a peer\<close>

definition tried_bit :: "64 word list \<Rightarrow> nat \<Rightarrow> bool" where
  "tried_bit t i \<longleftrightarrow> t ! (i div 64) AND push_bit (i mod 64) 1 \<noteq> 0"

definition set_tried :: "64 word list \<Rightarrow> nat \<Rightarrow> 64 word list" where
  "set_tried t i = t[i div 64 := t ! (i div 64) OR push_bit (i mod 64) 1]"

definition usable :: "int \<Rightarrow> rr_peer \<Rightarrow> bool" where
  "usable now p \<longleftrightarrow> \<not> down p
     \<and> \<not> (max_fails p \<noteq> 0 \<and> fails p \<ge> max_fails p \<and> now - checked p \<le> fail_timeout p)
     \<and> \<not> (max_conns p \<noteq> 0 \<and> conns p \<ge> max_conns p)"

definition bump :: "rr_peer \<Rightarrow> rr_peer" where
  "bump p = p\<lparr>current_weight := current_weight p + effective_weight p,
      effective_weight := (if effective_weight p < weight p then effective_weight p + 1
                           else effective_weight p)\<rparr>"

text \<open>
  The loop over the list: \<open>best\<close> is the index and the weight of the best peer so far. The bit
  map is read at every index; \<open>None\<close> is a read behind its end.
\<close>

fun scan ::
  "int \<Rightarrow> 64 word list \<Rightarrow> nat \<Rightarrow> rr_peer list \<Rightarrow> (nat \<times> int) option \<Rightarrow> int \<Rightarrow>
   (rr_peer list \<times> (nat \<times> int) option \<times> int) option" where
  "scan now t i [] best tot = Some ([], best, tot)"
| "scan now t i (p # ps) best tot =
     (if i div 64 \<ge> length t then None
      else if tried_bit t i \<or> \<not> usable now p then
        map_option (\<lambda>(qs, b, tt). (p # qs, b, tt)) (scan now t (Suc i) ps best tot)
      else
        (let q = bump p;
             best' = (case best of
                        None \<Rightarrow> Some (i, current_weight q)
                      | Some (j, w) \<Rightarrow> if current_weight q > w then Some (i, current_weight q) else best)
         in map_option (\<lambda>(qs, b, tt). (q # qs, b, tt))
              (scan now t (Suc i) ps best' (tot + effective_weight p))))"

definition settle :: "int \<Rightarrow> int \<Rightarrow> rr_peer \<Rightarrow> rr_peer" where
  "settle now tot p =
     (let q = p\<lparr>current_weight := current_weight p - tot\<rparr>
      in if now - checked q > fail_timeout q then q\<lparr>checked := now\<rparr> else q)"

definition ngx_nsoc_upstream_get_peer ::
  "int \<Rightarrow> rr_peer list \<Rightarrow> 64 word list \<Rightarrow> (nat option \<times> rr_peer list \<times> 64 word list) option" where
  "ngx_nsoc_upstream_get_peer now ps t =
     (case scan now t 0 ps None 0 of
        None \<Rightarrow> None
      | Some (qs, None, tot) \<Rightarrow> Some (None, qs, t)
      | Some (qs, Some (p, w), tot) \<Rightarrow> Some (Some p, qs[p := settle now tot (qs ! p)], set_tried t p))"

text \<open>
  The part of \<open>ngx_nsoc_upstream_get_round_robin_peer\<close> that draws from one group; the result
  tells whether a peer was found (otherwise the code jumps to \<open>failed\<close>).
\<close>

definition take_peer :: "group \<Rightarrow> nat \<Rightarrow> rr_peers \<Rightarrow> rr_state \<Rightarrow> rr_state" where
  "take_peer g i ps s =
     (let p = plist ps ! i
      in (set_group g (ps\<lparr>plist := (plist ps)[i := p\<lparr>conns := conns p + 1\<rparr>]\<rparr>) s)
           \<lparr>rr_data := (rr_data s)\<lparr>rrp_current := Some (g, i)\<rparr>,
            rr_pc := (rr_pc s)\<lparr>pc_peer := Some (g, i), pc_name := rp_name p\<rparr>\<rparr>)"

definition get_from :: "int \<Rightarrow> group \<Rightarrow> rr_peers \<Rightarrow> rr_state \<Rightarrow> (bool, rr_state) run" where
  "get_from now g ps s =
     (if single ps then
        (case plist ps of
           [] \<Rightarrow> Crash Null_deref
         | p # _ \<Rightarrow>
             if down p \<or> (max_conns p \<noteq> 0 \<and> conns p \<ge> max_conns p) then Ret False s
             else Ret True (take_peer g 0 ps s))
      else
        (case ngx_nsoc_upstream_get_peer now (plist ps) (rrp_tried (rr_data s)) of
           None \<Rightarrow> Crash Out_of_bounds
         | Some (None, qs, t) \<Rightarrow> Ret False (set_group g (ps\<lparr>plist := qs\<rparr>) s)
         | Some (Some i, qs, t) \<Rightarrow>
             Ret True (take_peer g i (ps\<lparr>plist := qs\<rparr>) (s\<lparr>rr_data := (rr_data s)\<lparr>rrp_tried := t\<rparr>\<rparr>))))"

definition busy :: "string \<Rightarrow> rr_state \<Rightarrow> rr_state" where
  "busy nm s = s\<lparr>rr_pc := (rr_pc s)\<lparr>pc_name := nm\<rparr>\<rparr>"

definition ngx_nsoc_upstream_get_round_robin_peer :: "int \<Rightarrow> rr_state \<Rightarrow> (int, rr_state) run" where
  "ngx_nsoc_upstream_get_round_robin_peer now s0 =
     (let s = s0\<lparr>rr_pc := (rr_pc s0)\<lparr>pc_connected := False\<rparr>\<rparr>; g = rrp_peers (rr_data s)
      in case rr_group g s of
           None \<Rightarrow> Crash Null_deref
         | Some ps \<Rightarrow>
             bind_run (get_from now g ps s)
               (\<lambda>found s1.
                  if found then Ret NGX_OK s1
                  else case rr_next g s1 of
                         None \<Rightarrow> Ret NGX_BUSY (busy (rr_name ps) s1)
                       | Some bs \<Rightarrow>
                           if words_for (number bs) > length (rrp_tried (rr_data s1))
                           then Crash Out_of_bounds
                           else
                             (let t = rrp_tried (rr_data s1); k = words_for (number bs);
                                  s2 = s1\<lparr>rr_data := (rr_data s1)\<lparr>rrp_peers := Backup,
                                         rrp_tried := replicate k 0 @ drop k t\<rparr>\<rparr>
                              in bind_run (get_from now Backup bs s2)
                                   (\<lambda>found s3.
                                      if found then Ret NGX_OK s3
                                      else Ret NGX_BUSY (busy (rr_name ps) s3)))))"

section \<open>Giving a peer back\<close>

definition mark_failed :: "int \<Rightarrow> rr_peer \<Rightarrow> rr_peer" where
  "mark_failed now p =
     (let ew = (if max_fails p \<noteq> 0 then effective_weight p - weight p div int (max_fails p)
                else effective_weight p)
      in p\<lparr>fails := fails p + 1, accessed := now, checked := now,
           effective_weight := (if ew < 0 then 0 else ew)\<rparr>)"

definition mark_live :: "rr_peer \<Rightarrow> rr_peer" where
  "mark_live p = (if accessed p < checked p then p\<lparr>fails := 0\<rparr> else p)"

text \<open>What happens to the peer: a group with a single peer keeps no account of failures.\<close>

definition give_back :: "rr_peers \<Rightarrow> int \<Rightarrow> bool \<Rightarrow> rr_peer \<Rightarrow> rr_peer" where
  "give_back ps now failed p =
     (let q = (if single ps then p else if failed then mark_failed now p else mark_live p)
      in q\<lparr>conns := conns q - 1\<rparr>)"

definition upd_peer :: "group \<Rightarrow> nat \<Rightarrow> (rr_peer \<Rightarrow> rr_peer) \<Rightarrow> rr_state \<Rightarrow> rr_state option" where
  "upd_peer g i f s =
     (case rr_group g s of
        None \<Rightarrow> None
      | Some ps \<Rightarrow> if i < length (plist ps)
                   then Some (set_group g (ps\<lparr>plist := (plist ps)[i := f (plist ps ! i)]\<rparr>) s)
                   else None)"

definition ngx_nsoc_upstream_free_round_robin_peer ::
  "int \<Rightarrow> bool \<Rightarrow> rr_state \<Rightarrow> (unit, rr_state) run" where
  "ngx_nsoc_upstream_free_round_robin_peer now failed s =
     (case (rrp_current (rr_data s), rr_group (rrp_peers (rr_data s)) s) of
        (Some (g, i), Some ps) \<Rightarrow>
          (case upd_peer g i (give_back ps now failed) s of
             None \<Rightarrow> Crash Out_of_bounds
           | Some s1 \<Rightarrow>
               Ret () (s1\<lparr>rr_pc := (rr_pc s1)\<lparr>pc_tries :=
                   (if single ps then 0 else pc_tries (rr_pc s1) - 1)\<rparr>\<rparr>))
      | _ \<Rightarrow> Crash Null_deref)"

definition ngx_nsoc_upstream_notify_round_robin_peer :: "bool \<Rightarrow> rr_state \<Rightarrow> (unit, rr_state) run" where
  "ngx_nsoc_upstream_notify_round_robin_peer connect s =
     (if connect \<and> pc_stream (rr_pc s) then
        (case rrp_current (rr_data s) of
           None \<Rightarrow> Crash Null_deref
         | Some (g, i) \<Rightarrow>
             (case upd_peer g i mark_live s of
                None \<Rightarrow> Crash Out_of_bounds
              | Some s1 \<Rightarrow> Ret () s1))
      else Ret () s)"


section \<open>The scan\<close>

abbreviation eligible :: "int \<Rightarrow> 64 word list \<Rightarrow> nat \<Rightarrow> rr_peer \<Rightarrow> bool" where
  "eligible now t k p \<equiv> \<not> tried_bit t k \<and> usable now p"

definition bumped :: "int \<Rightarrow> 64 word list \<Rightarrow> nat \<Rightarrow> rr_peer list \<Rightarrow> rr_peer list" where
  "bumped now t i ps = map (\<lambda>(k, p). if eligible now t k p then bump p else p) (enumerate i ps)"

definition gain :: "int \<Rightarrow> 64 word list \<Rightarrow> nat \<Rightarrow> rr_peer list \<Rightarrow> int" where
  "gain now t i ps = (\<Sum>(k, p)\<leftarrow>enumerate i ps. if eligible now t k p then effective_weight p else 0)"

lemma bumped_simps [simp]:
  "bumped now t i [] = []"
  "bumped now t i (p # ps) = (if eligible now t i p then bump p else p) # bumped now t (Suc i) ps"
  by (simp_all add: bumped_def)

lemma gain_simps [simp]:
  "gain now t i [] = 0"
  "gain now t i (p # ps) = (if eligible now t i p then effective_weight p else 0) + gain now t (Suc i) ps"
  by (simp_all add: gain_def)

lemma length_bumped [simp]: "length (bumped now t i ps) = length ps"
  by (simp add: bumped_def)

lemma nth_bumped:
  "k < length ps \<Longrightarrow> bumped now t i ps ! k = (if eligible now t (i + k) (ps ! k) then bump (ps ! k) else ps ! k)"
  by (simp add: bumped_def nth_enumerate_eq)

lemma scan_lists:
  "scan now t i ps best tot = Some (qs, b, tt) \<Longrightarrow> qs = bumped now t i ps \<and> tt = tot + gain now t i ps"
  by (induction now t i ps best tot arbitrary: qs b tt rule: scan.induct)
    (auto simp: Let_def split: if_splits)

lemma scan_total: "i + length ps \<le> 64 * length t \<Longrightarrow> \<exists>r. scan now t i ps best tot = Some r"
proof (induction ps arbitrary: i best tot)
  case (Cons p ps)
  then have "i div 64 < length t" "Suc i + length ps \<le> 64 * length t" by auto
  with Cons.IH [of "Suc i"] show ?case by (fastforce simp: Let_def)
qed simp

lemma sum_bumped:
  "sum_list (map current_weight (bumped now t i ps)) = sum_list (map current_weight ps) + gain now t i ps"
  by (induction ps arbitrary: i) (auto simp: bump_def)

text \<open>What the best index is, relative to the best one of the part already scanned.\<close>

abbreviation bumped_weight :: "rr_peer \<Rightarrow> int" where
  "bumped_weight p \<equiv> current_weight p + effective_weight p"

definition best_of ::
  "int \<Rightarrow> 64 word list \<Rightarrow> (nat \<times> rr_peer) set \<Rightarrow> (nat \<times> int) option \<Rightarrow> (nat \<times> int) option \<Rightarrow> bool" where
  "best_of now t E best b \<longleftrightarrow>
     (case b of
        None \<Rightarrow> best = None \<and> (\<forall>(k, p) \<in> E. \<not> eligible now t k p)
      | Some (j, w) \<Rightarrow>
          (\<forall>(k, p) \<in> E. eligible now t k p \<longrightarrow> bumped_weight p \<le> w) \<and>
          (best = Some (j, w) \<or>
           (\<exists>p. (j, p) \<in> E \<and> eligible now t j p \<and> w = bumped_weight p \<and>
              (\<forall>(k, q) \<in> E. k < j \<longrightarrow> eligible now t k q \<longrightarrow> bumped_weight q < w) \<and>
              (\<forall>j' w'. best = Some (j', w') \<longrightarrow> w' < w))))"

lemma current_weight_bump [simp]: "current_weight (bump p) = bumped_weight p"
  by (simp add: bump_def)

lemma enumerate_above: "(k, p) \<in> set (enumerate i ps) \<Longrightarrow> i \<le> k"
  by (simp add: in_set_enumerate_eq)

lemma best_of_skip:
  assumes "best_of now t E best b" and "\<not> eligible now t i p" and "\<And>k q. (k, q) \<in> E \<Longrightarrow> i < k"
  shows "best_of now t (insert (i, p) E) best b"
  using assms by (auto simp: best_of_def split: option.splits)

lemma best_of_keep:
  assumes "best_of now t E (Some (j, w)) b" and "bumped_weight p \<le> w"
    and "\<And>k q. (k, q) \<in> E \<Longrightarrow> i < k"
  shows "best_of now t (insert (i, p) E) (Some (j, w)) b"
proof (cases b)
  case None
  with assms(1) show ?thesis by (simp add: best_of_def)
next
  case (Some jw)
  obtain j2 w2 where b: "b = Some (j2, w2)" using Some by (cases jw) simp
  from assms(1) b have "w \<le> w2" by (auto simp: best_of_def)
  with assms(2) have le: "bumped_weight p \<le> w2" by simp
  have lt: "bumped_weight p < w2" if "(j, w) \<noteq> (j2, w2)"
    using assms(1,2) b that by (auto simp: best_of_def)
  show ?thesis using assms(1) le lt b by (auto simp: best_of_def)
qed

lemma best_of_take:
  assumes "best_of now t E (Some (i, bumped_weight p)) b" and "eligible now t i p"
    and "\<And>j w. best = Some (j, w) \<Longrightarrow> w < bumped_weight p" and "\<And>k q. (k, q) \<in> E \<Longrightarrow> i < k"
  shows "best_of now t (insert (i, p) E) best b"
proof (cases b)
  case None
  with assms(1) show ?thesis by (simp add: best_of_def)
next
  case (Some jw)
  obtain j2 w2 where b: "b = Some (j2, w2)" using Some by (cases jw) simp
  have all: "\<forall>(k, q) \<in> E. eligible now t k q \<longrightarrow> bumped_weight q \<le> w2"
    using assms(1) b by (simp add: best_of_def)
  show ?thesis
  proof (cases "(j2, w2) = (i, bumped_weight p)")
    case True
    then show ?thesis using all assms(2-4) b by (fastforce simp: best_of_def)
  next
    case False
    then obtain q where q: "(j2, q) \<in> E" "eligible now t j2 q" "w2 = bumped_weight q"
      "\<forall>(k, q) \<in> E. k < j2 \<longrightarrow> eligible now t k q \<longrightarrow> bumped_weight q < w2" "bumped_weight p < w2"
      using assms(1) b by (auto simp: best_of_def)
    have "w' < w2" if "best = Some (j', w')" for j' w'
      using assms(3) [OF that] q(5) by simp
    then show ?thesis
      using all q b by (simp add: best_of_def) blast
  qed
qed

lemma scan_best:
  "scan now t i ps best tot = Some (qs, b, tt) \<Longrightarrow> best_of now t (set (enumerate i ps)) best b"
proof (induction ps arbitrary: i best tot qs b tt)
  case Nil
  then show ?case by (auto simp: best_of_def split: option.split)
next
  case (Cons p ps)
  have above: "(k, q) \<in> set (enumerate (Suc i) ps) \<Longrightarrow> i < k" for k q
    using enumerate_above by fastforce
  show ?case
  proof (cases "eligible now t i p")
    case False
    with Cons.prems obtain qs' where "scan now t (Suc i) ps best tot = Some (qs', b, tt)"
      by (auto split: if_splits)
    from best_of_skip [OF Cons.IH [OF this] False above] show ?thesis by simp
  next
    case True
    define best' where "best' = (case best of None \<Rightarrow> Some (i, current_weight (bump p))
      | Some (j, w) \<Rightarrow> if current_weight (bump p) > w then Some (i, current_weight (bump p)) else best)"
    from True Cons.prems obtain qs' tot' where "scan now t (Suc i) ps best' tot' = Some (qs', b, tt)"
      by (auto simp: best'_def Let_def split: if_splits)
    note ih = Cons.IH [OF this]
    show ?thesis
    proof (cases "best' = best")
      case keep: True
      then obtain j w where "best = Some (j, w)" "bumped_weight p \<le> w"
        by (cases best) (auto simp: best'_def split: if_splits)
      with best_of_keep [OF _ _ above] ih keep show ?thesis by simp
    next
      case False
      then have "best' = Some (i, bumped_weight p)"
        and "\<And>j w. best = Some (j, w) \<Longrightarrow> w < bumped_weight p"
        by (auto simp: best'_def split: option.splits if_splits)
      with best_of_take [OF _ True _ above] ih show ?thesis by simp
    qed
  qed
qed

section \<open>The bit map\<close>

lemma tried_bit_iff: "tried_bit t i \<longleftrightarrow> bit (t ! (i div 64)) (i mod 64)"
  by (simp add: tried_bit_def push_bit_eq_mult and_exp_eq_0_iff_not_bit)

lemma tried_set:
  assumes "i div 64 < length t" and "k div 64 < length t"
  shows "tried_bit (set_tried t i) k \<longleftrightarrow> tried_bit t k \<or> k = i"
proof (cases "i div 64 = k div 64")
  case True
  have "(k = i) = (k mod 64 = i mod 64)" using True by (metis mult_div_mod_eq)
  then show ?thesis
    using True assms by (auto simp: tried_bit_iff set_tried_def bit_simps)
next
  case False
  then have "k \<noteq> i" by auto
  with False show ?thesis by (simp add: tried_bit_iff set_tried_def)
qed


section \<open>One draw\<close>

lemma get_peer_SomeD:
  assumes "ngx_nsoc_upstream_get_peer now ps t = Some (Some p, qs, t')"
  shows "t' = set_tried t p"
    and "qs = (bumped now t 0 ps)[p := settle now (gain now t 0 ps) (bumped now t 0 ps ! p)]"
    and "\<exists>w. best_of now t (set (enumerate 0 ps)) None (Some (p, w))"
proof -
  from assms obtain qs0 w tt where s: "scan now t 0 ps None 0 = Some (qs0, Some (p, w), tt)"
    and "qs = qs0[p := settle now tt (qs0 ! p)]" "t' = set_tried t p"
    unfolding ngx_nsoc_upstream_get_peer_def by (auto split: option.splits prod.splits)
  with scan_lists [OF s] scan_best [OF s] show "t' = set_tried t p"
    "qs = (bumped now t 0 ps)[p := settle now (gain now t 0 ps) (bumped now t 0 ps ! p)]"
    "\<exists>w. best_of now t (set (enumerate 0 ps)) None (Some (p, w))" by auto
qed

lemma bumped_none: "\<forall>(k, p) \<in> set (enumerate i ps). \<not> eligible now t k p \<Longrightarrow> bumped now t i ps = ps"
  by (induction ps arbitrary: i) auto

lemma get_peer_NoneD:
  assumes "ngx_nsoc_upstream_get_peer now ps t = Some (None, qs, t')"
  shows "t' = t" and "qs = ps" and "\<forall>(k, p) \<in> set (enumerate 0 ps). \<not> eligible now t k p"
proof -
  from assms obtain tt where s: "scan now t 0 ps None 0 = Some (qs, None, tt)" and t: "t' = t"
    unfolding ngx_nsoc_upstream_get_peer_def by (auto split: option.splits prod.splits)
  show "t' = t" by (rule t)
  show none: "\<forall>(k, p) \<in> set (enumerate 0 ps). \<not> eligible now t k p"
    using scan_best [OF s] by (simp add: best_of_def)
  show "qs = ps" using scan_lists [OF s] bumped_none [OF none] by simp
qed

lemma get_peer_total:
  "length ps \<le> 64 * length t \<Longrightarrow> \<exists>r. ngx_nsoc_upstream_get_peer now ps t = Some r"
  using scan_total [of 0 ps t now None 0]
  by (auto simp: ngx_nsoc_upstream_get_peer_def split: option.split prod.split)

lemma sum_list_swap:
  fixes f :: "'a \<Rightarrow> int"
  shows "i < length xs \<Longrightarrow> sum_list (map f (xs[i := y])) = sum_list (map f xs) - f (xs ! i) + f y"
  by (induction xs arbitrary: i) (auto split: nat.split)

lemma settle_weight [simp]: "current_weight (settle now tot p) = current_weight p - tot"
  by (simp add: settle_def Let_def)

lemma best_in:
  "best_of now t (set (enumerate 0 ps)) None (Some (p, w)) \<Longrightarrow>
   p < length ps \<and> eligible now t p (ps ! p) \<and> w = bumped_weight (ps ! p) \<and>
   (\<forall>k < length ps. eligible now t k (ps ! k) \<longrightarrow> bumped_weight (ps ! k) \<le> w \<and> (k < p \<longrightarrow> bumped_weight (ps ! k) < w))"
  by (auto simp: best_of_def in_set_enumerate_eq)

lemma get_peer_sum:
  assumes "ngx_nsoc_upstream_get_peer now ps t = Some (r, qs, t')"
  shows "sum_list (map current_weight qs) = sum_list (map current_weight ps)"
proof (cases r)
  case None
  with assms have "qs = ps" by (auto dest: get_peer_NoneD(2))
  then show ?thesis by simp
next
  case (Some p)
  with assms have g: "ngx_nsoc_upstream_get_peer now ps t = Some (Some p, qs, t')" by simp
  have "p < length (bumped now t 0 ps)" using get_peer_SomeD(3) [OF g] best_in by auto
  then show ?thesis
    using sum_bumped [of now t 0 ps] by (simp add: get_peer_SomeD(2) [OF g] sum_list_swap)
qed

section \<open>The invariant of a group\<close>

definition peer_ok :: "rr_peer \<Rightarrow> bool" where
  "peer_ok p \<longleftrightarrow> 0 \<le> effective_weight p \<and> effective_weight p \<le> weight p"

definition group_ok :: "rr_peers \<Rightarrow> bool" where
  "group_ok g \<longleftrightarrow> number g = length (plist g) \<and> (\<forall>p \<in> set (plist g). peer_ok p) \<and>
     sum_list (map current_weight (plist g)) = 0"

definition rr_ok :: "rr_state \<Rightarrow> bool" where
  "rr_ok s \<longleftrightarrow> group_ok (rr_primary s) \<and> (\<forall>g. rr_backup s = Some g \<longrightarrow> group_ok g)"

lemma peer_ok_bump: "peer_ok p \<Longrightarrow> peer_ok (bump p)"
  by (auto simp: peer_ok_def bump_def)

lemma peer_ok_simps [simp]:
  "peer_ok (p\<lparr>conns := c\<rparr>) = peer_ok p" "peer_ok (settle now tot p) = peer_ok p"
  "peer_ok (mark_live p) = peer_ok p" "current_weight (mark_live p) = current_weight p"
  "current_weight (mark_failed now p) = current_weight p"
  by (auto simp: peer_ok_def settle_def mark_live_def mark_failed_def Let_def)

lemma peer_ok_failed: "peer_ok p \<Longrightarrow> peer_ok (mark_failed now p)"
proof -
  assume "peer_ok p"
  then have "0 \<le> weight p div int (max_fails p)"
    by (cases "max_fails p = 0") (auto simp: peer_ok_def pos_imp_zdiv_nonneg_iff)
  with \<open>peer_ok p\<close> show ?thesis by (auto simp: peer_ok_def mark_failed_def Let_def)
qed

lemma group_ok_draw:
  assumes "group_ok g" and "ngx_nsoc_upstream_get_peer now (plist g) t = Some (r, qs, t')"
  shows "group_ok (g\<lparr>plist := qs\<rparr>)"
proof -
  have b: "\<forall>q \<in> set (bumped now t 0 (plist g)). peer_ok q"
    using assms(1) by (auto simp: group_ok_def bumped_def in_set_enumerate_eq peer_ok_bump)
  have "length qs = length (plist g) \<and> (\<forall>q \<in> set qs. peer_ok q)"
  proof (cases r)
    case None
    with assms(2) have "qs = plist g" by (auto dest: get_peer_NoneD(2))
    with assms(1) show ?thesis by (simp add: group_ok_def)
  next
    case (Some p)
    with assms(2) have g: "ngx_nsoc_upstream_get_peer now (plist g) t = Some (Some p, qs, t')" by simp
    have p: "p < length (plist g)" using get_peer_SomeD(3) [OF g] best_in by auto
    have "\<forall>q \<in> set qs. peer_ok q"
      unfolding get_peer_SomeD(2) [OF g] using b p by (auto dest!: set_update_subset_insert [THEN subsetD])
    then show ?thesis unfolding get_peer_SomeD(2) [OF g] by simp
  qed
  with assms(1) get_peer_sum [OF assms(2)] show ?thesis by (simp add: group_ok_def)
qed

lemma group_ok_swap:
  assumes "group_ok g" and "i < length (plist g)" and "peer_ok q"
    and "current_weight q = current_weight (plist g ! i)"
  shows "group_ok (g\<lparr>plist := (plist g)[i := q]\<rparr>)"
  using assms
  by (auto simp: group_ok_def sum_list_swap dest!: set_update_subset_insert [THEN subsetD])


lemma rr_group_ok: "rr_ok s \<Longrightarrow> rr_group g s = Some ps \<Longrightarrow> group_ok ps"
  by (cases g) (auto simp: rr_ok_def)

lemma set_group_ok: "rr_ok s \<Longrightarrow> group_ok ps \<Longrightarrow> rr_ok (set_group g ps s)"
  by (cases g) (auto simp: rr_ok_def)

lemma rr_ok_session [simp]:
  "rr_ok (s\<lparr>rr_data := d\<rparr>) = rr_ok s" "rr_ok (s\<lparr>rr_pc := pc\<rparr>) = rr_ok s" "rr_ok (busy nm s) = rr_ok s"
  by (simp_all add: rr_ok_def busy_def)

lemma take_peer_ok:
  assumes "rr_ok s" and "group_ok ps" and "i < length (plist ps)"
  shows "rr_ok (take_peer g i ps s)"
proof -
  have "peer_ok (plist ps ! i)" using assms(2,3) by (auto simp: group_ok_def)
  with assms show ?thesis
    by (simp add: take_peer_def Let_def set_group_ok group_ok_swap)
qed

lemma get_from_ok:
  assumes "rr_ok s" and "group_ok ps" and "get_from now g ps s = Ret found s'"
  shows "rr_ok s'"
proof (cases "single ps")
  case True
  with assms show ?thesis
    by (auto simp: get_from_def take_peer_ok split: list.splits if_splits)
next
  case False
  with assms(3) obtain r qs t where d: "ngx_nsoc_upstream_get_peer now (plist ps) (rrp_tried (rr_data s))
      = Some (r, qs, t)"
    by (auto simp: get_from_def split: option.splits)
  have ok: "group_ok (ps\<lparr>plist := qs\<rparr>)" by (rule group_ok_draw [OF assms(2) d])
  show ?thesis
  proof (cases r)
    case None
    with False d assms(1,3) ok show ?thesis by (auto simp: get_from_def set_group_ok)
  next
    case (Some i)
    with d have "i < length qs"
      using get_peer_SomeD(2,3) best_in by fastforce
    with Some False d assms(1,3) ok show ?thesis
      by (auto simp: get_from_def intro!: take_peer_ok)
  qed
qed

lemma get_ok:
  assumes "rr_ok s" and "ngx_nsoc_upstream_get_round_robin_peer now s = Ret n s'"
  shows "rr_ok s'"
proof -
  define s0 where "s0 = s\<lparr>rr_pc := (rr_pc s)\<lparr>pc_connected := False\<rparr>\<rparr>"
  define g where "g = rrp_peers (rr_data s0)"
  have s0: "rr_ok s0" using assms(1) by (simp add: s0_def)
  from assms(2) obtain ps found s1 where gr: "rr_group g s0 = Some ps"
    and gf: "get_from now g ps s0 = Ret found s1"
    unfolding ngx_nsoc_upstream_get_round_robin_peer_def
    by (auto simp: Let_def s0_def g_def bind_run_Ret_iff split: option.splits)
  have s1: "rr_ok s1" using get_from_ok [OF s0 rr_group_ok [OF s0 gr] gf] .
  have bk: "rr_next g s1 = Some bs \<Longrightarrow> group_ok bs" for bs
    using s1 by (cases g) (auto simp: rr_ok_def)
  from assms(2) gr gf s1 bk show ?thesis
    unfolding ngx_nsoc_upstream_get_round_robin_peer_def
    by (auto simp: Let_def s0_def [symmetric] g_def [symmetric] bind_run_Ret_iff
        dest: get_from_ok [rotated 2] split: option.splits if_splits)
qed


lemma upd_peer_ok:
  assumes "rr_ok s" and "upd_peer g i f s = Some s'" and "\<And>p. peer_ok p \<Longrightarrow> peer_ok (f p)"
    and "\<And>p. current_weight (f p) = current_weight p"
  shows "rr_ok s'"
proof -
  from assms(2) obtain ps where gr: "rr_group g s = Some ps" and i: "i < length (plist ps)"
    and s': "s' = set_group g (ps\<lparr>plist := (plist ps)[i := f (plist ps ! i)]\<rparr>) s"
    by (auto simp: upd_peer_def split: option.splits if_splits)
  have ok: "group_ok ps" by (rule rr_group_ok [OF assms(1) gr])
  then have "peer_ok (plist ps ! i)" using i by (auto simp: group_ok_def)
  with ok i assms show ?thesis by (simp add: s' set_group_ok group_ok_swap)
qed

lemma free_ok:
  assumes "rr_ok s" and "ngx_nsoc_upstream_free_round_robin_peer now failed s = Ret () s'"
  shows "rr_ok s'"
proof -
  from assms(2) obtain g i ps s1 pc where u: "upd_peer g i (give_back ps now failed) s = Some s1"
    and "s' = s1\<lparr>rr_pc := pc\<rparr>"
    unfolding ngx_nsoc_upstream_free_round_robin_peer_def
    by (auto split: option.splits prod.splits)
  moreover have "rr_ok s1"
    by (rule upd_peer_ok [OF assms(1) u]) (auto simp: give_back_def Let_def peer_ok_failed)
  ultimately show ?thesis by simp
qed

lemma notify_ok:
  assumes "rr_ok s" and "ngx_nsoc_upstream_notify_round_robin_peer connect s = Ret () s'"
  shows "rr_ok s'"
  using assms
  by (auto simp: ngx_nsoc_upstream_notify_round_robin_peer_def intro: upd_peer_ok
      split: if_splits option.splits prod.splits)

section \<open>Sessions interleaved\<close>

text \<open>
  The groups are shared: between two operations of a session, any other session may take its
  turn, with its own record and its own peer connection.
\<close>

inductive rr_step :: "rr_state \<Rightarrow> rr_state \<Rightarrow> bool" where
  rr_get: "ngx_nsoc_upstream_get_round_robin_peer now s = Ret n s' \<Longrightarrow> rr_step s s'"
| rr_free: "ngx_nsoc_upstream_free_round_robin_peer now failed s = Ret () s' \<Longrightarrow> rr_step s s'"
| rr_notify: "ngx_nsoc_upstream_notify_round_robin_peer connect s = Ret () s' \<Longrightarrow> rr_step s s'"
| rr_other: "rr_step s (s\<lparr>rr_data := d, rr_pc := pc\<rparr>)"

lemma rr_step_ok: "rr_step s s' \<Longrightarrow> rr_ok s \<Longrightarrow> rr_ok s'"
  by (induction rule: rr_step.induct) (auto intro: get_ok free_ok notify_ok)

lemma sum_zero_weight [simp]: "sum_list (map current_weight (map (peer_of sv) xs)) = 0"
  by (induction xs) (simp_all add: peer_of_def)

lemma server_peers_ok: "group_ok (server_peers sgl host svs)"
proof -
  have "length (concat (map (\<lambda>sv. map (peer_of sv) (us_addrs sv)) svs)) = count_addrs svs"
    by (simp add: count_addrs_def length_concat o_def)
  moreover have "sum_list (map current_weight (concat (map (\<lambda>sv. map (peer_of sv) (us_addrs sv)) svs))) = 0"
  proof (induction svs)
    case (Cons sv svs)
    then show ?case using sum_zero_weight [of sv "us_addrs sv"] by (simp del: sum_zero_weight)
  qed simp
  ultimately show ?thesis
    by (auto simp: group_ok_def server_peers_def peer_ok_def peer_of_def)
qed

lemma default_peers_ok:
  "group_ok \<lparr>number = length xs, total_weight = w, single = b, weighted = c, rr_name = nm,
     plist = map default_peer xs\<rparr>"
proof -
  have "sum_list (map current_weight (map default_peer xs)) = 0"
    by (induction xs) (simp_all add: default_peer_def)
  then show ?thesis by (auto simp: group_ok_def peer_ok_def default_peer_def)
qed

lemma single_group_ok [simp]: "group_ok (g\<lparr>single := b\<rparr>) = group_ok g"
  by (simp add: group_ok_def)

lemma init_ok:
  assumes "ngx_nsoc_upstream_init_round_robin resolve alloc us = (NGX_OK, Some (p, b))"
  shows "group_ok p \<and> (\<forall>g. b = Some g \<longrightarrow> group_ok g)"
  using assms unfolding ngx_nsoc_upstream_init_round_robin_def
  by (auto simp: Let_def server_peers_ok default_peers_ok split: option.splits if_splits)


section \<open>Exhaustion\<close>

text \<open>A group has nothing left to offer to a session with the bit map \<open>t\<close>.\<close>

definition exhausted :: "int \<Rightarrow> 64 word list \<Rightarrow> rr_peers \<Rightarrow> bool" where
  "exhausted now t ps \<longleftrightarrow>
     (if single ps then (let p = hd (plist ps) in down p \<or> max_conns p \<noteq> 0 \<and> conns p \<ge> max_conns p)
      else \<forall>k < length (plist ps). \<not> eligible now t k (plist ps ! k))"

definition group_wf :: "64 word list \<Rightarrow> rr_peers \<Rightarrow> bool" where
  "group_wf t ps \<longleftrightarrow> plist ps \<noteq> [] \<and> number ps = length (plist ps) \<and> number ps \<le> 64 * length t"

lemma get_from_total:
  assumes "group_wf (rrp_tried (rr_data s)) ps"
  shows "\<exists>s'. get_from now g ps s = Ret (\<not> exhausted now (rrp_tried (rr_data s)) ps) s' \<and>
    (exhausted now (rrp_tried (rr_data s)) ps \<longrightarrow>
       rr_data s' = rr_data s \<and> (s' = s \<or> s' = set_group g ps s))"
proof (cases "single ps")
  case True
  with assms show ?thesis
    by (cases "plist ps") (auto simp: get_from_def exhausted_def group_wf_def Let_def)
next
  case False
  let ?t = "rrp_tried (rr_data s)"
  obtain r qs t' where d: "ngx_nsoc_upstream_get_peer now (plist ps) ?t = Some (r, qs, t')"
    using get_peer_total [of "plist ps" ?t now] assms by (auto simp: group_wf_def)
  show ?thesis
  proof (cases r)
    case None
    with d have "\<forall>(k, p) \<in> set (enumerate 0 (plist ps)). \<not> eligible now ?t k p" "qs = plist ps"
      by (auto dest: get_peer_NoneD)
    then have "exhausted now ?t ps" using False by (auto simp: exhausted_def in_set_enumerate_eq)
    with None False d \<open>qs = plist ps\<close> show ?thesis by (cases g) (simp_all add: get_from_def)
  next
    case (Some p)
    with d get_peer_SomeD(3) best_in have "p < length (plist ps)" "eligible now ?t p (plist ps ! p)"
      by blast+
    then have "\<not> exhausted now ?t ps" using False by (auto simp: exhausted_def)
    with Some False d show ?thesis by (simp add: get_from_def)
  qed
qed

lemma words_for_le: "n \<le> 64 * length t \<Longrightarrow> words_for n \<le> length t"
  by (simp add: words_for_def)

lemma cleared_bits: "k < n \<Longrightarrow> \<not> tried_bit (replicate (words_for n) 0 @ xs) k"
proof -
  assume "k < n"
  then have "k div 64 < words_for n" unfolding words_for_def by linarith
  then show ?thesis by (simp add: tried_bit_iff nth_append)
qed

lemma exhausted_cleared:
  "group_wf t ps \<Longrightarrow>
   exhausted now (replicate (words_for (number ps)) 0 @ xs) ps \<longleftrightarrow> exhausted now (replicate (length t) 0) ps"
proof -
  assume wf: "group_wf t ps"
  have "\<not> tried_bit (replicate (length t) 0) k" if "k < number ps" for k
  proof -
    have "k div 64 < length t" using that wf unfolding group_wf_def by linarith
    then show ?thesis by (simp add: tried_bit_iff)
  qed
  with cleared_bits wf show ?thesis by (auto simp: exhausted_def group_wf_def)
qed

lemma group_wf_cleared:
  "group_wf t ps \<Longrightarrow> words_for (number ps) \<le> length t \<Longrightarrow>
   group_wf (replicate (words_for (number ps)) 0 @ drop (words_for (number ps)) t) ps"
  by (simp add: group_wf_def)

section \<open>Connection counters\<close>

definition group_conns :: "group \<Rightarrow> rr_state \<Rightarrow> uint list" where
  "group_conns g s = (case rr_group g s of None \<Rightarrow> [] | Some ps \<Rightarrow> map conns (plist ps))"

lemma group_conns_session [simp]:
  "group_conns g (s\<lparr>rr_data := d\<rparr>) = group_conns g s" "group_conns g (s\<lparr>rr_pc := pc\<rparr>) = group_conns g s"
  by (cases g; simp add: group_conns_def)+

lemma group_conns_set [simp]:
  "group_conns g (set_group g' ps s) = (if g = g' then map conns (plist ps) else group_conns g s)"
  by (cases g; cases g') (simp_all add: group_conns_def)

lemma bumped_conns [simp]: "map conns (bumped now t i ps) = map conns ps"
  by (induction ps arbitrary: i) (auto simp: bump_def)

lemma draw_conns:
  assumes "ngx_nsoc_upstream_get_peer now ps t = Some (r, qs, t')"
  shows "map conns qs = map conns ps"
proof (cases r)
  case None
  with assms show ?thesis by (auto dest: get_peer_NoneD(2))
next
  case (Some p)
  with assms have g: "ngx_nsoc_upstream_get_peer now ps t = Some (Some p, qs, t')" by simp
  have "p < length ps" using get_peer_SomeD(3) [OF g] best_in by blast
  then have "conns (settle now tot (bumped now t 0 ps ! p)) = map conns (bumped now t 0 ps) ! p" for tot
    by (simp add: settle_def Let_def del: bumped_conns)
  then show ?thesis
    unfolding get_peer_SomeD(2) [OF g] by (simp add: map_update)
qed

lemma get_from_conns:
  assumes "get_from now g ps s = Ret found s'" and "rr_group g s = Some ps"
  shows "if found
    then \<exists>i < length (group_conns g s). rrp_current (rr_data s') = Some (g, i) \<and>
           (\<forall>g'. group_conns g' s' = (if g' = g then (group_conns g s)[i := group_conns g s ! i + 1]
                                      else group_conns g' s)) \<and> rrp_peers (rr_data s') = rrp_peers (rr_data s)
    else \<forall>g'. group_conns g' s' = group_conns g' s"
proof -
  have c: "group_conns g s = map conns (plist ps)" using assms(2) by (simp add: group_conns_def)
  show ?thesis
  proof (cases "single ps")
    case True
    with assms(1) c show ?thesis
      by (auto simp: get_from_def take_peer_def Let_def split: list.splits if_splits)
  next
    case False
    with assms(1) obtain r qs t where d: "ngx_nsoc_upstream_get_peer now (plist ps) (rrp_tried (rr_data s))
        = Some (r, qs, t)"
      by (auto simp: get_from_def split: option.splits)
    note cq = draw_conns [OF d]
    show ?thesis
    proof (cases r)
      case None
      with False d assms(1) c cq show ?thesis by (auto simp: get_from_def)
    next
      case (Some i)
      then have "i < length (plist ps)" using d get_peer_SomeD(3) best_in by blast
      moreover have "length qs = length (plist ps)" using cq by (metis length_map)
      ultimately show ?thesis
        using Some False d assms(1) c cq
        by (auto simp: get_from_def take_peer_def Let_def map_update) (metis nth_map)+
    qed
  qed
qed

lemma get_conns:
  assumes "ngx_nsoc_upstream_get_round_robin_peer now s = Ret NGX_OK s'"
  shows "\<exists>g i. i < length (group_conns g s) \<and> rrp_current (rr_data s') = Some (g, i) \<and>
    (\<forall>g'. group_conns g' s' = (if g' = g then (group_conns g s)[i := group_conns g s ! i + 1]
                               else group_conns g' s))"
proof -
  define s0 where "s0 = s\<lparr>rr_pc := (rr_pc s)\<lparr>pc_connected := False\<rparr>\<rparr>"
  define g where "g = rrp_peers (rr_data s0)"
  have c0: "group_conns g' s0 = group_conns g' s" for g' by (simp add: s0_def)
  from assms obtain ps found s1 where gr: "rr_group g s0 = Some ps"
    and gf: "get_from now g ps s0 = Ret found s1"
    unfolding ngx_nsoc_upstream_get_round_robin_peer_def
    by (auto simp: Let_def s0_def g_def bind_run_Ret_iff split: option.splits)
  note f1 = get_from_conns [OF gf gr]
  show ?thesis
  proof (cases found)
    case True
    with assms gr gf have "s' = s1"
      by (simp add: ngx_nsoc_upstream_get_round_robin_peer_def Let_def s0_def g_def)
    with f1 True c0 show ?thesis by auto
  next
    case False
    with assms gr gf obtain bs s2 d where nx: "rr_next g s1 = Some bs" and s2: "s2 = s1\<lparr>rr_data := d\<rparr>"
      and g2: "get_from now Backup bs s2 = Ret True s'"
      unfolding ngx_nsoc_upstream_get_round_robin_peer_def
      by (auto simp: Let_def s0_def g_def bind_run_Ret_iff split: option.splits if_splits)
    have "rr_group Backup s2 = Some bs" using nx s2 by (cases g) auto
    from get_from_conns [OF g2 this] False f1 c0 s2 show ?thesis by auto
  qed
qed

lemma upd_peer_conns:
  assumes "upd_peer g0 i f s = Some s'" and "\<And>p. conns (f p) = conns p - 1"
  shows "group_conns g s' = (if g = g0 then (group_conns g0 s)[i := group_conns g0 s ! i - 1]
                             else group_conns g s)"
proof -
  from assms(1) obtain ps where gr: "rr_group g0 s = Some ps" and i: "i < length (plist ps)"
    and s': "s' = set_group g0 (ps\<lparr>plist := (plist ps)[i := f (plist ps ! i)]\<rparr>) s"
    by (auto simp: upd_peer_def split: option.splits if_splits)
  have "group_conns g0 s = map conns (plist ps)" using gr by (simp add: group_conns_def)
  with i assms(2) show ?thesis by (simp add: s' map_update)
qed

section \<open>A group to evaluate\<close>

definition demo_server :: "string \<Rightarrow> nat \<Rightarrow> upstream_server" where
  "demo_server nm w = \<lparr>us_name = nm, us_addrs = [nm], us_weight = w, us_max_conns = 0, us_max_fails = 1,
     us_fail_timeout = 10, us_down = False, us_backup = False\<rparr>"

definition demo_group :: rr_peers where
  "demo_group = server_peers False ''u'' [demo_server ''a'' 5, demo_server ''b'' 1, demo_server ''c'' 1]"

definition demo_conf :: upstream_conf where
  "demo_conf = \<lparr>uc_host = ''u'', uc_port = 0, uc_servers = Some [demo_server ''a'' 5, demo_server ''b'' 1]\<rparr>"

definition demo_session :: "rr_peers \<Rightarrow> rr_peers option \<Rightarrow> rr_state" where
  "demo_session p b = \<lparr>rr_primary = p, rr_backup = b,
     rr_data = \<lparr>rrp_peers = Primary, rrp_current = None, rrp_tried = [0]\<rparr>,
     rr_pc = \<lparr>pc_peer = None, pc_name = [], pc_connected = False, pc_stream = True, pc_tries = 2\<rparr>\<rparr>"

section \<open>Properties\<close>

text \<open>
  C11: One draw of the weighted round robin picks an eligible peer (not tried by this session, not
  down, not disabled by failures, below its connection limit) whose weight after the increment
  is maximal, and the first such in the list; and it marks exactly this peer as tried.
\<close>

theorem get_peer_picks_best:
  assumes "ngx_nsoc_upstream_get_peer now ps t = Some (Some p, qs, t')" and "length ps \<le> 64 * length t"
  shows "p < length ps \<and> eligible now t p (ps ! p) \<and>
    (\<forall>k < length ps. eligible now t k (ps ! k) \<longrightarrow>
       bumped_weight (ps ! k) \<le> bumped_weight (ps ! p) \<and> (k < p \<longrightarrow> bumped_weight (ps ! k) < bumped_weight (ps ! p))) \<and>
    (\<forall>k < 64 * length t. tried_bit t' k \<longleftrightarrow> tried_bit t k \<or> k = p)"
proof -
  from get_peer_SomeD(3) [OF assms(1)] obtain w where
    b: "best_of now t (set (enumerate 0 ps)) None (Some (p, w))" by blast
  note in_p = best_in [OF b]
  have "\<forall>k < 64 * length t. tried_bit t' k \<longleftrightarrow> tried_bit t k \<or> k = p"
    using in_p assms(2) unfolding get_peer_SomeD(1) [OF assms(1)]
    by (auto intro!: tried_set)
  with in_p show ?thesis by auto
qed

theorem get_peer_picks_best_witness:
  "\<exists>p qs t'. ngx_nsoc_upstream_get_peer 0 (plist demo_group) [0] = Some (Some p, qs, t') \<and>
     p < 3 \<and> eligible 0 [0] p (plist demo_group ! p)"
proof -
  obtain p qs t' where r: "ngx_nsoc_upstream_get_peer 0 (plist demo_group) [0] = Some (Some p, qs, t')"
    by (simp add: ngx_nsoc_upstream_get_peer_def demo_group_def server_peers_def demo_server_def peer_of_def
        usable_def tried_bit_def bump_def Let_def)
  have "length (plist demo_group) = 3" by (simp add: demo_group_def server_peers_def demo_server_def)
  with get_peer_picks_best [OF r] r show ?thesis by simp
qed


text \<open>
  C9: Smooth balancing: however sessions interleave their draws, returns and notifications, with
  whatever failures, in both groups the current weights always sum to zero and every
  effective weight stays between zero and the configured weight.
\<close>

theorem weights_invariant:
  assumes "ngx_nsoc_upstream_init_round_robin resolve alloc us = (NGX_OK, Some (p, b))"
    and "rr_primary s = p" and "rr_backup s = b" and "rr_step\<^sup>*\<^sup>* s s'"
  shows "\<forall>g ps. rr_group g s' = Some ps \<longrightarrow>
    sum_list (map current_weight (plist ps)) = 0 \<and> number ps = length (plist ps) \<and>
    (\<forall>q \<in> set (plist ps). 0 \<le> effective_weight q \<and> effective_weight q \<le> weight q)"
proof -
  have "rr_ok s" using init_ok [OF assms(1)] assms(2,3) by (simp add: rr_ok_def)
  with assms(4) have "rr_ok s'" by (induction rule: rtranclp_induct) (auto intro: rr_step_ok)
  then show ?thesis by (auto dest!: rr_group_ok simp: group_ok_def peer_ok_def)
qed

theorem weights_invariant_witness:
  "\<exists>s'. ngx_nsoc_upstream_get_round_robin_peer 0
       (demo_session (server_peers False ''u'' [demo_server ''a'' 5, demo_server ''b'' 1]) None) = Ret NGX_OK s' \<and>
     sum_list (map current_weight (plist (rr_primary s'))) = 0"
proof -
  let ?p = "server_peers False ''u'' [demo_server ''a'' 5, demo_server ''b'' 1]"
  have i: "ngx_nsoc_upstream_init_round_robin (\<lambda>_ _. None) (\<lambda>_. True) demo_conf = (NGX_OK, Some (?p, None))"
    by (simp add: ngx_nsoc_upstream_init_round_robin_def demo_conf_def demo_server_def count_addrs_def)
  obtain s' where g: "ngx_nsoc_upstream_get_round_robin_peer 0 (demo_session ?p None) = Ret NGX_OK s'"
    by (simp add: ngx_nsoc_upstream_get_round_robin_peer_def demo_session_def get_from_def
        ngx_nsoc_upstream_get_peer_def server_peers_def demo_server_def peer_of_def
        usable_def tried_bit_def bump_def Let_def)
  have st: "rr_step\<^sup>*\<^sup>* (demo_session ?p None) s'" using rr_get [OF g] by blast
  have "rr_primary (demo_session ?p None) = ?p" "rr_backup (demo_session ?p None) = None"
    by (simp_all add: demo_session_def)
  from weights_invariant [OF i this st] have "sum_list (map current_weight (plist (rr_primary s'))) = 0"
    by (metis rr_group.simps(1))
  with g show ?thesis by blast
qed

text \<open>
  C10: A session whose bit map covers both groups always gets an answer, \<open>NGX_OK\<close> or \<open>NGX_BUSY\<close>, and
  it is \<open>NGX_BUSY\<close> exactly when the primary group has no eligible peer left for it and the
  backup group, if there is one, has none at all (the bit map is cleared for it).
\<close>

theorem get_busy_iff_exhausted:
  assumes "rrp_peers (rr_data s) = Primary" and "group_wf (rrp_tried (rr_data s)) (rr_primary s)"
    and "\<And>b. rr_backup s = Some b \<Longrightarrow> group_wf (rrp_tried (rr_data s)) b"
  shows "\<exists>n s'. ngx_nsoc_upstream_get_round_robin_peer now s = Ret n s' \<and> n \<in> {NGX_OK, NGX_BUSY} \<and>
    (n = NGX_BUSY \<longleftrightarrow> exhausted now (rrp_tried (rr_data s)) (rr_primary s) \<and>
       (\<forall>b. rr_backup s = Some b \<longrightarrow> exhausted now (replicate (length (rrp_tried (rr_data s))) 0) b))"
proof -
  let ?t = "rrp_tried (rr_data s)"
  define s0 where "s0 = s\<lparr>rr_pc := (rr_pc s)\<lparr>pc_connected := False\<rparr>\<rparr>"
  obtain s1 where g1: "get_from now Primary (rr_primary s) s0 = Ret (\<not> exhausted now ?t (rr_primary s)) s1"
    and e1: "exhausted now ?t (rr_primary s) \<longrightarrow> rr_data s1 = rr_data s \<and> rr_backup s1 = rr_backup s"
    using get_from_total [of s0 "rr_primary s" now Primary] assms(2) by (auto simp: s0_def)
  show ?thesis
  proof (cases "exhausted now ?t (rr_primary s)")
    case False
    with g1 show ?thesis
      by (simp add: ngx_nsoc_upstream_get_round_robin_peer_def Let_def s0_def assms(1))
  next
    case ex: True
    show ?thesis
    proof (cases "rr_backup s")
      case None
      with ex g1 e1 show ?thesis
        by (simp add: ngx_nsoc_upstream_get_round_robin_peer_def Let_def s0_def assms(1))
    next
      case (Some b)
      have wf: "group_wf ?t b" by (rule assms(3) [OF Some])
      then have k: "words_for (number b) \<le> length ?t" by (auto simp: group_wf_def intro: words_for_le)
      define s2 where "s2 = s1\<lparr>rr_data := (rr_data s1)\<lparr>rrp_peers := Backup,
        rrp_tried := replicate (words_for (number b)) 0 @ drop (words_for (number b)) ?t\<rparr>\<rparr>"
      obtain s3 where g2: "get_from now Backup b s2 = Ret (\<not> exhausted now (replicate (length ?t) 0) b) s3"
        using get_from_total [of s2 b now Backup] group_wf_cleared [OF wf k] exhausted_cleared [OF wf]
        by (auto simp: s2_def)
      show ?thesis
        using ex g1 e1 g2 k Some
        by (auto simp: ngx_nsoc_upstream_get_round_robin_peer_def Let_def s0_def [symmetric] s2_def assms(1))
          (auto simp: s0_def assms(1))
    qed
  qed
qed


theorem get_busy_iff_exhausted_witness:
  "\<exists>n s'. ngx_nsoc_upstream_get_round_robin_peer 0 (demo_session demo_group None) = Ret n s' \<and>
     (n = NGX_BUSY \<longleftrightarrow> exhausted 0 [0] demo_group)"
proof -
  have "group_wf [0] demo_group"
    by (simp add: group_wf_def demo_group_def server_peers_def demo_server_def count_addrs_def)
  then show ?thesis
    using get_busy_iff_exhausted [of "demo_session demo_group None" 0]
    by (auto simp: demo_session_def)
qed

text \<open>
  C12: Connections are accounted for: when a session draws a peer and gives it back, with success or
  failure and at any time, every connection counter of both groups is again what it was.
\<close>

theorem get_free_restores_conns:
  assumes "ngx_nsoc_upstream_get_round_robin_peer now s = Ret NGX_OK s1"
    and "ngx_nsoc_upstream_free_round_robin_peer now' failed s1 = Ret () s2"
  shows "group_conns g s2 = group_conns g s"
proof -
  obtain g0 i where cur: "rrp_current (rr_data s1) = Some (g0, i)" and i: "i < length (group_conns g0 s)"
    and s1: "\<And>g'. group_conns g' s1 = (if g' = g0 then (group_conns g0 s)[i := group_conns g0 s ! i + 1]
                                       else group_conns g' s)"
    using get_conns [OF assms(1)] by blast
  from assms(2) cur obtain ps s3 pc where u: "upd_peer g0 i (give_back ps now' failed) s1 = Some s3"
    and s2: "s2 = s3\<lparr>rr_pc := pc\<rparr>"
    unfolding ngx_nsoc_upstream_free_round_robin_peer_def
    by (auto split: option.splits prod.splits)
  have "group_conns g s3 = (if g = g0 then (group_conns g0 s1)[i := group_conns g0 s1 ! i - 1]
                            else group_conns g s1)"
    by (rule upd_peer_conns [OF u]) (simp add: give_back_def mark_failed_def mark_live_def Let_def)
  with s1 i s2 show ?thesis by (auto simp: list_update_same_conv)
qed

theorem get_free_restores_conns_witness:
  "\<exists>s1 s2. ngx_nsoc_upstream_get_round_robin_peer 0 (demo_session demo_group None) = Ret NGX_OK s1 \<and>
     ngx_nsoc_upstream_free_round_robin_peer 3 True s1 = Ret () s2 \<and>
     group_conns Primary s2 = group_conns Primary (demo_session demo_group None)"
proof -
  obtain s1 s2 where r: "ngx_nsoc_upstream_get_round_robin_peer 0 (demo_session demo_group None) = Ret NGX_OK s1"
    "ngx_nsoc_upstream_free_round_robin_peer 3 True s1 = Ret () s2"
    by (simp add: ngx_nsoc_upstream_get_round_robin_peer_def demo_session_def get_from_def demo_group_def
        ngx_nsoc_upstream_get_peer_def server_peers_def demo_server_def peer_of_def take_peer_def settle_def
        usable_def tried_bit_def bump_def Let_def ngx_nsoc_upstream_free_round_robin_peer_def upd_peer_def)
  with get_free_restores_conns [OF r] show ?thesis by blast
qed

end
