(* ===== verification/Nsoc_Write_Filter.thy ===== *)
theory Nsoc_Write_Filter
  imports Nsoc_Chain
begin

text \<open>
  Model of \<open>src/ngx_nsoc_write_filter_module.c\<close>: the output filter that collects the chains of
  each direction and hands them to the connection's \<open>send_chain\<close>. What the filter needs of
  \<open>send_chain\<close> is the locale \<open>chain_sender\<close>; it is discharged for \<open>ngx_nsoc_send_chain\<close>.
\<close>

section \<open>State\<close>

definition NGX_LOWLEVEL_BUFFERED :: "8 word" where "NGX_LOWLEVEL_BUFFERED = 0x0f"
definition NGX_NSOC_WRITE_BUFFERED :: "8 word" where "NGX_NSOC_WRITE_BUFFERED = 0x10"

record write_filter_ctx =
  from_upstream :: "ngx_buf list"
  from_downstream :: "ngx_buf list"

text \<open>
  \<open>wf_io\<close> is the state \<open>send_chain\<close> works on, with the connection of the chosen direction as
  its socket: the client's connection for data from the upstream, the peer's connection
  otherwise.
\<close>

record ('w, 'h, 'k) wf_state =
  wf_ctx :: "write_filter_ctx option"
  wf_io :: "('w, 'h, 'k) sst"

type_synonym ('w, 'h, 'k) chain_pt =
  "ngx_buf list \<Rightarrow> int \<Rightarrow> ('w, 'h, 'k) sst \<Rightarrow> (ngx_buf list option, ('w, 'h, 'k) sst) run"

definition ngx_buf_size :: "ngx_buf \<Rightarrow> int" where
  "ngx_buf_size b = (if b_temporary b \<or> b_memory b then int (b_last b) - int (b_pos b) else 0)"

definition zero_buf :: "ngx_buf \<Rightarrow> bool" where
  "zero_buf b \<longleftrightarrow> ngx_buf_size b = 0 \<and> \<not> ngx_buf_special b"

section \<open>The filter\<close>

record chain_sum =
  cs_size :: int
  cs_flush :: bool
  cs_sync :: bool
  cs_last :: bool

definition add_buf :: "ngx_buf \<Rightarrow> chain_sum \<Rightarrow> chain_sum" where
  "add_buf b a = \<lparr>cs_size = cs_size a + ngx_buf_size b,
     cs_flush = (cs_flush a \<or> b_flush b \<or> b_recycled b),
     cs_sync = (cs_sync a \<or> b_sync b), cs_last = (cs_last a \<or> b_last_buf b)\<rparr>"

text \<open>The pass over the saved chain; \<open>None\<close> when it meets an empty data buffer.\<close>

fun scan_old :: "ngx_buf list \<Rightarrow> chain_sum \<Rightarrow> chain_sum option" where
  "scan_old [] a = Some a"
| "scan_old (b # bs) a = (if zero_buf b then None else scan_old bs (add_buf b a))"

text \<open>
  The pass that appends the new chain: \<open>alloc i\<close> tells whether the \<open>i\<close>-th link can be allocated.
  The result is what has been appended, and the sums when the pass was not given up.
\<close>

fun scan_new ::
  "(nat \<Rightarrow> bool) \<Rightarrow> nat \<Rightarrow> ngx_buf list \<Rightarrow> chain_sum \<Rightarrow> ngx_buf list \<times> chain_sum option" where
  "scan_new alloc i [] a = ([], Some a)"
| "scan_new alloc i (b # bs) a =
     (if \<not> alloc i then ([], None)
      else if zero_buf b then ([b], None)
      else (let (out, r) = scan_new alloc (Suc i) bs (add_buf b a) in (b # out, r)))"

definition get_out :: "bool \<Rightarrow> write_filter_ctx \<Rightarrow> ngx_buf list" where
  "get_out up x = (if up then from_upstream x else from_downstream x)"

definition set_out :: "bool \<Rightarrow> ngx_buf list \<Rightarrow> ('w, 'h, 'k) wf_state \<Rightarrow> ('w, 'h, 'k) wf_state" where
  "set_out up out s = s\<lparr>wf_ctx := map_option
     (\<lambda>x. if up then x\<lparr>from_upstream := out\<rparr> else x\<lparr>from_downstream := out\<rparr>) (wf_ctx s)\<rparr>"

abbreviation upd_sock where "upd_sock f s \<equiv> s\<lparr>wf_io := (wf_io s)\<lparr>sock := f (sock (wf_io s))\<rparr>\<rparr>"

definition set_buffered :: "bool \<Rightarrow> ngx_connection \<Rightarrow> ngx_connection" where
  "set_buffered b c =
     (if b then c\<lparr>c_buffered := c_buffered c OR NGX_NSOC_WRITE_BUFFERED\<rparr>
      else c\<lparr>c_buffered := c_buffered c AND NOT NGX_NSOC_WRITE_BUFFERED\<rparr>)"

definition empty_sum :: chain_sum where
  "empty_sum = \<lparr>cs_size = 0, cs_flush = False, cs_sync = False, cs_last = False\<rparr>"

definition flush_chain ::
  "('w, 'h, 'k) chain_pt \<Rightarrow> bool \<Rightarrow> ngx_buf list \<Rightarrow> chain_sum \<Rightarrow> ('w, 'h, 'k) wf_state \<Rightarrow>
   (int, ('w, 'h, 'k) wf_state) run" where
  "flush_chain sc up out a s =
     (let c = sock (wf_io s)
      in if cs_size a = 0 \<and> c_buffered c AND NGX_LOWLEVEL_BUFFERED = 0
            \<and> \<not> (cs_last a \<and> c_need_last_buf c) then
           if cs_last a \<or> cs_flush a \<or> cs_sync a
           then Ret NGX_OK (upd_sock (set_buffered False) (set_out up [] s))
           else Ret NGX_ERROR s
         else
           (case sc out 0 (wf_io s) of
              Crash e \<Rightarrow> Crash e
            | Diverge \<Rightarrow> Diverge
            | Ret chain t \<Rightarrow>
                (let s1 = s\<lparr>wf_io := t\<rparr>
                 in case chain of
                      None \<Rightarrow> Ret NGX_ERROR (upd_sock (\<lambda>c. c\<lparr>c_err := True\<rparr>) s1)
                    | Some rest \<Rightarrow>
                        (let s2 = set_out up rest s1
                         in if rest \<noteq> [] then
                              if c_shared (sock (wf_io s2)) then Ret NGX_ERROR s2
                              else Ret NGX_AGAIN (upd_sock (set_buffered True) s2)
                            else
                              (let s3 = upd_sock (set_buffered False) s2
                               in if c_buffered (sock (wf_io s3)) AND NGX_LOWLEVEL_BUFFERED \<noteq> 0
                                  then Ret NGX_AGAIN s3 else Ret NGX_OK s3)))))"

text \<open>\<open>alloc\<close> is asked for the module context first (0) and then for the links (1, 2, ...).\<close>

definition ngx_nsoc_write_filter ::
  "(nat \<Rightarrow> bool) \<Rightarrow> ('w, 'h, 'k) chain_pt \<Rightarrow> bool \<Rightarrow> ngx_buf list \<Rightarrow> ('w, 'h, 'k) wf_state \<Rightarrow>
   (int, ('w, 'h, 'k) wf_state) run" where
  "ngx_nsoc_write_filter alloc sc up new s =
     (case (case wf_ctx s of
              Some x \<Rightarrow> Some x
            | None \<Rightarrow> if alloc 0 then Some \<lparr>from_upstream = [], from_downstream = []\<rparr> else None) of
        None \<Rightarrow> Ret NGX_ERROR s
      | Some x \<Rightarrow>
          (let s1 = s\<lparr>wf_ctx := Some x\<rparr>; old = get_out up x
           in if c_err (sock (wf_io s1)) then Ret NGX_ERROR s1
              else case scan_old old empty_sum of
                     None \<Rightarrow> Ret NGX_ERROR s1
                   | Some a \<Rightarrow>
                       (let (app, r) = scan_new alloc (Suc 0) new a;
                            s2 = set_out up (old @ app) s1
                        in case r of
                             None \<Rightarrow> Ret NGX_ERROR s2
                           | Some a' \<Rightarrow> flush_chain sc up (old @ app) a' s2)))"

section \<open>What a send chain promises\<close>

text \<open>
  What is handed back is a suffix of what was given: the same buffers except that the first
  may have been taken in part (its memory and its position changed).
\<close>

definition same_buf :: "ngx_buf \<Rightarrow> ngx_buf \<Rightarrow> bool" where
  "same_buf b b' \<longleftrightarrow> b_last b' = b_last b \<and> b_flush b' = b_flush b \<and> b_last_buf b' = b_last_buf b
     \<and> b_sync b' = b_sync b \<and> b_temporary b' = b_temporary b \<and> b_memory b' = b_memory b"

definition suffix_of :: "ngx_buf list \<Rightarrow> ngx_buf list \<Rightarrow> bool" where
  "suffix_of rest chain \<longleftrightarrow> (\<exists>pre suf. chain = pre @ suf \<and> list_all2 same_buf suf rest)"

lemma same_buf_refl [simp]: "same_buf b b"
  by (simp add: same_buf_def)

lemma same_buf_trans: "same_buf a b \<Longrightarrow> same_buf b c \<Longrightarrow> same_buf a c"
  by (simp add: same_buf_def)

lemma same_bufs_refl [simp]: "list_all2 same_buf bs bs"
  by (simp add: list_all2_refl)

lemma same_bufs_trans: "list_all2 same_buf as bs \<Longrightarrow> list_all2 same_buf bs cs \<Longrightarrow> list_all2 same_buf as cs"
  by (rule list_all2_trans [of same_buf same_buf same_buf]) (rule same_buf_trans)

lemma suffix_of_refl [simp]: "suffix_of bs bs"
  unfolding suffix_of_def by (intro exI [of _ "[]"] exI [of _ bs]) simp

lemma suffix_of_Cons: "suffix_of rest bs \<Longrightarrow> suffix_of rest (b # bs)"
  unfolding suffix_of_def by (metis append_Cons)

lemma suffix_of_nil [simp]: "suffix_of [] bs"
  by (auto simp: suffix_of_def)

lemma suffix_of_length: "suffix_of rest chain \<Longrightarrow> length rest \<le> length chain"
  by (auto simp: suffix_of_def dest: list_all2_lengthD)

lemma suffix_of_trans:
  assumes "suffix_of r2 r1" and "suffix_of r1 chain"
  shows "suffix_of r2 chain"
proof -
  from assms(1) obtain p1 s1 where 1: "r1 = p1 @ s1" "list_all2 same_buf s1 r2" by (auto simp: suffix_of_def)
  from assms(2) obtain p2 s2 where 2: "chain = p2 @ s2" "list_all2 same_buf s2 r1" by (auto simp: suffix_of_def)
  from 2(2) 1(1) obtain q1 q2 where q: "s2 = q1 @ q2" "list_all2 same_buf q2 s1"
    by (auto simp: list_all2_append2)
  have "list_all2 same_buf q2 r2"
    by (rule same_bufs_trans [OF q(2) 1(2)])
  with 2(1) q(1) show ?thesis unfolding suffix_of_def by (metis append.assoc)
qed

lemma suffix_of_head:
  assumes "same_buf b b'" and "suffix_of rest (b' # bs)"
  shows "suffix_of rest (b # bs)"
proof (rule suffix_of_trans [OF assms(2)])
  show "suffix_of (b' # bs) (b # bs)"
    unfolding suffix_of_def using assms(1) by (intro exI [of _ "[]"] exI [of _ "b # bs"]) simp
qed

text \<open>The saved chain of a direction; nothing before the first call.\<close>

definition saved :: "bool \<Rightarrow> ('w, 'h, 'k) wf_state \<Rightarrow> ngx_buf list" where
  "saved up s = (case wf_ctx s of None \<Rightarrow> [] | Some x \<Rightarrow> get_out up x)"

lemma saved_simps [simp]:
  "saved up (s\<lparr>wf_io := t\<rparr>) = saved up s"
  "wf_ctx s \<noteq> None \<Longrightarrow> saved up (set_out up' out s) = (if up = up' then out else saved up s)"
  "wf_io (set_out up out s) = wf_io s" "wf_ctx (set_out up out s) = None \<longleftrightarrow> wf_ctx s = None"
  by (auto simp: saved_def set_out_def get_out_def split: option.splits)

definition write_pending :: "('w, 'h, 'k) wf_state \<Rightarrow> bool" where
  "write_pending s \<longleftrightarrow> c_buffered (sock (wf_io s)) AND NGX_NSOC_WRITE_BUFFERED \<noteq> 0"

lemma set_buffered_bit:
  "c_buffered (set_buffered b c) AND NGX_NSOC_WRITE_BUFFERED = 0 \<longleftrightarrow> \<not> b"
proof -
  have "(x OR 0x10) AND 0x10 = (0x10 :: 8 word)" "(x AND NOT 0x10) AND 0x10 = (0 :: 8 word)" for x
    by (rule bit_word_eqI; auto simp: bit_simps)+
  then show ?thesis by (simp add: set_buffered_def NGX_NSOC_WRITE_BUFFERED_def)
qed

text \<open>What a call of the filter may leave behind, for a direction and the whole chain to send.\<close>

definition filter_post :: "bool \<Rightarrow> ngx_buf list \<Rightarrow> ('w, 'h, 'k) wf_state \<Rightarrow> int \<Rightarrow> ('w, 'h, 'k) wf_state \<Rightarrow> bool" where
  "filter_post up out s n s' \<longleftrightarrow>
     saved (\<not> up) s' = saved (\<not> up) s \<and>
     (n = NGX_OK \<and> saved up s' = [] \<and> \<not> write_pending s'
      \<or> n = NGX_AGAIN \<and> suffix_of (saved up s') out \<and> (write_pending s' \<longleftrightarrow> saved up s' \<noteq> [])
      \<or> n = NGX_ERROR)"

lemma scan_new_all: "scan_new alloc i new a = (app, Some a') \<Longrightarrow> app = new"
  by (induction alloc i new a arbitrary: app rule: scan_new.induct)
    (auto split: if_splits prod.splits)

locale chain_sender =
  fixes sc :: "('w, 'h, 'k) chain_pt"
  assumes sc_suffix: "sc chain limit t = Ret (Some rest) t' \<Longrightarrow> suffix_of rest chain"
begin

lemma flush_chain_post:
  assumes "flush_chain sc up out a s = Ret n s'" and "wf_ctx s \<noteq> None"
  shows "filter_post up out s n s'"
proof (cases "cs_size a = 0 \<and> c_buffered (sock (wf_io s)) AND NGX_LOWLEVEL_BUFFERED = 0
            \<and> \<not> (cs_last a \<and> c_need_last_buf (sock (wf_io s)))")
  case True
  with assms show ?thesis
    by (auto simp: flush_chain_def filter_post_def write_pending_def set_buffered_bit Let_def
        split: if_splits)
next
  case False
  with assms(1) obtain chain t where sc: "sc out 0 (wf_io s) = Ret chain t"
    by (auto simp: flush_chain_def Let_def split: run.splits if_splits)
  show ?thesis
  proof (cases chain)
    case None
    with False sc assms show ?thesis by (auto simp: flush_chain_def filter_post_def Let_def)
  next
    case (Some rest)
    then have "suffix_of rest out" using sc_suffix sc by blast
    with False sc Some assms show ?thesis
      by (auto simp: flush_chain_def filter_post_def write_pending_def set_buffered_bit Let_def
          split: if_splits)
  qed
qed

lemma write_filter_post:
  assumes "ngx_nsoc_write_filter alloc sc up new s = Ret n s'"
  shows "filter_post up (saved up s @ new) s n s'"
proof -
  obtain x where x: "(case wf_ctx s of Some x \<Rightarrow> Some x
      | None \<Rightarrow> if alloc 0 then Some \<lparr>from_upstream = [], from_downstream = []\<rparr> else None) = x" by blast
  show ?thesis
  proof (cases x)
    case None
    with x assms show ?thesis by (simp add: ngx_nsoc_write_filter_def filter_post_def)
  next
    case (Some y)
    define s1 where "s1 = s\<lparr>wf_ctx := Some y\<rparr>"
    have sv: "saved d s1 = saved d s" for d
      using x Some by (auto simp: s1_def saved_def get_out_def split: option.splits if_splits)
    have old: "get_out up y = saved up s" using sv [of up] by (simp add: s1_def saved_def)
    define app where "app a = fst (scan_new alloc (Suc 0) new a)" for a
    define r where "r a = snd (scan_new alloc (Suc 0) new a)" for a
    have sn: "scan_new alloc (Suc 0) new a = (app a, r a)" for a by (simp add: app_def r_def)
    have all: "r a = Some a' \<Longrightarrow> app a = new" for a a'
      using scan_new_all sn by metis
    have ctx: "wf_ctx (set_out up out s1) \<noteq> None" for out by (simp add: s1_def)
    have fl: "filter_post up out s1 n s'" if "flush_chain sc up out a (set_out up out s1) = Ret n s'" for out a
      using flush_chain_post [OF that ctx] by (simp add: filter_post_def s1_def)
    have post: "filter_post up out s n s' = filter_post up out s1 n s'" for out
      by (simp add: filter_post_def sv)
    have err: "filter_post up out s NGX_ERROR (set_out up out' s1)" for out out'
      using sv ctx by (simp add: filter_post_def)
    have err1: "filter_post up out s NGX_ERROR s1" for out by (simp add: filter_post_def sv)
    have eq: "(if c_err (sock (wf_io s1)) then Ret NGX_ERROR s1
        else case scan_old (saved up s) empty_sum of
               None \<Rightarrow> Ret NGX_ERROR s1
             | Some a \<Rightarrow> (case r a of
                 None \<Rightarrow> Ret NGX_ERROR (set_out up (saved up s @ app a) s1)
               | Some a' \<Rightarrow> flush_chain sc up (saved up s @ app a) a'
                   (set_out up (saved up s @ app a) s1))) = Ret n s'"
      using assms unfolding ngx_nsoc_write_filter_def x Some
      by (auto simp: s1_def [symmetric] old sn Let_def split: if_splits option.splits)
    show ?thesis
    proof (cases "c_err (sock (wf_io s1)) \<or> scan_old (saved up s) empty_sum = None")
      case True
      with eq err1 show ?thesis by (auto split: if_splits)
    next
      case False
      then obtain a where a: "scan_old (saved up s) empty_sum = Some a" by auto
      show ?thesis
      proof (cases "r a")
        case None
        with eq False a err show ?thesis by auto
      next
        case (Some a')
        with eq False a all [OF Some]
        have "flush_chain sc up (saved up s @ new) a' (set_out up (saved up s @ new) s1) = Ret n s'"
          by simp
        from fl [OF this] post show ?thesis by simp
      qed
    qed
  qed
qed

end

section \<open>The encrypting send chain keeps the promise\<close>

lemma send_chain_direct_suffix_of:
  "send_chain_direct fuel snd_fn chain s = Ret (Some rest) s' \<Longrightarrow> suffix_of rest chain"
proof (induction fuel snd_fn chain s rule: send_chain_direct.induct)
  case (3 fuel snd_fn b bs s)
  show ?case
  proof (cases "ngx_buf_special b")
    case True
    with 3 show ?thesis by (auto intro: suffix_of_Cons)
  next
    case False
    with "3.prems" obtain n m s1 where sd: "snd_fn (Some (b_mem b)) (b_last b) s = Ret (n, m) s1"
      by (auto simp: bind_run_Ret_iff)
    have hd: "same_buf b (b\<lparr>b_mem := m, b_pos := k\<rparr>)" for k by (simp add: same_buf_def)
    note ih = "3.IH"(2,3) [OF False sd refl]
    show ?thesis
      using "3.prems" False sd ih suffix_of_head [OF hd]
      by (auto intro: suffix_of_Cons suffix_of_refl split: if_splits)
  qed
qed simp_all

lemma send_fill_suffix_of:
  "send_fill buf sent flush limit chain = Some (buf1, sent1, flush1, rest) \<Longrightarrow> suffix_of rest chain"
proof (induction buf sent flush limit chain rule: send_fill.induct)
  case (2 buf sent flush limit b bs)
  show ?case
  proof (cases "b_last buf < b_end buf \<and> sent < limit")
    case False
    with "2.prems" show ?thesis by auto
  next
    case go: True
    let ?k = "copy_size buf b sent limit"
    show ?thesis
    proof (cases "ngx_buf_special b")
      case True
      with "2.prems" go "2.IH"(1) [OF go refl True] show ?thesis by (simp add: Let_def suffix_of_Cons)
    next
      case False
      with "2.prems" go obtain buf' where cp: "copy_into buf b ?k = Some buf'"
        by (auto simp: Let_def split: option.splits)
      note ih = "2.IH"(2,3) [OF go refl False refl refl cp]
      have hd: "same_buf b (b\<lparr>b_pos := ?k\<rparr>)" by (simp add: same_buf_def)
      show ?thesis
      proof (cases "?k = b_last b")
        case True
        with "2.prems" go False cp ih(1) [OF True] show ?thesis by (simp add: Let_def suffix_of_Cons)
      next
        case neq: False
        with "2.prems" go False cp have "suffix_of rest (b\<lparr>b_pos := ?k\<rparr> # bs)"
          by (intro ih(2) [OF neq]) (simp add: Let_def)
        then show ?thesis by (rule suffix_of_head [OF hd])
      qed
    qed
  qed
qed simp

lemma send_finish_rest: "send_finish buf flush rest s = Ret (Some r) s' \<Longrightarrow> r = rest"
  by (simp add: send_finish_def)

lemma send_chain_buffered_suffix_of:
  "send_chain_buffered fuel snd_fn buf sent flush limit chain s = Ret (Some rest) s' \<Longrightarrow> suffix_of rest chain"
proof (induction fuel snd_fn buf sent flush limit chain s rule: send_chain_buffered.induct)
  case (2 fuel snd_fn buf sent flush limit chain s)
  from "2.prems" obtain buf1 sent1 flush1 r where
    f: "send_fill buf sent flush limit chain = Some (buf1, sent1, flush1, r)"
    by (auto split: option.splits)
  have "suffix_of rest r"
    using "2.prems" "2.IH" [OF f refl refl refl refl]
    by (auto simp: f Let_def bind_run_Ret_iff dest: send_finish_rest split: if_splits prod.splits)
  with send_fill_suffix_of [OF f] show ?case by (rule suffix_of_trans [rotated])
qed simp

lemma send_chain_body_suffix_of:
  "send_chain_body fuel N pagesize snd_fn chain limit s = Ret (Some rest) s' \<Longrightarrow> suffix_of rest chain"
  using send_chain_direct_suffix_of send_chain_buffered_suffix_of
  by (fastforce simp: send_chain_body_def Let_def split: if_splits prod.splits option.splits)

lemma with_nc_RetD:
  assumes "with_nc err body t = Ret a t'" and "a \<noteq> err"
  shows "\<exists>s s'. body s = Ret a s'"
  using assms by (cases rule: with_nc_cases [of t err body]) (auto split: run.splits)

interpretation nsc: chain_sender "ngx_nsoc_send_chain fuel N X pagesize" for fuel N X pagesize
proof (unfold_locales, goal_cases)
  case (1 chain limit t rest t')
  then show ?case
    unfolding ngx_nsoc_send_chain_def
    by (auto dest!: with_nc_RetD send_chain_body_suffix_of)
qed


section \<open>A filter to evaluate\<close>

definition demo_filter :: "(script, demo_hs, nat) wf_state" where
  "demo_filter =
     \<lparr>wf_ctx = None,
      wf_io = \<lparr>ss = \<lparr>s_client_noise_connection =
                 Some (nc (demo_transport 65517 (\<lambda>_. []) (script_world []))\<lparr>nc_buffer := False\<rparr>),
                 s_server_noise_connection = None, s_noise_on = True\<rparr>,
               sock = plain_connection 0, smem = (\<lambda>_. []), net = script_world []\<rparr>\<rparr>"

definition demo_payload :: ngx_buf where
  "demo_payload = (temp_buf ([0, 0, 0, 0, 65, 66] @ replicate 16 0))\<lparr>b_last := 6\<rparr>"

section \<open>Properties\<close>



end
