(* ===== verification/Nsoc_Session.thy ===== *)
theory Nsoc_Session
  imports Nsoc_Handshake
begin

text \<open>
  Model of the session engine: the phase table built by \<open>ngx_nsoc_init_phase_handlers\<close>
  (\<open>src/ngx_nsoc.c\<close>), the engine and the three phase checkers of
  \<open>src/ngx_nsoc_core_module.c\<close>, the end of a session (\<open>ngx_nsoc_finalize_session\<close>,
  \<open>ngx_nsoc_log_session\<close>, \<open>ngx_nsoc_close_connection\<close> in \<open>src/ngx_nsoc_handler.c\<close>), and the
  core module's server configuration.

  A phase handler is a function on the session. The field \<open>s->phase_handler\<close> belongs to the
  engine alone, so it is kept beside the session in the record \<open>engine\<close>.
\<close>

section \<open>The session\<close>

abbreviation NGX_NSOC_OK :: int where "NGX_NSOC_OK \<equiv> 200"
abbreviation NGX_NSOC_BAD_REQUEST :: int where "NGX_NSOC_BAD_REQUEST \<equiv> 400"
abbreviation NGX_NSOC_FORBIDDEN :: int where "NGX_NSOC_FORBIDDEN \<equiv> 403"
abbreviation NGX_NSOC_INTERNAL_SERVER_ERROR :: int where "NGX_NSOC_INTERNAL_SERVER_ERROR \<equiv> 500"
abbreviation NGX_NSOC_BAD_GATEWAY :: int where "NGX_NSOC_BAD_GATEWAY \<equiv> 502"
abbreviation NGX_NSOC_SERVICE_UNAVAILABLE :: int where "NGX_NSOC_SERVICE_UNAVAILABLE \<equiv> 503"

text \<open>The buffer \<open>c->buffer\<close>: a region of the session's memory and three offsets into it.\<close>

record conn_buf =
  cb_region :: nat
  cb_pos :: nat
  cb_last :: nat
  cb_end :: nat

datatype nodelay = NGX_TCP_NODELAY_UNSET | NGX_TCP_NODELAY_SET | NGX_TCP_NODELAY_DISABLED

text \<open>
  \<open>se_io\<close> holds the noise connections, the client's socket, the memory and the world;
  \<open>se_closed\<close> tells that the socket is closed and the pool, with the session in it, is gone.
\<close>

record ('w, 'h, 'k) sess =
  se_io :: "('w, 'h, 'k) sst"
  se_status :: int
  se_buffer :: "conn_buf option"
  se_stream :: bool
  se_nodelay :: nodelay
  se_received :: nat
  se_closed :: bool

type_synonym ('w, 'h, 'k) handler = "('w, 'h, 'k) sess \<Rightarrow> (int, ('w, 'h, 'k) sess) run"

text \<open>Values that may be unset (\<open>NGX_CONF_UNSET_SIZE\<close> and the like, null) are options.\<close>

record ('w, 'h, 'k) core_srv_conf =
  cscf_handler :: "(('w, 'h, 'k) sess \<Rightarrow> (unit, ('w, 'h, 'k) sess) run) option"
  cscf_tcp_nodelay :: "bool option"
  nsoc_preread_buffer_size :: "nat option"
  preread_timeout :: "nat option"
  error_log :: "nat option"
  resolver_timeout :: "nat option"
  resolver :: "nat option"

text \<open>An unset size or time is all ones (\<open>NGX_CONF_UNSET_SIZE\<close>, \<open>NGX_CONF_UNSET_MSEC\<close>).\<close>

definition conf_value :: "nat option \<Rightarrow> nat" where
  "conf_value v = (case v of None \<Rightarrow> 2 ^ 64 - 1 | Some n \<Rightarrow> n)"

text \<open>
  What the engine runs with: nginx, Noise-C, the setting of the socket option, the handlers of
  the log phase and the server's configuration.
\<close>

record ('w, 'h, 'k) core_env =
  ce_nginx :: "'w nginx"
  ce_noise :: "('h, 'k) noise_c"
  ce_setsockopt :: "nat \<Rightarrow> 'w \<Rightarrow> bool \<times> 'w"
  ce_log :: "('w, 'h, 'k) handler list"
  ce_srv :: "('w, 'h, 'k) core_srv_conf"

abbreviation upd_io where "upd_io f s \<equiv> s\<lparr>se_io := f (se_io s)\<rparr>"
abbreviation upd_sock where "upd_sock f s \<equiv> s\<lparr>se_io := (se_io s)\<lparr>sock := f (sock (se_io s))\<rparr>\<rparr>"
abbreviation se_read where "se_read s \<equiv> c_read (sock (se_io s))"

text \<open>A function on the I/O part of the session.\<close>

definition on_io ::
  "(('w, 'h, 'k) sst \<Rightarrow> ('a, ('w, 'h, 'k) sst) run) \<Rightarrow> ('w, 'h, 'k) sess \<Rightarrow> ('a, ('w, 'h, 'k) sess) run" where
  "on_io f s = (case f (se_io s) of
                  Ret a t \<Rightarrow> Ret a (s\<lparr>se_io := t\<rparr>) | Crash e \<Rightarrow> Crash e | Diverge \<Rightarrow> Diverge)"

section \<open>The end of a session\<close>

text \<open>
  \<open>c->data\<close> is the session or, before it is attached, null. A noise session whose socket is
  that of neither noise connection is left as it is.
\<close>

definition ngx_nsoc_close_connection ::
  "('w, 'h, 'k) sess option \<Rightarrow> (unit, ('w, 'h, 'k) sess) run" where
  "ngx_nsoc_close_connection d =
     (case d of
        None \<Rightarrow> Crash Null_deref
      | Some s \<Rightarrow>
          if s_noise_on (ss (se_io s)) then
            (case nc_side (ss (se_io s)) (c_id (sock (se_io s))) of
               None \<Rightarrow> Ret () s
             | Some sd \<Rightarrow>
                 if ngx_nsoc_shutdown (sock (se_io s)) = NGX_AGAIN then
                   (case side_nc sd (ss (se_io s)) of
                      None \<Rightarrow> Crash Null_deref
                    | Some x \<Rightarrow> Ret () (upd_io (\<lambda>t. t\<lparr>ss :=
                                   set_side_nc sd (x\<lparr>nc_handler := CH_close\<rparr>) (ss t)\<rparr>) s))
                 else Ret () (s\<lparr>se_closed := True\<rparr>))
          else Ret () (s\<lparr>se_closed := True\<rparr>))"

fun ngx_nsoc_log_session ::
  "('w, 'h, 'k) handler list \<Rightarrow> ('w, 'h, 'k) sess \<Rightarrow> (unit, ('w, 'h, 'k) sess) run" where
  "ngx_nsoc_log_session [] s = Ret () s"
| "ngx_nsoc_log_session (h # hs) s = bind_run (h s) (\<lambda>_ s1. ngx_nsoc_log_session hs s1)"

definition ngx_nsoc_finalize_session ::
  "('w, 'h, 'k) handler list \<Rightarrow> int \<Rightarrow> ('w, 'h, 'k) sess \<Rightarrow> (unit, ('w, 'h, 'k) sess) run" where
  "ngx_nsoc_finalize_session logs rc s =
     bind_run (ngx_nsoc_log_session logs (s\<lparr>se_status := rc\<rparr>))
       (\<lambda>_ s1. ngx_nsoc_close_connection (Some s1))"

section \<open>The phase table\<close>

datatype ngx_nsoc_phases =
    NGX_NSOC_POST_ACCEPT_PHASE | NGX_NSOC_PREACCESS_PHASE | NGX_NSOC_ACCESS_PHASE
  | NGX_NSOC_PROTECT_PHASE | NGX_NSOC_PREREAD_PHASE | NGX_NSOC_CONTENT_PHASE | NGX_NSOC_LOG_PHASE

text \<open>The numbers of the enumeration, by which the phases are ordered.\<close>

fun phase_number :: "ngx_nsoc_phases \<Rightarrow> nat" where
  "phase_number NGX_NSOC_POST_ACCEPT_PHASE = 0"
| "phase_number NGX_NSOC_PREACCESS_PHASE = 1"
| "phase_number NGX_NSOC_ACCESS_PHASE = 2"
| "phase_number NGX_NSOC_PROTECT_PHASE = 3"
| "phase_number NGX_NSOC_PREREAD_PHASE = 4"
| "phase_number NGX_NSOC_CONTENT_PHASE = 5"
| "phase_number NGX_NSOC_LOG_PHASE = 6"

lemma phase_number_eq: "phase_number p = phase_number q \<longleftrightarrow> p = q"
  by (cases p; cases q) simp_all

instantiation ngx_nsoc_phases :: linorder
begin

definition less_eq_ngx_nsoc_phases :: "ngx_nsoc_phases \<Rightarrow> ngx_nsoc_phases \<Rightarrow> bool" where
  "less_eq_ngx_nsoc_phases p q \<longleftrightarrow> phase_number p \<le> phase_number q"

definition less_ngx_nsoc_phases :: "ngx_nsoc_phases \<Rightarrow> ngx_nsoc_phases \<Rightarrow> bool" where
  "less_ngx_nsoc_phases p q \<longleftrightarrow> phase_number p < phase_number q"

instance
  by intro_classes (auto simp: less_eq_ngx_nsoc_phases_def less_ngx_nsoc_phases_def phase_number_eq)

end

text \<open>What the loops up to \<open>NGX_NSOC_LOG_PHASE\<close> run through.\<close>

definition phases_before_log :: "ngx_nsoc_phases list" where
  "phases_before_log = [NGX_NSOC_POST_ACCEPT_PHASE, NGX_NSOC_PREACCESS_PHASE, NGX_NSOC_ACCESS_PHASE,
     NGX_NSOC_PROTECT_PHASE, NGX_NSOC_PREREAD_PHASE, NGX_NSOC_CONTENT_PHASE]"

lemma phases_before_log_sorted:
  "sorted phases_before_log" "distinct phases_before_log" "set phases_before_log = {p. p < NGX_NSOC_LOG_PHASE}"
proof -
  show "set phases_before_log = {p. p < NGX_NSOC_LOG_PHASE}"
  proof (rule set_eqI)
    fix p
    show "p \<in> set phases_before_log \<longleftrightarrow> p \<in> {p. p < NGX_NSOC_LOG_PHASE}"
      by (cases p) (simp_all add: phases_before_log_def less_ngx_nsoc_phases_def)
  qed
qed (simp_all add: phases_before_log_def less_eq_ngx_nsoc_phases_def)

datatype checker = Generic_phase | Preread_phase | Content_phase

record 'f phase_handler_t =
  ph_checker :: checker
  ph_handler :: "'f option"
  ph_next :: nat

text \<open>
  The table from phase list and running count \<open>n\<close>; behind its last entry the memory holds a
  null checker.
\<close>

fun phase_entries ::
  "(ngx_nsoc_phases \<Rightarrow> 'f list) \<Rightarrow> nat \<Rightarrow> ngx_nsoc_phases list \<Rightarrow> 'f phase_handler_t list" where
  "phase_entries hs n [] = []"
| "phase_entries hs n (p # ps) =
     (if p = NGX_NSOC_CONTENT_PHASE
      then \<lparr>ph_checker = Content_phase, ph_handler = None, ph_next = 0\<rparr> # phase_entries hs (Suc n) ps
      else
        (let checker = (if p = NGX_NSOC_PREREAD_PHASE then Preread_phase else Generic_phase);
             n' = n + length (hs p)
         in map (\<lambda>h. \<lparr>ph_checker = checker, ph_handler = Some h, ph_next = n'\<rparr>) (rev (hs p))
              @ phase_entries hs n' ps))"

definition ngx_nsoc_init_phase_handlers ::
  "bool \<Rightarrow> (ngx_nsoc_phases \<Rightarrow> 'f list) \<Rightarrow> int \<times> 'f phase_handler_t list option" where
  "ngx_nsoc_init_phase_handlers alloc hs =
     (if alloc then (NGX_OK, Some (phase_entries hs 0 phases_before_log)) else (NGX_ERROR, None))"

section \<open>The engine\<close>

record ('w, 'h, 'k) engine =
  phase_handler :: nat
  session :: "('w, 'h, 'k) sess"

definition on_session ::
  "(('w, 'h, 'k) sess \<Rightarrow> ('a, ('w, 'h, 'k) sess) run) \<Rightarrow> ('w, 'h, 'k) engine \<Rightarrow>
   ('a, ('w, 'h, 'k) engine) run" where
  "on_session f e = (case f (session e) of
      Ret a s \<Rightarrow> Ret a (e\<lparr>session := s\<rparr>) | Crash x \<Rightarrow> Crash x | Diverge \<Rightarrow> Diverge)"

definition ngx_nsoc_core_generic_phase ::
  "('w, 'h, 'k) core_env \<Rightarrow> ('w, 'h, 'k) handler phase_handler_t \<Rightarrow> ('w, 'h, 'k) engine \<Rightarrow>
   (int, ('w, 'h, 'k) engine) run" where
  "ngx_nsoc_core_generic_phase env ph e =
     (case ph_handler ph of
        None \<Rightarrow> Crash Null_deref
      | Some h \<Rightarrow>
          bind_run (on_session h e)
            (\<lambda>rc e1.
               if rc = NGX_OK then Ret NGX_AGAIN (e1\<lparr>phase_handler := ph_next ph\<rparr>)
               else if rc = NGX_DECLINED then Ret NGX_AGAIN (e1\<lparr>phase_handler := Suc (phase_handler e1)\<rparr>)
               else if rc = NGX_AGAIN \<or> rc = NGX_DONE then Ret NGX_OK e1
               else bind_run (on_session (ngx_nsoc_finalize_session (ce_log env)
                                (if rc = NGX_ERROR then NGX_NSOC_INTERNAL_SERVER_ERROR else rc)) e1)
                      (\<lambda>_ e2. Ret NGX_OK e2)))"

text \<open>The buffer of the preread phase lives in its own region of the session's memory.\<close>

definition preread_region :: nat where "preread_region = 0"

definition preread_buffer ::
  "('w, 'h, 'k) core_env \<Rightarrow> ('w, 'h, 'k) sess \<Rightarrow> ('w, 'h, 'k) sess" where
  "preread_buffer env s =
     (case se_buffer s of
        Some _ \<Rightarrow> s
      | None \<Rightarrow>
          (let sz = conf_value (nsoc_preread_buffer_size (ce_srv env));
               (m, w) = ngx_palloc (ce_nginx env) sz (net (se_io s));
               s1 = upd_io (\<lambda>t. t\<lparr>net := w\<rparr>) s
           in case m of
                None \<Rightarrow> s1
              | Some m \<Rightarrow>
                  (upd_io (\<lambda>t. t\<lparr>smem := (smem t)(preread_region := m)\<rparr>) s1)
                    \<lparr>se_buffer := Some \<lparr>cb_region = preread_region, cb_pos = 0, cb_last = 0,
                                       cb_end = length m\<rparr>\<rparr>))"

text \<open>\<open>c->recv\<close>: the operating system's function or, after a handshake, \<open>ngx_nsoc_recv\<close>.\<close>

definition conn_recv ::
  "('w, 'h, 'k) core_env \<Rightarrow> nat \<times> nat \<Rightarrow> nat \<Rightarrow> ('w, 'h, 'k) sst \<Rightarrow> (int, ('w, 'h, 'k) sst) run" where
  "conn_recv env p sz t =
     (case c_recv (sock t) of
        Io_nsoc \<Rightarrow> ngx_nsoc_recv (ce_nginx env) (ce_noise env) (Some p) sz t
      | Io_os \<Rightarrow>
          (let (n, bs, c, w) = ngx_recv (ce_nginx env) sz (sock t) (net t);
               t1 = t\<lparr>sock := c, net := w\<rparr>
           in if n > 0 then
                (case mem_write (snd p) bs (smem t (fst p)) of
                   None \<Rightarrow> Crash Out_of_bounds
                 | Some m \<Rightarrow> Ret n (t1\<lparr>smem := (smem t)(fst p := m)\<rparr>))
              else Ret n t1))"

definition preread_wait ::
  "('w, 'h, 'k) core_env \<Rightarrow> ('w, 'h, 'k) sess \<Rightarrow> (unit + int) \<times> ('w, 'h, 'k) sess" where
  "preread_wait env s =
     (let (rc, c, w) = ngx_handle_read_event (ce_nginx env) (sock (se_io s)) (net (se_io s));
          s1 = upd_io (\<lambda>t. t\<lparr>sock := c, net := w\<rparr>) s
      in if rc \<noteq> NGX_OK then (Inr NGX_ERROR, s1)
         else
           (let s2 = (if ev_timer_set (se_read s1) then s1
                      else upd_sock (upd_read (\<lambda>ev. ngx_add_timer (ce_nginx env) ev
                             (conf_value (preread_timeout (ce_srv env))))) s1)
            in (Inl (), upd_sock (upd_read (\<lambda>ev. ev\<lparr>ev_handler := H_session\<rparr>)) s2)))"

text \<open>
  The loop: \<open>Inr rc\<close> when it was left with the code \<open>rc\<close>, \<open>Inl ()\<close> when the function
  returned from it to wait for the socket.
\<close>

fun preread_loop ::
  "nat \<Rightarrow> ('w, 'h, 'k) core_env \<Rightarrow> ('w, 'h, 'k) handler \<Rightarrow> int \<Rightarrow> ('w, 'h, 'k) sess \<Rightarrow>
   (unit + int, ('w, 'h, 'k) sess) run" where
  "preread_loop 0 env h rc s = Diverge"
| "preread_loop (Suc fuel) env h rc s0 =
     (if rc \<noteq> NGX_AGAIN then Ret (Inr rc) s0
      else
        (let s = preread_buffer env s0
         in case se_buffer s of
              None \<Rightarrow> Ret (Inr NGX_ERROR) s
            | Some b \<Rightarrow>
                if cb_end b = cb_last b then Ret (Inr NGX_NSOC_BAD_REQUEST) s
                else if ev_eof (se_read s) then Ret (Inr NGX_NSOC_OK) s
                else if \<not> ev_ready (se_read s) then (let (r, s1) = preread_wait env s in Ret r s1)
                else
                  bind_run (on_io (conn_recv env (cb_region b, cb_last b) (cb_end b - cb_last b)) s)
                    (\<lambda>n s1.
                       if n = NGX_ERROR then Ret (Inr NGX_NSOC_OK) s1
                       else
                         (let s2 = (if n > 0 then s1\<lparr>se_buffer := Some (b\<lparr>cb_last := cb_last b + nat n\<rparr>)\<rparr>
                                    else s1)
                          in bind_run (h s2) (\<lambda>rc s3. preread_loop fuel env h rc s3)))))"

definition preread_start :: "('w, 'h, 'k) handler \<Rightarrow> ('w, 'h, 'k) handler" where
  "preread_start h s =
     (if ev_timedout (se_read s) then Ret NGX_NSOC_OK s
      else if ev_timer_set (se_read s) then Ret NGX_AGAIN s
      else h s)"

definition ngx_nsoc_core_preread_phase ::
  "nat \<Rightarrow> ('w, 'h, 'k) core_env \<Rightarrow> ('w, 'h, 'k) handler phase_handler_t \<Rightarrow> ('w, 'h, 'k) engine \<Rightarrow>
   (int, ('w, 'h, 'k) engine) run" where
  "ngx_nsoc_core_preread_phase fuel env ph e =
     (case ph_handler ph of
        None \<Rightarrow> Crash Null_deref
      | Some h \<Rightarrow>
          bind_run (on_session (preread_start h) e)
            (\<lambda>rc e1.
               bind_run (on_session (preread_loop fuel env h rc) e1)
                 (\<lambda>r e2.
                    case r of
                      Inl _ \<Rightarrow> Ret NGX_OK e2
                    | Inr rc \<Rightarrow>
                        (let e3 = (if ev_timer_set (se_read (session e2))
                                   then e2\<lparr>session := upd_sock (upd_read (ngx_del_timer (ce_nginx env))) (session e2)\<rparr>
                                   else e2)
                         in if rc = NGX_OK then Ret NGX_AGAIN (e3\<lparr>phase_handler := ph_next ph\<rparr>)
                            else if rc = NGX_DECLINED then Ret NGX_AGAIN (e3\<lparr>phase_handler := Suc (phase_handler e3)\<rparr>)
                            else if rc = NGX_DONE then Ret NGX_OK e3
                            else bind_run (on_session (ngx_nsoc_finalize_session (ce_log env)
                                   (if rc = NGX_ERROR then NGX_NSOC_INTERNAL_SERVER_ERROR else rc)) e3)
                                   (\<lambda>_ e4. Ret NGX_OK e4)))))"

definition ngx_nsoc_core_content_phase ::
  "('w, 'h, 'k) core_env \<Rightarrow> ('w, 'h, 'k) engine \<Rightarrow> (int, ('w, 'h, 'k) engine) run" where
  "ngx_nsoc_core_content_phase env e =
     (let s = session e;
          wants = (se_stream s \<and> cscf_tcp_nodelay (ce_srv env) \<noteq> Some False \<and> se_nodelay s = NGX_TCP_NODELAY_UNSET);
          (ok, w) = (if wants then ce_setsockopt env (c_id (sock (se_io s))) (net (se_io s))
                     else (True, net (se_io s)));
          s1 = upd_io (\<lambda>t. t\<lparr>net := w\<rparr>) s;
          s2 = (if wants \<and> ok then s1\<lparr>se_nodelay := NGX_TCP_NODELAY_SET\<rparr> else s1)
      in if \<not> ok then
           bind_run (on_session (ngx_nsoc_finalize_session (ce_log env) NGX_NSOC_INTERNAL_SERVER_ERROR)
                      (e\<lparr>session := s2\<rparr>))
             (\<lambda>_ e1. Ret NGX_OK e1)
         else case cscf_handler (ce_srv env) of
                None \<Rightarrow> Crash Null_deref
              | Some h \<Rightarrow> bind_run (on_session h (e\<lparr>session := s2\<rparr>)) (\<lambda>_ e1. Ret NGX_OK e1))"

fun call_checker ::
  "nat \<Rightarrow> ('w, 'h, 'k) core_env \<Rightarrow> ('w, 'h, 'k) handler phase_handler_t \<Rightarrow> ('w, 'h, 'k) engine \<Rightarrow>
   (int, ('w, 'h, 'k) engine) run" where
  "call_checker fuel env ph e =
     (case ph_checker ph of
        Generic_phase \<Rightarrow> ngx_nsoc_core_generic_phase env ph e
      | Preread_phase \<Rightarrow> ngx_nsoc_core_preread_phase fuel env ph e
      | Content_phase \<Rightarrow> ngx_nsoc_core_content_phase env e)"

text \<open>
  The engine's loop. The table is read at \<open>phase_handler\<close>; the entry behind the last one has
  a null checker and a read behind it is outside the table. \<open>pf\<close> is the fuel of the preread
  loop, the first argument that of this loop.
\<close>

fun ngx_nsoc_core_run_phases ::
  "nat \<Rightarrow> nat \<Rightarrow> ('w, 'h, 'k) core_env \<Rightarrow> ('w, 'h, 'k) handler phase_handler_t list \<Rightarrow>
   ('w, 'h, 'k) engine \<Rightarrow> (unit, ('w, 'h, 'k) engine) run" where
  "ngx_nsoc_core_run_phases 0 pf env t e = Diverge"
| "ngx_nsoc_core_run_phases (Suc fuel) pf env t e =
     (if phase_handler e = length t then Ret () e
      else if phase_handler e > length t then Crash Out_of_bounds
      else bind_run (call_checker pf env (t ! phase_handler e) e)
             (\<lambda>rc e1. if rc = NGX_OK then Ret () e1 else ngx_nsoc_core_run_phases fuel pf env t e1))"

definition ngx_nsoc_session_handler ::
  "nat \<Rightarrow> nat \<Rightarrow> ('w, 'h, 'k) core_env \<Rightarrow> ('w, 'h, 'k) handler phase_handler_t list \<Rightarrow>
   ('w, 'h, 'k) engine \<Rightarrow> (unit, ('w, 'h, 'k) engine) run" where
  "ngx_nsoc_session_handler = ngx_nsoc_core_run_phases"

section \<open>Configuration\<close>

definition merge_value :: "'v option \<Rightarrow> 'v option \<Rightarrow> 'v \<Rightarrow> 'v option" where
  "merge_value conf prev dflt =
     (case conf of Some v \<Rightarrow> Some v
      | None \<Rightarrow> (case prev of Some v \<Rightarrow> Some v | None \<Rightarrow> Some dflt))"

definition ngx_nsoc_core_create_srv_conf :: "bool \<Rightarrow> ('w, 'h, 'k) core_srv_conf option" where
  "ngx_nsoc_core_create_srv_conf alloc =
     (if alloc
      then Some \<lparr>cscf_handler = None, cscf_tcp_nodelay = None, nsoc_preread_buffer_size = None,
                 preread_timeout = None, error_log = None, resolver_timeout = None, resolver = None\<rparr>
      else None)"

text \<open>
  \<open>dummy\<close> is the resolver \<open>ngx_resolver_create\<close> makes, \<open>new_log\<close> the log of the cycle. The
  result is the pair of the two configurations, the parent's first; \<open>None\<close> is
  \<open>NGX_CONF_ERROR\<close>.
\<close>

definition ngx_nsoc_core_merge_srv_conf ::
  "nat option \<Rightarrow> nat \<Rightarrow> ('w, 'h, 'k) core_srv_conf \<Rightarrow> ('w, 'h, 'k) core_srv_conf \<Rightarrow>
   (('w, 'h, 'k) core_srv_conf \<times> ('w, 'h, 'k) core_srv_conf) option" where
  "ngx_nsoc_core_merge_srv_conf dummy new_log prev0 conf0 =
     (let conf1 = conf0\<lparr>resolver_timeout :=
            merge_value (resolver_timeout conf0) (resolver_timeout prev0) 30000\<rparr>;
          prev = (if resolver conf1 = None \<and> resolver prev0 = None then prev0\<lparr>resolver := dummy\<rparr> else prev0)
      in if resolver conf1 = None \<and> resolver prev = None then None
         else
           (let conf2 = (if resolver conf1 = None then conf1\<lparr>resolver := resolver prev\<rparr> else conf1)
            in if cscf_handler conf2 = None then None
               else
                 (let conf3 = conf2\<lparr>error_log := merge_value (error_log conf2) (error_log prev) new_log,
                        cscf_tcp_nodelay := merge_value (cscf_tcp_nodelay conf2) (cscf_tcp_nodelay prev) True,
                        nsoc_preread_buffer_size := merge_value (nsoc_preread_buffer_size conf2)
                          (nsoc_preread_buffer_size prev) NOISE_PROTOCOL_PAYLOAD_SIZE\<rparr>
                  in if conf_value (nsoc_preread_buffer_size conf3) > NOISE_PROTOCOL_PAYLOAD_SIZE then None
                     else Some (prev, conf3\<lparr>preread_timeout :=
                            merge_value (preread_timeout conf3) (preread_timeout prev) 30000\<rparr>))))"

section \<open>What the engine promises\<close>

text \<open>
  The specification has no indices: a session has a list of phases with the handlers still to
  be asked, and the verdict on a handler's answer is to leave the phase, to ask the next
  handler of the phase, or to stop.
\<close>

datatype verdict = Next_phase | Next_handler | Stop

definition end_session ::
  "('w, 'h, 'k) core_env \<Rightarrow> int \<Rightarrow> ('w, 'h, 'k) sess \<Rightarrow> (verdict, ('w, 'h, 'k) sess) run" where
  "end_session env rc s =
     bind_run (ngx_nsoc_finalize_session (ce_log env)
                (if rc = NGX_ERROR then NGX_NSOC_INTERNAL_SERVER_ERROR else rc) s) (\<lambda>_ s1. Ret Stop s1)"

definition generic_verdict ::
  "('w, 'h, 'k) core_env \<Rightarrow> ('w, 'h, 'k) handler \<Rightarrow> ('w, 'h, 'k) sess \<Rightarrow> (verdict, ('w, 'h, 'k) sess) run" where
  "generic_verdict env h s =
     bind_run (h s)
       (\<lambda>rc s1. if rc = NGX_OK then Ret Next_phase s1
                else if rc = NGX_DECLINED then Ret Next_handler s1
                else if rc \<in> {NGX_AGAIN, NGX_DONE} then Ret Stop s1
                else end_session env rc s1)"

definition preread_verdict ::
  "nat \<Rightarrow> ('w, 'h, 'k) core_env \<Rightarrow> ('w, 'h, 'k) handler \<Rightarrow> ('w, 'h, 'k) sess \<Rightarrow>
   (verdict, ('w, 'h, 'k) sess) run" where
  "preread_verdict pf env h s =
     bind_run (preread_start h s)
       (\<lambda>rc s1. bind_run (preread_loop pf env h rc s1)
         (\<lambda>r s2. case r of
            Inl _ \<Rightarrow> Ret Stop s2
          | Inr rc \<Rightarrow>
              (let s3 = (if ev_timer_set (se_read s2)
                         then upd_sock (upd_read (ngx_del_timer (ce_nginx env))) s2 else s2)
               in if rc = NGX_OK then Ret Next_phase s3
                  else if rc = NGX_DECLINED then Ret Next_handler s3
                  else if rc = NGX_DONE then Ret Stop s3
                  else end_session env rc s3)))"

definition verdict_of ::
  "nat \<Rightarrow> ('w, 'h, 'k) core_env \<Rightarrow> ngx_nsoc_phases \<Rightarrow> ('w, 'h, 'k) handler \<Rightarrow> ('w, 'h, 'k) sess \<Rightarrow>
   (verdict, ('w, 'h, 'k) sess) run" where
  "verdict_of pf env p h s =
     (if p = NGX_NSOC_PREREAD_PHASE then preread_verdict pf env h s else generic_verdict env h s)"

fun forget :: "('a, ('w, 'h, 'k) engine) run \<Rightarrow> (unit, ('w, 'h, 'k) sess) run" where
  "forget (Ret a e) = Ret () (session e)"
| "forget (Crash x) = Crash x"
| "forget Diverge = Diverge"

definition content_spec ::
  "('w, 'h, 'k) core_env \<Rightarrow> ('w, 'h, 'k) sess \<Rightarrow> (unit, ('w, 'h, 'k) sess) run" where
  "content_spec env s = forget (ngx_nsoc_core_content_phase env \<lparr>phase_handler = 0, session = s\<rparr>)"

function phases_spec ::
  "nat \<Rightarrow> ('w, 'h, 'k) core_env \<Rightarrow> (ngx_nsoc_phases \<times> ('w, 'h, 'k) handler list) list \<Rightarrow>
   ('w, 'h, 'k) sess \<Rightarrow> (unit, ('w, 'h, 'k) sess) run" where
  "phases_spec pf env [] s = Ret () s"
| "phases_spec pf env ((p, hs) # todo) s =
     (if p = NGX_NSOC_CONTENT_PHASE then content_spec env s
      else case hs of
             [] \<Rightarrow> phases_spec pf env todo s
           | h # hs' \<Rightarrow>
               bind_run (verdict_of pf env p h s)
                 (\<lambda>v s1. case v of
                    Next_phase \<Rightarrow> phases_spec pf env todo s1
                  | Next_handler \<Rightarrow> phases_spec pf env ((p, hs') # todo) s1
                  | Stop \<Rightarrow> Ret () s1))"
  by pat_completeness auto
termination
  by (relation "measure (\<lambda>(pf, env, todo, s). sum_list (map (\<lambda>(p, hs). Suc (length hs)) todo))") auto

declare phases_spec.simps [simp del]
declare call_checker.simps [simp del]

lemma content_phase_keeps_index:
  "ngx_nsoc_core_content_phase env e =
     (case content_spec env (session e) of
        Ret _ s \<Rightarrow> Ret NGX_OK (e\<lparr>session := s\<rparr>) | Crash x \<Rightarrow> Crash x | Diverge \<Rightarrow> Diverge)"
  by (simp add: content_spec_def ngx_nsoc_core_content_phase_def on_session_def Let_def split_beta
      split: option.splits run.splits)

definition handler_entry :: "ngx_nsoc_phases \<Rightarrow> nat \<Rightarrow> 'f \<Rightarrow> 'f phase_handler_t" where
  "handler_entry p nx h =
     \<lparr>ph_checker = (if p = NGX_NSOC_PREREAD_PHASE then Preread_phase else Generic_phase),
      ph_handler = Some h, ph_next = nx\<rparr>"

lemma call_checker_verdict:
  assumes "p \<noteq> NGX_NSOC_CONTENT_PHASE"
  shows "call_checker pf env (handler_entry p nx h) e =
     (case verdict_of pf env p h (session e) of
        Ret v s \<Rightarrow> (case v of
            Next_phase \<Rightarrow> Ret NGX_AGAIN \<lparr>phase_handler = nx, session = s\<rparr>
          | Next_handler \<Rightarrow> Ret NGX_AGAIN \<lparr>phase_handler = Suc (phase_handler e), session = s\<rparr>
          | Stop \<Rightarrow> Ret NGX_OK \<lparr>phase_handler = phase_handler e, session = s\<rparr>)
      | Crash x \<Rightarrow> Crash x | Diverge \<Rightarrow> Diverge)"
proof (cases "p = NGX_NSOC_PREREAD_PHASE")
  case True
  then show ?thesis
    by (cases e; cases "preread_start h (session e)")
      (auto simp: call_checker.simps handler_entry_def verdict_of_def preread_verdict_def end_session_def
        ngx_nsoc_core_preread_phase_def on_session_def Let_def split: run.splits sum.splits)
next
  case False
  then show ?thesis
    by (cases e; cases "h (session e)")
      (auto simp: call_checker.simps handler_entry_def verdict_of_def generic_verdict_def end_session_def
        ngx_nsoc_core_generic_phase_def on_session_def split: run.splits)
qed

text \<open>The part of the table that belongs to the handlers still to be asked.\<close>

fun entries_of ::
  "nat \<Rightarrow> (ngx_nsoc_phases \<times> 'f list) list \<Rightarrow> 'f phase_handler_t list" where
  "entries_of n [] = []"
| "entries_of n ((p, hs) # todo) =
     (if p = NGX_NSOC_CONTENT_PHASE
      then \<lparr>ph_checker = Content_phase, ph_handler = None, ph_next = 0\<rparr> # entries_of (Suc n) todo
      else map (handler_entry p (n + length hs)) hs @ entries_of (n + length hs) todo)"

lemma phase_entries_eq: "phase_entries hs n ps = entries_of n (map (\<lambda>p. (p, rev (hs p))) ps)"
  by (induction ps arbitrary: n) (simp_all add: Let_def handler_entry_def [abs_def])

lemma run_phases_spec:
  assumes "t = pre @ entries_of (length pre) todo" and "fuel > length (entries_of (length pre) todo)"
  shows "forget (ngx_nsoc_core_run_phases fuel pf env t \<lparr>phase_handler = length pre, session = s\<rparr>)
       = phases_spec pf env todo s"
  using assms
proof (induction pf env todo s arbitrary: pre fuel rule: phases_spec.induct)
  case (1 pf env s)
  then show ?case by (cases fuel) (simp_all add: phases_spec.simps)
next
  case (2 pf env p hs todo s)
  obtain f where fuel: "fuel = Suc f" using "2.prems"(2) by (cases fuel) auto
  consider (content) "p = NGX_NSOC_CONTENT_PHASE"
    | (empty) "p \<noteq> NGX_NSOC_CONTENT_PHASE" "hs = []"
    | (handler) h hs' where "p \<noteq> NGX_NSOC_CONTENT_PHASE" "hs = h # hs'"
    by (cases hs) auto
  then show ?case
  proof cases
    case content
    with "2.prems" fuel show ?thesis
      by (simp add: phases_spec.simps call_checker.simps content_phase_keeps_index split: run.splits)
  next
    case empty
    with "2.prems" "2.IH"(1) show ?thesis by (simp add: phases_spec.simps)
  next
    case handler
    let ?nx = "length pre + length hs"
    let ?e = "handler_entry p ?nx"
    have t: "t = pre @ ?e h # map ?e hs' @ entries_of ?nx todo" using "2.prems"(1) handler by simp
    have f: "f > length hs' + length (entries_of ?nx todo)" using "2.prems"(2) handler fuel by simp
    have step: "ngx_nsoc_core_run_phases fuel pf env t \<lparr>phase_handler = length pre, session = s\<rparr> =
        bind_run (call_checker pf env (?e h) \<lparr>phase_handler = length pre, session = s\<rparr>)
          (\<lambda>rc e1. if rc = NGX_OK then Ret () e1 else ngx_nsoc_core_run_phases f pf env t e1)"
      by (simp add: fuel) (simp add: t)
    have phase: "forget (ngx_nsoc_core_run_phases f pf env t \<lparr>phase_handler = ?nx, session = s1\<rparr>)
        = phases_spec pf env todo s1" if "verdict_of pf env p h s = Ret Next_phase s1" for s1
    proof -
      have "t = (pre @ map ?e hs) @ entries_of (length (pre @ map ?e hs)) todo" using t handler by simp
      from "2.IH"(2) [OF handler that refl this, of f] f show ?thesis by simp
    qed
    have next_h: "forget (ngx_nsoc_core_run_phases f pf env t \<lparr>phase_handler = Suc (length pre), session = s1\<rparr>)
        = phases_spec pf env ((p, hs') # todo) s1" if "verdict_of pf env p h s = Ret Next_handler s1" for s1
    proof -
      have "t = (pre @ [?e h]) @ entries_of (length (pre @ [?e h])) ((p, hs') # todo)"
        using t handler by simp
      from "2.IH"(3) [OF handler that refl this, of f] f handler show ?thesis by simp
    qed
    from handler show ?thesis
      unfolding step
      by (subst call_checker_verdict)
        (auto simp: phases_spec.simps phase [unfolded handler(2), simplified] next_h split: run.splits verdict.splits)
  qed
qed

lemma entries_of_append:
  "entries_of n (as @ bs) = entries_of n as @ entries_of (n + length (entries_of n as)) bs"
  by (induction n as rule: entries_of.induct) (simp_all add: ac_simps)

lemma entries_of_drop:
  assumes "p \<noteq> NGX_NSOC_CONTENT_PHASE" and "j \<le> length hs"
  shows "entries_of n ((p, hs) # todo) =
    map (handler_entry p (n + length hs)) (take j hs) @ entries_of (n + j) ((p, drop j hs) # todo)"
  using assms by (simp flip: append_assoc map_append)

lemma length_entries_of:
  "NGX_NSOC_CONTENT_PHASE \<notin> fst ` set todo \<Longrightarrow>
   length (entries_of n todo) = sum_list (map (length \<circ> snd) todo)"
  by (induction n todo rule: entries_of.induct) auto

text \<open>
  C30: the engine asks the handlers in the right order. Started or resumed at the entry of the
  \<open>j\<close>-th handler of a phase, \<open>ngx_nsoc_core_run_phases\<close> over the table of
  \<open>ngx_nsoc_init_phase_handlers\<close> behaves as the specification without indices: the rest of
  the phase's handlers, last registered first, then the later phases, up to the content
  handler; and it comes to an end within one step per entry.
\<close>

theorem run_phases_refines_phases:
  assumes "ngx_nsoc_init_phase_handlers alloc hs = (NGX_OK, Some t)"
    and "phases_before_log = ps @ p # qs" and "p \<noteq> NGX_NSOC_CONTENT_PHASE" and "j \<le> length (hs p)"
    and "fuel > length t"
  shows "forget (ngx_nsoc_core_run_phases fuel pf env t
           \<lparr>phase_handler = sum_list (map (length \<circ> hs) ps) + j, session = s\<rparr>)
       = phases_spec pf env ((p, drop j (rev (hs p))) # map (\<lambda>q. (q, rev (hs q))) qs) s"
proof -
  let ?td = "\<lambda>ps. map (\<lambda>q. (q, rev (hs q))) ps"
  let ?pre = "entries_of 0 (?td ps)"
  let ?l = "map (handler_entry p (length ?pre + length (hs p))) (take j (rev (hs p)))"
  have "butlast phases_before_log = ps @ butlast (p # qs)"
    unfolding assms(2) by (simp add: butlast_append)
  moreover have "NGX_NSOC_CONTENT_PHASE \<notin> set (butlast phases_before_log)"
    by (simp add: phases_before_log_def)
  ultimately have "NGX_NSOC_CONTENT_PHASE \<notin> set ps" by simp
  then have pre: "length ?pre = sum_list (map (length \<circ> hs) ps)"
    by (subst length_entries_of) (auto simp: o_def)
  from assms(1) have "t = entries_of 0 (?td ps @ (p, rev (hs p)) # ?td qs)"
    by (simp add: ngx_nsoc_init_phase_handlers_def phase_entries_eq assms(2) split: if_splits)
  then have "t = ?pre @ entries_of (length ?pre) ((p, rev (hs p)) # ?td qs)"
    by (simp add: entries_of_append)
  also have "\<dots> = (?pre @ ?l) @ entries_of (length ?pre + j) ((p, drop j (rev (hs p))) # ?td qs)"
    using entries_of_drop [OF assms(3), of j "rev (hs p)" "length ?pre" "?td qs"] assms(4) by simp
  finally have t: "t = (?pre @ ?l) @ entries_of (length ?pre + j) ((p, drop j (rev (hs p))) # ?td qs)" .
  have len: "length (?pre @ ?l) = length ?pre + j" using assms(4) by simp
  have "length t = length (?pre @ ?l) + length (entries_of (length ?pre + j) ((p, drop j (rev (hs p))) # ?td qs))"
    by (subst t) (rule length_append)
  with assms(5) have "fuel > length (entries_of (length ?pre + j) ((p, drop j (rev (hs p))) # ?td qs))"
    by linarith
  then have "forget (ngx_nsoc_core_run_phases fuel pf env t \<lparr>phase_handler = length (?pre @ ?l), session = s\<rparr>)
      = phases_spec pf env ((p, drop j (rev (hs p))) # ?td qs) s"
    using t by (intro run_phases_spec) (simp_all only: len)
  then show ?thesis unfolding len unfolding pre .
qed

text \<open>A server with one declining handler in the protect phase and a content handler.\<close>

definition demo_srv :: "(script, demo_hs, nat) core_srv_conf" where
  "demo_srv = \<lparr>cscf_handler = Some (\<lambda>s. Ret () (s\<lparr>se_status := NGX_NSOC_OK\<rparr>)),
     cscf_tcp_nodelay = Some False, nsoc_preread_buffer_size = Some 64, preread_timeout = Some 30000,
     error_log = Some 0, resolver_timeout = Some 30000, resolver = Some 0\<rparr>"

definition demo_env :: "(script, demo_hs, nat) core_env" where
  "demo_env = \<lparr>ce_nginx = script_nginx, ce_noise = demo_noise, ce_setsockopt = (\<lambda>i w. (True, w)),
     ce_log = [], ce_srv = demo_srv\<rparr>"

definition demo_sess :: "bool \<Rightarrow> (script, demo_hs, nat) sess" where
  "demo_sess noise =
     \<lparr>se_io = \<lparr>ss = \<lparr>s_client_noise_connection = None, s_server_noise_connection = None,
                     s_noise_on = noise\<rparr>,
               sock = plain_connection 1, smem = (\<lambda>_. []), net = script_world []\<rparr>,
      se_status = 0, se_buffer = None, se_stream = True, se_nodelay = NGX_TCP_NODELAY_UNSET,
      se_received = 0, se_closed = False\<rparr>"

definition demo_phases :: "int \<Rightarrow> ngx_nsoc_phases \<Rightarrow> (script, demo_hs, nat) handler list" where
  "demo_phases rc p = (if p = NGX_NSOC_PROTECT_PHASE then [\<lambda>s. Ret rc s] else [])"

lemma run_phases_refines_phases_witness:
  "\<exists>t. ngx_nsoc_init_phase_handlers True (demo_phases NGX_DECLINED) = (NGX_OK, Some t) \<and>
     forget (ngx_nsoc_core_run_phases 3 0 demo_env t \<lparr>phase_handler = 0, session = demo_sess False\<rparr>)
       = Ret () ((demo_sess False)\<lparr>se_status := NGX_NSOC_OK\<rparr>)"
proof -
  let ?t = "phase_entries (demo_phases NGX_DECLINED) 0 phases_before_log"
  have t: "ngx_nsoc_init_phase_handlers True (demo_phases NGX_DECLINED) = (NGX_OK, Some ?t)"
    by (simp add: ngx_nsoc_init_phase_handlers_def)
  have "forget (ngx_nsoc_core_run_phases 3 0 demo_env ?t
          \<lparr>phase_handler = sum_list (map (length \<circ> demo_phases NGX_DECLINED)
             [NGX_NSOC_POST_ACCEPT_PHASE, NGX_NSOC_PREACCESS_PHASE, NGX_NSOC_ACCESS_PHASE]) + 0,
           session = demo_sess False\<rparr>)
       = phases_spec 0 demo_env ((NGX_NSOC_PROTECT_PHASE, drop 0 (rev (demo_phases NGX_DECLINED NGX_NSOC_PROTECT_PHASE)))
           # map (\<lambda>q. (q, rev (demo_phases NGX_DECLINED q))) [NGX_NSOC_PREREAD_PHASE, NGX_NSOC_CONTENT_PHASE])
           (demo_sess False)"
    by (rule run_phases_refines_phases [OF t])
      (simp_all add: phases_before_log_def demo_phases_def)
  then show ?thesis
    using t by (simp add: demo_phases_def phases_spec.simps verdict_of_def generic_verdict_def
        content_spec_def ngx_nsoc_core_content_phase_def on_session_def demo_env_def demo_srv_def demo_sess_def)
qed

section \<open>Closing\<close>

text \<open>What a log handler may do: neither touch the sockets nor close the session.\<close>

definition log_contract :: "('w, 'h, 'k) handler \<Rightarrow> bool" where
  "log_contract h \<longleftrightarrow> (\<forall>s. \<exists>rc t. h s = Ret rc t \<and> se_io t = se_io s \<and> se_closed t = se_closed s
     \<and> se_status t = se_status s)"

lemma log_session_keeps:
  assumes "\<forall>h \<in> set logs. log_contract h"
  shows "\<exists>t. ngx_nsoc_log_session logs s = Ret () t \<and> se_io t = se_io s \<and> se_closed t = se_closed s
    \<and> se_status t = se_status s"
  using assms
proof (induction logs arbitrary: s)
  case (Cons h logs)
  then obtain rc u where "h s = Ret rc u" "se_io u = se_io s" "se_closed u = se_closed s"
      "se_status u = se_status s"
    unfolding log_contract_def by (meson list.set_intros(1))
  with Cons.IH [of u] Cons.prems show ?case by simp
qed simp

text \<open>
  The end of a session. \<open>ngx_nsoc_finalize_session\<close> returns with the status recorded, and
  the connection is closed exactly when noise is off or the client's socket belongs to one of
  the session's noise connections.
\<close>

theorem finalize_session_closes_iff:
  assumes "\<forall>h \<in> set logs. log_contract h" and "\<not> se_closed s"
  shows "\<exists>t. ngx_nsoc_finalize_session logs rc s = Ret () t \<and> se_status t = rc \<and>
    (se_closed t \<longleftrightarrow> \<not> s_noise_on (ss (se_io s)) \<or> nc_side (ss (se_io s)) (c_id (sock (se_io s))) \<noteq> None)"
proof -
  obtain u where "ngx_nsoc_log_session logs (s\<lparr>se_status := rc\<rparr>) = Ret () u" "se_io u = se_io s"
      "se_closed u = se_closed s" "se_status u = rc"
    using log_session_keeps [OF assms(1), of "s\<lparr>se_status := rc\<rparr>"] by auto
  with assms(2) show ?thesis
    by (auto simp: ngx_nsoc_finalize_session_def ngx_nsoc_close_connection_def ngx_nsoc_shutdown_def
        split: option.splits)
qed

lemma finalize_session_closes_iff_witness:
  "\<exists>t. ngx_nsoc_finalize_session [] NGX_NSOC_OK (demo_sess False) = Ret () t \<and> se_closed t"
  using finalize_session_closes_iff [of "[]" "demo_sess False" NGX_NSOC_OK]
  by (auto simp: demo_sess_def)

text \<open>
  A connection is left open. When a handler that runs before the handshake refuses a noise
  session (its server noise connection does not exist yet), the engine returns, the status is
  500, and nothing closes the socket: no handler of the session runs again for it.
\<close>

theorem early_refusal_leaks_connection:
  assumes "ngx_nsoc_init_phase_handlers True hs = (NGX_OK, Some t)"
    and "hs NGX_NSOC_POST_ACCEPT_PHASE = [\<lambda>s. Ret NGX_ERROR s]" and "ce_log env = []"
    and "s_noise_on (ss (se_io s))" and "s_client_noise_connection (ss (se_io s)) = None"
    and "s_server_noise_connection (ss (se_io s)) = None"
  shows "ngx_nsoc_session_handler (Suc fuel) pf env t \<lparr>phase_handler = 0, session = s\<rparr>
       = Ret () \<lparr>phase_handler = 0, session = s\<lparr>se_status := NGX_NSOC_INTERNAL_SERVER_ERROR\<rparr>\<rparr>"
proof -
  from assms(1,2) obtain rest where "t = \<lparr>ph_checker = Generic_phase,
      ph_handler = Some (\<lambda>s. Ret NGX_ERROR s), ph_next = 1\<rparr> # rest"
    by (auto simp: ngx_nsoc_init_phase_handlers_def phases_before_log_def Let_def)
  with assms(3-6) show ?thesis
    by (simp add: ngx_nsoc_session_handler_def call_checker.simps ngx_nsoc_core_generic_phase_def
        on_session_def ngx_nsoc_finalize_session_def ngx_nsoc_close_connection_def nc_side_def)
qed

lemma early_refusal_leaks_connection_witness:
  "\<exists>t. ngx_nsoc_init_phase_handlers True (\<lambda>p. [\<lambda>s. Ret NGX_ERROR s]) = (NGX_OK, Some t) \<and>
     ngx_nsoc_session_handler 1 0 demo_env t \<lparr>phase_handler = 0, session = demo_sess True\<rparr> =
       Ret () \<lparr>phase_handler = 0, session = (demo_sess True)\<lparr>se_status := NGX_NSOC_INTERNAL_SERVER_ERROR\<rparr>\<rparr>"
  using early_refusal_leaks_connection [of "\<lambda>p. [\<lambda>s. Ret NGX_ERROR s]"
      "phase_entries (\<lambda>p. [\<lambda>s. Ret NGX_ERROR s]) 0 phases_before_log" demo_env "demo_sess True" 0 0]
  by (simp add: ngx_nsoc_init_phase_handlers_def demo_env_def demo_sess_def)

section \<open>Prereading an encrypted session\<close>

text \<open>A session whose handshake is over, with one frame that carries \<open>pl\<close> on the wire.\<close>

definition demo_frame :: "byte list \<Rightarrow> byte list" where
  "demo_frame pl = be16 (length pl + 18) @ be16 (length pl) @ pl @ replicate 16 0"

definition demo_conn :: "(demo_hs, nat) ngx_noise_connection" where
  "demo_conn =
     (fresh_nc \<lparr>noise_ctx_p = None, noise_prologue = \<lparr>strPrologue = [], header_len = 0,
        header = \<lparr>version_id = 0, dh_id = 0, cipher_id = 0, hash_id = 0, pattern_id = 0\<rparr>\<rparr>,
        noise_buffer_size = 64, noise_handshake_timeout = 60000\<rparr> 1 False NGX_NSOC_SERVER_ROLE)
       \<lparr>nc_handshaked := True,
        nc_noise_connection := empty_npc\<lparr>NoiseRecvCipherObj := Some 0, NoiseSendCipherObj := Some 0\<rparr>\<rparr>"

definition demo_noise_sess :: "byte list \<Rightarrow> (script, demo_hs, nat) sess" where
  "demo_noise_sess pl =
     (demo_sess True)\<lparr>se_io :=
        \<lparr>ss = \<lparr>s_client_noise_connection = None, s_server_noise_connection = Some demo_conn, s_noise_on = True\<rparr>,
         sock = (plain_connection 1)\<lparr>c_recv := Io_nsoc\<rparr>, smem = (\<lambda>_. []),
         net = script_world [demo_frame pl]\<rparr>\<rparr>"

text \<open>What a preread handler finds between \<open>pos\<close> and \<open>last\<close> of the buffer.\<close>

fun preread_view :: "('a, ('w, 'h, 'k) sess) run \<Rightarrow> byte list option" where
  "preread_view (Ret a s) =
     (case se_buffer s of
        None \<Rightarrow> None
      | Some b \<Rightarrow> Some (take (cb_last b - cb_pos b) (drop (cb_pos b) (smem (se_io s) (cb_region b)))))"
| "preread_view (Crash e) = None"
| "preread_view Diverge = None"

lemma demo_frame_received:
  "\<exists>t. ngx_nsoc_recv script_nginx demo_noise (Some (preread_region, 0)) 64
      ((se_io (demo_noise_sess [1, 2, 3, 4, 5]))\<lparr>smem := (\<lambda>_. [])(preread_region := replicate 64 0)\<rparr>) = Ret 5 t
    \<and> take 5 (smem t preread_region) = [0, 0, 0, 5, 1]"
  by (simp add: ngx_nsoc_recv_def with_nc_def nc_side_def demo_noise_sess_def demo_sess_def demo_conn_def
        recv_body_def recv_open_def ngx_nsoc_read_noise_msg_len_def read_len_field_def
        len_loop.simps recv_loop.simps recv_finish_def do_recv_def read_available_def
        script_nginx_def script_recv_def script_world_def plain_connection_def idle_event_def
        fresh_nc_def empty_npc_def mem_write_def mem_read_def preread_region_def
        demo_frame_def demo_noise_def Let_def plain_data_size_rd16 rd16_def be16_def)

text \<open>
  The preread phase hands an encrypted session's data over at the wrong place.
  \<open>ngx_nsoc_recv\<close> stores a payload four bytes behind the pointer it is given, and the preread
  loop, unlike the proxy, passes the end of the data and advances it by the payload's length:
  for the payload 1 2 3 4 5 the handler finds 0 0 0 5 1.
\<close>

theorem preread_shifts_payload:
  "preread_view (preread_loop 2 demo_env (\<lambda>s. Ret NGX_OK s) NGX_AGAIN (demo_noise_sess [1, 2, 3, 4, 5]))
     = Some [0, 0, 0, 5, 1]"
proof -
  obtain t where t: "ngx_nsoc_recv script_nginx demo_noise (Some (preread_region, 0)) 64
      ((se_io (demo_noise_sess [1, 2, 3, 4, 5]))\<lparr>smem := (\<lambda>_. [])(preread_region := replicate 64 0)\<rparr>) = Ret 5 t"
    and m: "take 5 (smem t preread_region) = [0, 0, 0, 5, 1]"
    using demo_frame_received by blast
  have "preread_loop 2 demo_env (\<lambda>s. Ret NGX_OK s) NGX_AGAIN (demo_noise_sess [1, 2, 3, 4, 5]) =
     Ret (Inr NGX_OK) ((demo_noise_sess [1, 2, 3, 4, 5])\<lparr>se_io := t, se_buffer :=
        Some \<lparr>cb_region = preread_region, cb_pos = 0, cb_last = 5, cb_end = 64\<rparr>\<rparr>)"
    using t by (simp add: numeral_2_eq_2 preread_buffer_def demo_env_def demo_srv_def conf_value_def
        on_io_def conn_recv_def demo_noise_sess_def demo_sess_def script_nginx_def Let_def
        plain_connection_def idle_event_def)
  with m show ?thesis by simp
qed

end
