(* ===== verification/Nsoc_Noiseserver.thy ===== *)
theory Nsoc_Noiseserver
  imports Nsoc_Session
begin

text \<open>
  Model of \<open>src/ngx_nsoc_noiseserver_module.c\<close>: the handler of the protect phase, which loads the
  server's keys on first use and runs the handshake with the client, the handler called when
  a waiting handshake is over, and the module's configuration.
\<close>

section \<open>Configuration\<close>

text \<open>A string that was not configured has a null pointer; here it is \<open>None\<close>.\<close>

record noiseserver_conf =
  nsc_handshake_timeout :: "nat option"
  nsc_noise :: "ngx_noise option"
  server_private_key_file :: "string option"
  client_public_key_file :: "string option"

definition ngx_nsoc_noiseserver_create_conf :: "bool \<Rightarrow> noiseserver_conf option" where
  "ngx_nsoc_noiseserver_create_conf alloc =
     (if alloc
      then Some \<lparr>nsc_handshake_timeout = None, nsc_noise = None, server_private_key_file = None,
                 client_public_key_file = None\<rparr>
      else None)"

text \<open>
  The merged configuration owns a new noise context. \<open>psize\<close> is the preread buffer size of
  the server's core configuration, \<open>cln\<close> tells whether the pool clean-up could be registered.
\<close>

definition zero_noise :: ngx_noise where
  "zero_noise = \<lparr>noise_ctx_p = None,
     noise_prologue = \<lparr>strPrologue = replicate 16 0, header_len = 0,
       header = \<lparr>version_id = 0, dh_id = 0, cipher_id = 0, hash_id = 0, pattern_id = 0\<rparr>\<rparr>,
     noise_buffer_size = 0, noise_handshake_timeout = 0\<rparr>"

definition prologue_text :: "byte list" where
  "prologue_text = map (\<lambda>c. word_of_nat (of_char c)) ''NoiseSocketInit1''"

definition ngx_nsoc_noiseserver_merge_conf ::
  "'w nginx \<Rightarrow> bool \<Rightarrow> nat option \<Rightarrow> noiseserver_conf \<Rightarrow> noiseserver_conf \<Rightarrow> 'w \<Rightarrow>
   noiseserver_conf option \<times> 'w" where
  "ngx_nsoc_noiseserver_merge_conf N cln psize prev conf w =
     (let conf1 = conf\<lparr>nsc_handshake_timeout :=
              merge_value (nsc_handshake_timeout conf) (nsc_handshake_timeout prev) 60000,
            server_private_key_file :=
              merge_value (server_private_key_file conf) (server_private_key_file prev) [],
            client_public_key_file :=
              merge_value (client_public_key_file conf) (client_public_key_file prev) []\<rparr>;
          (m, w1) = ngx_palloc N 1 w
      in case m of
           None \<Rightarrow> (None, w1)
         | Some _ \<Rightarrow>
             (let noise = zero_noise\<lparr>noise_handshake_timeout := conf_value (nsc_handshake_timeout conf1),
                    noise_prologue := (noise_prologue zero_noise)
                      \<lparr>strPrologue := prologue_text,
                       header_len := swapw (word_of_nat NGX_NSOC_1MSG_NEG_DATA_SIZE)\<rparr>\<rparr>;
                  (rc, noise1, w2) = ngx_nsoc_create N (conf_value psize) noise w1
              in if rc \<noteq> NGX_OK then (None, w2)
                 else if \<not> cln then (None, w2)
                 else (Some (conf1\<lparr>nsc_noise := Some noise1\<rparr>), w2)))"

text \<open>The module's handler is appended to those of the protect phase.\<close>

definition ngx_nsoc_noiseserver_init ::
  "bool \<Rightarrow> 'f \<Rightarrow> (ngx_nsoc_phases \<Rightarrow> 'f list) \<Rightarrow> int \<times> (ngx_nsoc_phases \<Rightarrow> 'f list)" where
  "ngx_nsoc_noiseserver_init alloc handler phases =
     (if alloc then (NGX_OK, phases(NGX_NSOC_PROTECT_PHASE := phases NGX_NSOC_PROTECT_PHASE @ [handler]))
      else (NGX_ERROR, phases))"

section \<open>Keys\<close>

text \<open>
  A key array of one element. \<open>place\<close> is where the allocator puts the key and what follows the
  array in the pool. The array pointer is used without a test; the key's memory is written by
  the loader once the file is open. The result is the array, or \<open>None\<close> when the loader fails.
\<close>

definition load_key ::
  "(byte list option \<Rightarrow> nat \<Rightarrow> byte list \<Rightarrow> int \<times> byte list) \<Rightarrow> 'w nginx \<Rightarrow> 64 word \<times> byte list \<Rightarrow>
   byte list option \<Rightarrow> 'w \<Rightarrow> (ngx_str_array option, 'w) run" where
  "load_key loader N place file w =
     (let (a, w1) = ngx_palloc N 16 w; (m, w2) = ngx_palloc N NOISE_PROTOCOL_CURVE25519_KEY_LEN w1
      in if a = None then Crash Null_deref
         else case m of
                None \<Rightarrow> if file = None then Ret None w2 else Crash Null_deref
              | Some m \<Rightarrow>
                  (let (rc, key) = loader file NOISE_PROTOCOL_CURVE25519_KEY_LEN m
                   in if rc \<noteq> NGX_OK then Ret None w2
                      else Ret (Some \<lparr>arr_strs = [\<lparr>str_len = word_of_nat NOISE_PROTOCOL_CURVE25519_KEY_LEN,
                                                   str_ptr = fst place, str_data = key\<rparr>],
                                      arr_slack = snd place\<rparr>) w2))"

definition load_private ::
  "'w nginx \<Rightarrow> (string \<Rightarrow> byte list option) \<Rightarrow> 64 word \<times> byte list \<Rightarrow> string option \<Rightarrow> noise_ctx \<Rightarrow> 'w \<Rightarrow>
   (noise_ctx option, 'w) run" where
  "load_private N files place name ctx w =
     (if private_keys ctx \<noteq> None then Ret (Some ctx) w
      else case name of
             None \<Rightarrow> Ret None w
           | Some [] \<Rightarrow> Ret None w
           | Some f \<Rightarrow>
               bind_run (load_key ngx_noise_protocol_load_private_key N place (files f) w)
                 (\<lambda>k w1. Ret (map_option (\<lambda>k. ctx\<lparr>private_keys := Some k\<rparr>) k) w1))"

definition load_public ::
  "'w nginx \<Rightarrow> (string \<Rightarrow> byte list option) \<Rightarrow> 64 word \<times> byte list \<Rightarrow> string option \<Rightarrow> noise_ctx \<Rightarrow> 'w \<Rightarrow>
   (noise_ctx option, 'w) run" where
  "load_public N files place name ctx w =
     (if public_keys ctx \<noteq> None then Ret (Some ctx) w
      else case name of
             None \<Rightarrow> Ret (Some ctx) w
           | Some [] \<Rightarrow> Ret (Some ctx) w
           | Some f \<Rightarrow>
               bind_run (load_key ngx_noise_protocol_load_public_key N place (files f) w)
                 (\<lambda>k w1. Ret (map_option (\<lambda>k. ctx\<lparr>public_keys := Some k\<rparr>) k) w1))"

section \<open>The handlers\<close>

text \<open>The session and the server configuration, whose key context the handler fills.\<close>

record ('w, 'h, 'k) nserv =
  nv_sess :: "('w, 'h, 'k) sess"
  nv_conf :: noiseserver_conf

abbreviation server_nc where "server_nc s \<equiv> s_server_noise_connection (ss (se_io s))"

definition ngx_nsoc_noiseserver_init_connection ::
  "nat \<Rightarrow> 'w nginx \<Rightarrow> ('h, 'k) noise_c \<Rightarrow> ngx_noise \<Rightarrow> ('w, 'h, 'k) handler" where
  "ngx_nsoc_noiseserver_init_connection fuel N X noise s =
     (let (rc, ss', w) = ngx_nsoc_create_connection N noise (c_id (sock (se_io s))) False False
                           (ss (se_io s)) (net (se_io s));
          s1 = upd_io (\<lambda>t. t\<lparr>ss := ss', net := w\<rparr>) s
      in if rc = NGX_ERROR then Ret NGX_ERROR s1
         else
           bind_run (on_io (ngx_nsoc_handshake fuel N X) s1)
             (\<lambda>rc s2.
                if rc = NGX_ERROR then Ret NGX_ERROR s2
                else if rc = NGX_AGAIN then
                  (case server_nc s2 of
                     None \<Rightarrow> Crash Null_deref
                   | Some x \<Rightarrow>
                       Ret NGX_AGAIN (upd_io (\<lambda>t. t\<lparr>ss := (ss t)\<lparr>s_server_noise_connection :=
                          Some (x\<lparr>nc_handler := CH_noiseserver\<rparr>)\<rparr>\<rparr>) s2))
                else Ret NGX_OK s2))"

definition set_ctx :: "noise_ctx \<Rightarrow> 'w \<Rightarrow> ('w, 'h, 'k) nserv \<Rightarrow> ('w, 'h, 'k) nserv" where
  "set_ctx ctx w v = v\<lparr>nv_sess := upd_io (\<lambda>t. t\<lparr>net := w\<rparr>) (nv_sess v),
     nv_conf := (nv_conf v)\<lparr>nsc_noise := map_option (\<lambda>n. n\<lparr>noise_ctx_p := Some ctx\<rparr>) (nsc_noise (nv_conf v))\<rparr>\<rparr>"

definition set_net :: "'w \<Rightarrow> ('w, 'h, 'k) nserv \<Rightarrow> ('w, 'h, 'k) nserv" where
  "set_net w v = v\<lparr>nv_sess := upd_io (\<lambda>t. t\<lparr>net := w\<rparr>) (nv_sess v)\<rparr>"

text \<open>One key: the context is updated, or the answer is \<open>NGX_ERROR\<close>.\<close>

definition with_key ::
  "(noise_ctx \<Rightarrow> 'w \<Rightarrow> (noise_ctx option, 'w) run) \<Rightarrow> noise_ctx \<Rightarrow> ('w, 'h, 'k) nserv \<Rightarrow>
   (noise_ctx \<Rightarrow> ('w, 'h, 'k) nserv \<Rightarrow> (int, ('w, 'h, 'k) nserv) run) \<Rightarrow> (int, ('w, 'h, 'k) nserv) run" where
  "with_key load ctx v k =
     (case load ctx (net (se_io (nv_sess v))) of
        Ret None w \<Rightarrow> Ret NGX_ERROR (set_net w v)
      | Ret (Some ctx') w \<Rightarrow> k ctx' (set_ctx ctx' w v)
      | Crash e \<Rightarrow> Crash e
      | Diverge \<Rightarrow> Diverge)"

definition ngx_nsoc_noiseserver_handler ::
  "nat \<Rightarrow> 'w nginx \<Rightarrow> ('h, 'k) noise_c \<Rightarrow> (string \<Rightarrow> byte list option) \<Rightarrow> 64 word \<times> byte list \<Rightarrow>
   ('w, 'h, 'k) nserv \<Rightarrow> (int, ('w, 'h, 'k) nserv) run" where
  "ngx_nsoc_noiseserver_handler fuel N X files place v =
     (if \<not> s_noise_on (ss (se_io (nv_sess v))) then Ret NGX_OK v
      else case nsc_noise (nv_conf v) of
             None \<Rightarrow> Crash Null_deref
           | Some noise \<Rightarrow>
               (case noise_ctx_p noise of
                  None \<Rightarrow> Crash Null_deref
                | Some ctx \<Rightarrow>
                    with_key (load_private N files place (server_private_key_file (nv_conf v))) ctx v
                      (\<lambda>ctx1 v1.
                         with_key (load_public N files place (client_public_key_file (nv_conf v1))) ctx1 v1
                           (\<lambda>ctx2 v2.
                              if server_nc (nv_sess v2) \<noteq> None then Ret NGX_OK v2
                              else case ngx_nsoc_noiseserver_init_connection fuel N X
                                          (noise\<lparr>noise_ctx_p := Some ctx2\<rparr>) (nv_sess v2) of
                                     Ret rc s \<Rightarrow> Ret rc (v2\<lparr>nv_sess := s\<rparr>)
                                   | Crash e \<Rightarrow> Crash e
                                   | Diverge \<Rightarrow> Diverge))))"

text \<open>As a handler of the protect phase, for a session of a server with configuration \<open>conf\<close>.\<close>

definition protect_handler ::
  "nat \<Rightarrow> 'w nginx \<Rightarrow> ('h, 'k) noise_c \<Rightarrow> (string \<Rightarrow> byte list option) \<Rightarrow> 64 word \<times> byte list \<Rightarrow>
   noiseserver_conf \<Rightarrow> ('w, 'h, 'k) handler" where
  "protect_handler fuel N X files place conf s =
     (case ngx_nsoc_noiseserver_handler fuel N X files place \<lparr>nv_sess = s, nv_conf = conf\<rparr> of
        Ret rc v \<Rightarrow> Ret rc (nv_sess v)
      | Crash e \<Rightarrow> Crash e
      | Diverge \<Rightarrow> Diverge)"

text \<open>The handshake that had to wait is over: the session goes on, or ends.\<close>

definition ngx_nsoc_noiseserver_handshake_handler ::
  "nat \<Rightarrow> nat \<Rightarrow> ('w, 'h, 'k) core_env \<Rightarrow> ('w, 'h, 'k) handler phase_handler_t list \<Rightarrow>
   ('w, 'h, 'k) engine \<Rightarrow> (unit, ('w, 'h, 'k) engine) run" where
  "ngx_nsoc_noiseserver_handshake_handler fuel pf env t e =
     (case server_nc (session e) of
        None \<Rightarrow> Crash Null_deref
      | Some x \<Rightarrow>
          if \<not> nc_handshaked x then
            on_session (ngx_nsoc_finalize_session (ce_log env) NGX_NSOC_INTERNAL_SERVER_ERROR) e
          else
            (let s = session e;
                 s1 = (if ev_timer_set (se_read s)
                       then upd_sock (upd_read (ngx_del_timer (ce_nginx env))) s else s);
                 (rc, c, w) = ngx_handle_read_event (ce_nginx env) (sock (se_io s1)) (net (se_io s1));
                 e1 = e\<lparr>session := upd_io (\<lambda>t. t\<lparr>sock := c, net := w\<rparr>) s1\<rparr>
             in if rc \<noteq> NGX_OK then Ret () e1 else ngx_nsoc_core_run_phases fuel pf env t e1))"

section \<open>The codes a handshake can return\<close>

text \<open>
  The code of the library's message writer is handed through; every other code is one of
  \<open>NGX_OK\<close>, \<open>NGX_ERROR\<close> and \<open>NGX_AGAIN\<close>.
\<close>

definition write_error :: "('h, 'k) noise_c \<Rightarrow> int \<Rightarrow> bool" where
  "write_error X n \<longleftrightarrow> n \<noteq> NOISE_ERROR_NONE \<and> (\<exists>cap h. fst (hs_write_message X cap h) = n)"

abbreviation hs_code where
  "hs_code X n \<equiv> n = NGX_OK \<or> n = NGX_ERROR \<or> n = NGX_AGAIN \<or> write_error X n"

abbreviation neg_code :: "int \<Rightarrow> bool" where
  "neg_code n \<equiv> n < 0 \<longrightarrow> n = NGX_ERROR \<or> n = NGX_AGAIN"

lemma wait_read_codes: "yields (\<lambda>n. n = NGX_ERROR \<or> n = NGX_AGAIN) (wait_read N b s)"
  by (auto simp: wait_read_def Let_def split: prod.split)

lemma wait_read_neg_code: "yields neg_code (wait_read N b s)"
  using wait_read_codes [of N b s] by (cases "wait_read N b s") auto

lemma read_negotiation_neg_code: "yields neg_code (ngx_nsoc_read_negotiation fuel N len s)"
proof (induction fuel arbitrary: s len)
  case (Suc fuel)
  show ?case
    unfolding ngx_nsoc_read_negotiation.simps Let_def
    by (rule yields_bind) (auto intro!: wait_read_neg_code Suc)
qed simp

lemma read_noise_msg_neg_code: "yields neg_code (ngx_nsoc_read_noise_msg fuel N s)"
proof (induction fuel arbitrary: s)
  case (Suc fuel)
  show ?case
    unfolding ngx_nsoc_read_noise_msg.simps Let_def
    by (rule yields_bind) (auto intro!: wait_read_neg_code Suc)
qed simp

lemma read_neg_loop_codes:
  "yields (\<lambda>r. case r of Inl n \<Rightarrow> n = NGX_ERROR | Inr n \<Rightarrow> n = NGX_OK \<or> n = NGX_ERROR \<or> n = NGX_AGAIN)
     (read_neg_loop fuel N k s)"
proof (induction fuel arbitrary: k s)
  case (Suc fuel)
  let ?P = "\<lambda>r. case r of Inl n \<Rightarrow> n = NGX_ERROR | Inr n \<Rightarrow> n = NGX_OK \<or> n = NGX_ERROR \<or> n = NGX_AGAIN"
  have ag: "yields ?P (bind_run (ngx_nsoc_read_negotiation (Suc fuel) N sz s)
      (\<lambda>n s1. if n < 0 then Ret (Inr n) s1 else read_neg_loop fuel N sz s1))" for sz
    using yieldsD [OF read_negotiation_neg_code [of "Suc fuel" N sz s]]
    by (intro yields_bind) (auto simp: Suc simp del: ngx_nsoc_read_negotiation.simps)
  show ?case
    using ag [of "int NGX_NSOC_2MSG_NEG_DATA_OK_SIZE"] ag [of "int NGX_NSOC_3MSG_NEG_DATA_SIZE"] ag [of k]
    by (simp add: Let_def del: ngx_nsoc_read_negotiation.simps split: option.split)
qed simp

lemma read_message_codes:
  "yields (hs_code X) (ngx_nsoc_handshake_start_action_read_message fuel N X s)"
proof -
  have part: "yields (hs_code X) (read_noise_part X t)" for t
    by (auto simp: read_noise_part_def Let_def split: option.split prod.split)
  have msg: "yields (hs_code X) (bind_run (ngx_nsoc_read_noise_msg fuel N t)
      (\<lambda>n s2. if n < 0 then Ret n s2 else read_noise_part X s2))" for t
    using yieldsD [OF read_noise_msg_neg_code [of fuel N t]] part
    by (intro yields_bind) (auto simp del: ngx_nsoc_read_noise_msg.simps)
  show ?thesis
    unfolding ngx_nsoc_handshake_start_action_read_message_def
  proof (rule yields_bind)
    fix r t
    assume "read_neg_loop fuel N NGX_NSOC_SIZE_UNSET s = Ret r t"
    from yieldsD [OF read_neg_loop_codes this] msg [of "free_buf t"]
    show "yields (hs_code X) (case r of Inl n \<Rightarrow> Ret n t
        | Inr n \<Rightarrow> if n < 0 then Ret n (free_buf t)
            else bind_run (ngx_nsoc_read_noise_msg fuel N (free_buf t))
              (\<lambda>n s2. if n < 0 then Ret n s2 else read_noise_part X s2))"
      by (cases r) auto
  qed
qed

lemma write_noise_part_codes:
  "hs_obj t \<noteq> None \<Longrightarrow> yields (\<lambda>(n, b). hs_code X n) (write_noise_part X k m t)"
  by (auto simp: write_noise_part_def write_error_def Let_def split: option.split prod.split)
    (metis fst_conv)+

lemma write_message_codes:
  "nc_msg_num (nc s) = NGX_NSOC_2MSG_ERR \<or> hs_obj s \<noteq> None \<Longrightarrow>
   yields (\<lambda>(n, b). hs_code X n) (ngx_nsoc_handshake_start_action_write_message N X s)"
  by (auto simp: ngx_nsoc_handshake_start_action_write_message_def Let_def
      intro!: write_noise_part_codes split: option.split prod.split)

lemma send_handshake_msg_hs_codes:
  "yields (\<lambda>r. case r of Inl n \<Rightarrow> hs_code X n | Inr _ \<Rightarrow> True) (send_handshake_msg N b s)"
  by (auto simp: send_handshake_msg_def Let_def split: prod.split)

lemma after_write_codes:
  "yields (\<lambda>r. case r of Inl n \<Rightarrow> hs_code X n | Inr _ \<Rightarrow> True) (after_write N X' s)"
  by (auto simp: after_write_def Let_def split: prod.split)

lemma reject_version_hs_codes: "yields (hs_code X) (reject_version N X s)"
  unfolding reject_version_def
proof (rule yields_bind, clarify)
  fix n b t
  assume "ngx_nsoc_handshake_start_action_write_message N X (upd_nc (\<lambda>x. x\<lparr>nc_msg_num := NGX_NSOC_2MSG_ERR\<rparr>) s) = Ret (n, b) t"
  from yieldsD [OF write_message_codes this] have n: "hs_code X n" by auto
  have "yields (hs_code X) (bind_run (send_handshake_msg N c t)
      (\<lambda>r s2. Ret (case r of Inl n \<Rightarrow> n | Inr _ \<Rightarrow> NGX_ERROR) s2))" for c
    using yieldsD [OF send_handshake_msg_hs_codes, of N c t _ _ X]
    by (intro yields_bind) (fastforce split: sum.splits)
  with n show "yields (hs_code X) (if n \<noteq> NGX_OK then Ret n t
      else case b of None \<Rightarrow> Crash Uninitialised
           | Some b \<Rightarrow> bind_run (send_handshake_msg N b t)
               (\<lambda>r s2. Ret (case r of Inl n \<Rightarrow> n | Inr _ \<Rightarrow> NGX_ERROR) s2))"
    by (auto split: option.split)
qed

abbreviation step_code where
  "step_code X r \<equiv> (case r of Inl n \<Rightarrow> hs_code X n | Inr _ \<Rightarrow> True)"

lemma yields_sum_bind:
  assumes "yields (step_code X) r" and "\<And>t. yields (step_code X) (g t)"
  shows "yields (step_code X) (bind_run r (\<lambda>x s1. case x of Inl n \<Rightarrow> Ret (Inl n) s1 | Inr _ \<Rightarrow> g s1))"
  using assms by (cases r) (auto split: sum.split)

lemma write_action_codes:
  assumes "nc_last (nc s) = 0 \<Longrightarrow> hs_obj s \<noteq> None"
  shows "yields (step_code X) (write_action N X s)"
  unfolding write_action_def
proof (rule yields_bind, clarify)
  fix n b t
  assume r: "(if nc_last (nc s) = 0 then ngx_nsoc_handshake_start_action_write_message N X s
      else Ret (NGX_OK, nc_buf (nc s)) s) = Ret (n, b) t"
  have n: "hs_code X n"
  proof (cases "nc_last (nc s) = 0")
    case True
    with r assms have "ngx_nsoc_handshake_start_action_write_message N X s = Ret (n, b) t"
      "hs_obj s \<noteq> None" by simp_all
    with yieldsD [OF write_message_codes, of s N X "(n, b)" t] show ?thesis by simp
  qed (use r in simp)
  show "yields (step_code X) (if n \<noteq> NGX_OK then Ret (Inl n) t
      else case b of None \<Rightarrow> Crash Null_deref
           | Some b \<Rightarrow> bind_run (send_handshake_msg N b (upd_nc (\<lambda>x. x\<lparr>nc_last := 0\<rparr>) t))
               (\<lambda>r s2. case r of Inl n \<Rightarrow> Ret (Inl n) s2 | Inr _ \<Rightarrow> after_write N X s2))"
    using n by (auto intro!: yields_sum_bind send_handshake_msg_hs_codes after_write_codes split: option.split)
qed

lemma process_phase_codes: "yields (step_code X) (process_phase fuel N X s)"
proof -
  define a where "a = (if nc_last (nc s) \<noteq> 0 then nc_last (nc s) else get_action X s)"
  have w: "yields (step_code X) (write_action N X s)" if "a = NOISE_ACTION_WRITE_MESSAGE"
    using that by (intro write_action_codes) (auto simp: a_def get_action_def split: option.splits)
  have r: "yields (step_code X) (bind_run (ngx_nsoc_handshake_start_action_read_message fuel N X t)
      (\<lambda>n s1. Ret (if n \<noteq> NGX_OK then Inl n else Inr ()) s1))" for t
    using yieldsD [OF read_message_codes [of X fuel N t]] by (intro yields_bind) auto
  have sp: "yields (step_code X) (bind_run (process_split X s) (\<lambda>n s1. Ret (Inl n) s1))"
    by (auto simp: process_split_def Let_def split: option.split prod.split)
  show ?thesis
    unfolding process_phase_def Let_def a_def [symmetric]
    by (auto intro: w r sp)
qed

lemma none_phase_codes: "yields (step_code X) (none_phase fuel N X s)"
proof -
  have st: "yields (step_code X) (start_handshake X t)" for t
    by (auto simp: start_handshake_def Let_def split: run.split option.split prod.split)
  have rj: "yields (step_code X) (bind_run (reject_version N X t) (\<lambda>n s2. Ret (Inl n) s2))" for t
    using yieldsD [OF reject_version_hs_codes [of X N t]] by (intro yields_bind) auto
  show ?thesis
    unfolding none_phase_def
    using yieldsD [OF read_negotiation_neg_code [of fuel N "int NGX_NSOC_1MSG_NEG_DATA_SIZE" s]]
    by (auto intro!: yields_bind st rj simp del: ngx_nsoc_read_negotiation.simps split: option.split)
qed

lemma handshake_process_codes: "yields (hs_code X) (ngx_nsoc_do_handshake_process fuel N X s)"
proof (induction fuel arbitrary: s)
  case (Suc fuel)
  define r where "r = (case nc_handshake_phase (nc s) of
          NGX_NSOC_HANDSHAKE_NONE_PHASE \<Rightarrow>
            bind_run (none_phase (Suc fuel) N X s)
              (\<lambda>r s1. case r of Inl n \<Rightarrow> Ret (Inl n) s1 | Inr _ \<Rightarrow> process_phase (Suc fuel) N X s1)
        | NGX_NSOC_HANDSHAKE_PROCESS_PHASE \<Rightarrow> process_phase (Suc fuel) N X s
        | NGX_NSOC_HANDSHAKE_END_PHASE \<Rightarrow> Ret (Inr ()) s)"
  have "yields (step_code X) r"
    unfolding r_def
    by (auto intro!: yields_sum_bind none_phase_codes process_phase_codes split: ngx_noise_handshake_phase.split)
  then have "yields (hs_code X) (bind_run r (\<lambda>r s1. case r of Inl n \<Rightarrow> Ret n s1
      | Inr _ \<Rightarrow> ngx_nsoc_do_handshake_process fuel N X s1))"
    using Suc by (cases r) (auto split: sum.split)
  then show ?case by (simp only: ngx_nsoc_do_handshake_process.simps r_def)
qed simp

section \<open>The guard in front of the content handler\<close>

text \<open>
  What a phase engine may rely on when a handler guards a session: from a state of \<open>pre\<close> the
  handler never declines, and when it says \<open>NGX_OK\<close> the session is \<open>safe\<close>. Then the content
  handler runs on safe sessions only.
\<close>

locale session_guard =
  fixes h :: "('w, 'h, 'k) handler"
    and pre :: "('w, 'h, 'k) sess \<Rightarrow> bool"
    and safe :: "('w, 'h, 'k) sess \<Rightarrow> bool"
  assumes guard_ok: "pre s \<Longrightarrow> h s = Ret NGX_OK t \<Longrightarrow> safe t"
    and guard_no_decline: "pre s \<Longrightarrow> h s \<noteq> Ret NGX_DECLINED t"
begin

lemma guard_verdict:
  "pre s \<Longrightarrow> generic_verdict env h s = Ret v t \<Longrightarrow> v = Next_phase \<and> safe t \<or> v = Stop"
  using guard_ok guard_no_decline
  by (auto simp: generic_verdict_def end_session_def bind_run_Ret_iff split: if_splits)

lemma content_only_when_safe:
  assumes "pre s"
    and "phases_spec pf env [(NGX_NSOC_PROTECT_PHASE, [h]), (NGX_NSOC_PREREAD_PHASE, []),
           (NGX_NSOC_CONTENT_PHASE, hs)] s = Ret () t"
  shows "(\<exists>u. safe u \<and> content_spec env u = Ret () t) \<or> generic_verdict env h s = Ret Stop t"
proof -
  from assms(2) obtain v u where u: "generic_verdict env h s = Ret v u"
    and v: "(case v of
         Next_phase \<Rightarrow> phases_spec pf env [(NGX_NSOC_PREREAD_PHASE, []), (NGX_NSOC_CONTENT_PHASE, hs)] u
       | Next_handler \<Rightarrow> phases_spec pf env ((NGX_NSOC_PROTECT_PHASE, []) #
           [(NGX_NSOC_PREREAD_PHASE, []), (NGX_NSOC_CONTENT_PHASE, hs)]) u
       | Stop \<Rightarrow> Ret () u) = Ret () t"
    by (simp add: phases_spec.simps(2) [of _ _ NGX_NSOC_PROTECT_PHASE "[h]"] verdict_of_def bind_run_Ret_iff)
      blast
  from guard_verdict [OF assms(1) u] v u show ?thesis by (auto simp: phases_spec.simps)
qed

end

definition io_encrypted :: "ngx_connection \<Rightarrow> bool" where
  "io_encrypted c \<longleftrightarrow> c_recv c = Io_nsoc \<and> c_send c = Io_nsoc \<and> c_recv_chain c = Io_nsoc
     \<and> c_send_chain c = Io_nsoc"

definition sess_secured :: "('w, 'h, 'k) sess \<Rightarrow> bool" where
  "sess_secured s \<longleftrightarrow>
     (\<exists>x. server_nc s = Some x \<and> nc_handshaked x) \<and> io_encrypted (sock (se_io s))"

text \<open>
  Where a session of the guard starts: its socket is not that of the client noise connection, and a
  server noise connection that is there has been secured.
\<close>

definition client_elsewhere :: "('w, 'h, 'k) sess \<Rightarrow> bool" where
  "client_elsewhere s \<longleftrightarrow>
     pred_option (\<lambda>x. nc_connection x \<noteq> c_id (sock (se_io s))) (s_client_noise_connection (ss (se_io s)))"

definition protect_pre :: "('h, 'k) noise_c \<Rightarrow> ('w, 'h, 'k) sess \<Rightarrow> bool" where
  "protect_pre X s \<longleftrightarrow> (\<nexists>n. write_error X n) \<and>
     client_elsewhere s \<and>
     (server_nc s \<noteq> None \<longrightarrow> sess_secured s)"

definition protect_safe :: "('w, 'h, 'k) sess \<Rightarrow> bool" where
  "protect_safe s \<longleftrightarrow> (s_noise_on (ss (se_io s)) \<longrightarrow> sess_secured s)"

lemma fresh_nc_neg_ok: "neg_ok (fresh_nc noise cid b r)"
  by (simp add: neg_ok_def fresh_nc_def)

lemma server_handshake_outcome:
  assumes "on_io (ngx_nsoc_handshake fuel N X) s = Ret rc t"
    and "server_nc s = Some (fresh_nc noise (c_id (sock (se_io s))) b r)"
    and "client_elsewhere s"
  shows "hs_code X rc" and "rc = NGX_OK \<Longrightarrow> sess_secured t" and "server_nc t \<noteq> None"
proof -
  let ?x = "fresh_nc noise (c_id (sock (se_io s))) b r"
  let ?u = "\<lparr>nc = ?x, cn = sock (se_io s), heap = smem (se_io s), world = net (se_io s)\<rparr>"
  have "nc_side (ss (se_io s)) (c_id (sock (se_io s))) = Some Server_side"
    using assms(2,3) by (auto simp: client_elsewhere_def nc_side_def fresh_nc_def split: option.splits)
  then obtain u where u: "ngx_nsoc_do_handshake_process fuel N X ?u = Ret rc u"
    and t: "t = s\<lparr>se_io := \<lparr>ss = set_side_nc Server_side (nc u) (ss (se_io s)), sock = cn u,
                           smem = heap u, net = world u\<rparr>\<rparr>"
    using assms(1,2)
    by (auto simp: on_io_def ngx_nsoc_handshake_def with_nc_def split: run.splits)
  show "hs_code X rc" using yieldsD [OF handshake_process_codes u] .
  show "server_nc t \<noteq> None" using t by simp
  assume "rc = NGX_OK"
  with process_outcome [OF u] have "secured X u" by (simp add: fresh_nc_neg_ok)
  with t show "sess_secured t" by (simp add: sess_secured_def secured_def io_encrypted_def)
qed

lemma init_connection_guard:
  assumes "ngx_nsoc_noiseserver_init_connection fuel N X noise s = Ret rc t"
    and "\<nexists>n. write_error X n"
    and "client_elsewhere s"
  shows "(rc = NGX_OK \<and> sess_secured t) \<or> rc = NGX_ERROR \<or> rc = NGX_AGAIN"
proof -
  obtain rc0 ss' w where cr: "ngx_nsoc_create_connection N noise (c_id (sock (se_io s))) False False
      (ss (se_io s)) (net (se_io s)) = (rc0, ss', w)" by (rule prod_cases3)
  let ?s1 = "upd_io (\<lambda>t. t\<lparr>ss := ss', net := w\<rparr>) s"
  show ?thesis
  proof (cases "rc0 = NGX_ERROR")
    case True
    with assms(1) cr show ?thesis by (simp add: ngx_nsoc_noiseserver_init_connection_def)
  next
    case False
    with cr have s1: "server_nc ?s1 = Some (fresh_nc noise (c_id (sock (se_io ?s1))) False NGX_NSOC_SERVER_ROLE)"
      and cl: "s_client_noise_connection ss' = s_client_noise_connection (ss (se_io s))"
      by (auto simp: ngx_nsoc_create_connection_def Let_def split: prod.splits if_splits)
    from assms(1) cr False obtain n t1 where n: "on_io (ngx_nsoc_handshake fuel N X) ?s1 = Ret n t1"
      and rest: "(if n = NGX_ERROR then Ret NGX_ERROR t1
         else if n = NGX_AGAIN then
           (case server_nc t1 of
              None \<Rightarrow> Crash Null_deref
            | Some x \<Rightarrow> Ret NGX_AGAIN (upd_io (\<lambda>t. t\<lparr>ss := (ss t)\<lparr>s_server_noise_connection :=
                 Some (x\<lparr>nc_handler := CH_noiseserver\<rparr>)\<rparr>\<rparr>) t1))
         else Ret NGX_OK t1) = Ret rc t"
      by (auto simp: ngx_nsoc_noiseserver_init_connection_def Let_def bind_run_Ret_iff)
    have "client_elsewhere ?s1"
      using assms(3) cl by (simp add: client_elsewhere_def)
    from server_handshake_outcome(1,2) [OF n s1 this]
    have "hs_code X n" "n = NGX_OK \<Longrightarrow> sess_secured t1" by blast+
    with rest assms(2) show ?thesis by (auto split: if_splits option.splits)
  qed
qed

lemma with_key_keeps:
  assumes "with_key load ctx v k = Ret rc v'"
  obtains (failed) w where "rc = NGX_ERROR" "v' = set_net w v"
  | (loaded) ctx' w where "k ctx' (set_ctx ctx' w v) = Ret rc v'"
  using assms by (auto simp: with_key_def split: run.splits option.splits)

lemma set_ctx_simps [simp]:
  "nv_sess (set_ctx ctx w v) = upd_io (\<lambda>t. t\<lparr>net := w\<rparr>) (nv_sess v)"
  "nv_sess (set_net w v) = upd_io (\<lambda>t. t\<lparr>net := w\<rparr>) (nv_sess v)"
  by (simp_all add: set_ctx_def set_net_def)

lemma sess_secured_net [simp]:
  "sess_secured (s\<lparr>se_io := (se_io s)\<lparr>net := w\<rparr>\<rparr>) = sess_secured s"
  by (simp add: sess_secured_def)

lemma protect_handler_secures:
  assumes "protect_pre X s" and "s_noise_on (ss (se_io s))" and "protect_handler fuel N X files place conf s = Ret rc t"
  shows "(rc = NGX_OK \<and> sess_secured t) \<or> rc = NGX_ERROR \<or> rc = NGX_AGAIN"
proof -
  from assms(3) obtain v where v: "ngx_nsoc_noiseserver_handler fuel N X files place
      \<lparr>nv_sess = s, nv_conf = conf\<rparr> = Ret rc v" and t: "t = nv_sess v"
    by (auto simp: protect_handler_def split: run.splits)
  from v assms(2) obtain noise ctx where
    "with_key (load_private N files place (server_private_key_file conf)) ctx \<lparr>nv_sess = s, nv_conf = conf\<rparr>
       (\<lambda>ctx1 v1. with_key (load_public N files place (client_public_key_file (nv_conf v1))) ctx1 v1
          (\<lambda>ctx2 v2. if server_nc (nv_sess v2) \<noteq> None then Ret NGX_OK v2
             else case ngx_nsoc_noiseserver_init_connection fuel N X (noise\<lparr>noise_ctx_p := Some ctx2\<rparr>) (nv_sess v2) of
                    Ret rc s \<Rightarrow> Ret rc (v2\<lparr>nv_sess := s\<rparr>) | Crash e \<Rightarrow> Crash e | Diverge \<Rightarrow> Diverge)) = Ret rc v"
    by (auto simp: ngx_nsoc_noiseserver_handler_def split: option.splits)
  then show ?thesis
  proof (cases rule: with_key_keeps)
    case (loaded ctx1 w1)
    then show ?thesis
    proof (cases rule: with_key_keeps)
      case (loaded ctx2 w2)
      let ?s2 = "s\<lparr>se_io := (se_io s)\<lparr>net := w2\<rparr>\<rparr>"
      show ?thesis
      proof (cases "server_nc s = None")
        case False
        with loaded t assms(1) show ?thesis by (auto simp: protect_pre_def)
      next
        case None: True
        with loaded t have "ngx_nsoc_noiseserver_init_connection fuel N X
            (noise\<lparr>noise_ctx_p := Some ctx2\<rparr>) ?s2 = Ret rc t"
          by (auto split: run.splits)
        from init_connection_guard [OF this] assms(1) show ?thesis
          by (auto simp: protect_pre_def client_elsewhere_def)
      qed
    qed simp
  qed simp
qed

lemma protect_handler_guard:
  assumes "protect_pre X s" and "protect_handler fuel N X files place conf s = Ret rc t"
  shows "(rc = NGX_OK \<and> protect_safe t) \<or> rc = NGX_ERROR \<or> rc = NGX_AGAIN"
proof (cases "s_noise_on (ss (se_io s))")
  case False
  with assms(2) show ?thesis
    by (simp add: protect_handler_def ngx_nsoc_noiseserver_handler_def protect_safe_def)
next
  case True
  with protect_handler_secures [OF assms(1) _ assms(2)] show ?thesis by (auto simp: protect_safe_def)
qed

text \<open>The handler as a guard of any session, and of one that asks for noise.\<close>

interpretation protect: session_guard "protect_handler fuel N X files place conf" "protect_pre X" protect_safe
  for fuel N X files place conf
  by unfold_locales (use protect_handler_guard in fastforce)+

interpretation noise_protect: session_guard "protect_handler fuel N X files place conf"
  "\<lambda>s. protect_pre X s \<and> s_noise_on (ss (se_io s))" sess_secured
  for fuel N X files place conf
  by unfold_locales (use protect_handler_secures in fastforce)+

text \<open>A run of the engine, for the table with the module's handler.\<close>

lemma guarded_run:
  assumes "t = phase_entries ((\<lambda>_. [])(NGX_NSOC_PROTECT_PHASE := [protect_handler f N X files place conf])) 0 phases_before_log"
    and "protect_pre X s"
    and "ngx_nsoc_session_handler fuel pf env t \<lparr>phase_handler = 0, session = s\<rparr> = Ret () e" and "fuel > length t"
  shows "(\<exists>u. (s_noise_on (ss (se_io s)) \<longrightarrow> sess_secured u) \<and> content_spec env u = Ret () (session e)) \<or>
    generic_verdict env (protect_handler f N X files place conf) s = Ret Stop (session e)"
proof -
  let ?phases = "[(NGX_NSOC_PROTECT_PHASE, [protect_handler f N X files place conf]), (NGX_NSOC_PREREAD_PHASE, []),
      (NGX_NSOC_CONTENT_PHASE, [])]"
  have t: "t = entries_of 0 ?phases" using assms(1) by (simp add: phases_before_log_def phase_entries_eq)
  have run: "phases_spec pf env ?phases s = Ret () (session e)"
    using run_phases_spec [of t "[]" ?phases fuel pf env s] t assms(3,4) by (simp add: ngx_nsoc_session_handler_def)
  show ?thesis
    using noise_protect.content_only_when_safe [OF _ run] protect.content_only_when_safe [OF _ run] assms(2) by blast
qed

section \<open>Properties\<close>

text \<open>A server whose keys are loaded, and a client that has sent its first message.\<close>

definition demo_nsc :: noiseserver_conf where
  "demo_nsc = \<lparr>nsc_handshake_timeout = Some 60000, nsc_noise = Some (demo_noise_conf 65517),
     server_private_key_file = Some ''key'', client_public_key_file = Some []\<rparr>"

definition demo_client :: "byte list list \<Rightarrow> (script, demo_hs, nat) sess" where
  "demo_client segs = upd_io (\<lambda>t. t\<lparr>net := script_world segs\<rparr>) (demo_sess True)"

definition first_message :: "byte list" where
  "first_message = be16 6 @ first_hdr_bytes (header demo_prologue) @ be16 3 @ [0, 7, 7]"

definition demo_protect ::
  "(demo_hs, nat) noise_c \<Rightarrow> (script, demo_hs, nat) handler" where
  "demo_protect X = protect_handler (Suc (Suc (Suc 0))) script_nginx X (\<lambda>_. None) (0, []) demo_nsc"

lemmas demo_protect_defs =
  demo_protect_def protect_handler_def ngx_nsoc_noiseserver_handler_def with_key_def load_private_def
  load_public_def demo_nsc_def set_ctx_def ngx_nsoc_noiseserver_init_connection_def
  ngx_nsoc_create_connection_def on_io_def ngx_nsoc_handshake_def with_nc_def nc_side_def
  demo_client_def demo_sess_def


lemma demo_write_total: "\<nexists>n. write_error demo_noise n"
  by (auto simp: write_error_def demo_noise_def)

lemma demo_protect_waits: "\<exists>u. demo_protect demo_noise (demo_client [first_message]) = Ret NGX_AGAIN u"
  by (simp add: demo_protect_defs demo_run_defs first_message_def)



lemma core_merge_bound:
  "ngx_nsoc_core_merge_srv_conf dummy lg prev conf = Some (prev', cscf) \<Longrightarrow>
   conf_value (nsoc_preread_buffer_size cscf) \<le> NOISE_PROTOCOL_PAYLOAD_SIZE"
  by (auto simp: ngx_nsoc_core_merge_srv_conf_def Let_def split: if_splits)

lemma server_merge_noise:
  assumes "ngx_nsoc_noiseserver_merge_conf N cln psize prev conf w = (Some nconf, w')"
  obtains noise ctx where "nsc_noise nconf = Some noise" "noise_buffer_size noise = conf_value psize"
    "header_len (noise_prologue noise) = swapw 6" "strPrologue (noise_prologue noise) = prologue_text"
    "noise_ctx_p noise = Some ctx"
  using assms
  by (auto simp: ngx_nsoc_noiseserver_merge_conf_def ngx_nsoc_create_def zero_noise_def Let_def
      split: prod.splits option.splits if_splits)

text \<open>
  C34: from the configuration to the wire. Whatever a configuration sets, when it is accepted
  the noise connections made from it have a buffer size for which the length of every frame
  they send fits its two-byte field, the protocol's prologue text, and the header length of
  the first message.
\<close>

theorem configured_frames_fit:
  assumes "ngx_nsoc_core_merge_srv_conf dummy lg cprev cconf = Some (cprev', cscf)"
    and "ngx_nsoc_noiseserver_merge_conf N cln (nsoc_preread_buffer_size cscf) prev conf w = (Some nconf, w1)"
    and "nsc_noise nconf = Some noise"
    and "ngx_nsoc_create_connection N noise cid b False s w2 = (NGX_OK, s', w3)"
  shows "\<exists>x. s_server_noise_connection s' = Some x \<and>
    (\<forall>size. size \<le> nc_buffer_size x \<longrightarrow>
       rd16 (be16 (size + NGX_NSOC_LEN_FIELD_SIZE + NOISE_PROTOCOL_MAC_DATA_SIZE) ! 0)
            (be16 (size + NGX_NSOC_LEN_FIELD_SIZE + NOISE_PROTOCOL_MAC_DATA_SIZE) ! 1)
         = size + NGX_NSOC_LEN_FIELD_SIZE + NOISE_PROTOCOL_MAC_DATA_SIZE) \<and>
    header_len (nc_prologue x) = swapw (word_of_nat NGX_NSOC_1MSG_NEG_DATA_SIZE) \<and>
    strPrologue (nc_prologue x) = prologue_text"
proof -
  from server_merge_noise [OF assms(2)] assms(3)
  have n: "noise_buffer_size noise = conf_value (nsoc_preread_buffer_size cscf)"
    "header_len (noise_prologue noise) = swapw 6" "strPrologue (noise_prologue noise) = prologue_text"
    by fastforce+
  from assms(4) have x: "s_server_noise_connection s' = Some (fresh_nc noise cid b NGX_NSOC_SERVER_ROLE)"
    by (auto simp: ngx_nsoc_create_connection_def Let_def split: prod.splits if_splits)
  have "rd16 (be16 (size + 18) ! 0) (be16 (size + 18) ! 1) = size + 18"
    if "size \<le> noise_buffer_size noise" for size
    using rd16_word_of_nat [of "size + 18"] that n(1) core_merge_bound [OF assms(1)] by (simp add: be16_def)
  with n x show ?thesis by (simp add: fresh_nc_def add.commute)
qed

definition demo_cscf :: "(script, demo_hs, nat) core_srv_conf" where
  "demo_cscf = \<lparr>cscf_handler = Some (\<lambda>s. Ret () s), cscf_tcp_nodelay = None, nsoc_preread_buffer_size = None,
     preread_timeout = None, error_log = None, resolver_timeout = None, resolver = None\<rparr>"

definition demo_unset :: noiseserver_conf where
  "demo_unset = \<lparr>nsc_handshake_timeout = None, nsc_noise = None, server_private_key_file = None,
     client_public_key_file = None\<rparr>"

lemma configured_frames_fit_witness:
  "\<exists>cprev' cscf nconf noise s' w3.
     ngx_nsoc_core_merge_srv_conf (Some 0) 0 demo_cscf demo_cscf = Some (cprev', cscf) \<and>
     ngx_nsoc_noiseserver_merge_conf script_nginx True (nsoc_preread_buffer_size cscf) demo_unset demo_unset
       (script_world []) = (Some nconf, script_world []) \<and>
     nsc_noise nconf = Some noise \<and>
     ngx_nsoc_create_connection script_nginx noise 1 False False (ss (se_io (demo_sess True))) (script_world [])
       = (NGX_OK, s', w3) \<and>
     (\<exists>x. s_server_noise_connection s' = Some x \<and>
        header_len (nc_prologue x) = swapw (word_of_nat NGX_NSOC_1MSG_NEG_DATA_SIZE))"
proof -
  obtain cprev' cscf where c: "ngx_nsoc_core_merge_srv_conf (Some 0) 0 demo_cscf demo_cscf = Some (cprev', cscf)"
    by (simp add: ngx_nsoc_core_merge_srv_conf_def demo_cscf_def merge_value_def conf_value_def Let_def)
  obtain nconf where n: "ngx_nsoc_noiseserver_merge_conf script_nginx True (nsoc_preread_buffer_size cscf)
      demo_unset demo_unset (script_world []) = (Some nconf, script_world [])"
    by (simp add: ngx_nsoc_noiseserver_merge_conf_def ngx_nsoc_create_def script_nginx_def Let_def)
  obtain noise where no: "nsc_noise nconf = Some noise" using server_merge_noise [OF n] by metis
  obtain s' w3 where s: "ngx_nsoc_create_connection script_nginx noise 1 False False
      (ss (se_io (demo_sess True))) (script_world []) = (NGX_OK, s' :: (demo_hs, nat) nsoc_session, w3)"
    by (simp add: ngx_nsoc_create_connection_def script_nginx_def Let_def)
  from configured_frames_fit [OF c n no s] c n no s show ?thesis by blast
qed

end
