(* ===== verification/Nsoc_Listen.thy ===== *)
theory Nsoc_Listen
  imports Nsoc_Session "HOL-Library.Multiset"
begin

text \<open>
  Model of the way from a \<open>listen\<close> directive to a session: the directive itself
  (\<open>ngx_nsoc_core_listen\<close> in \<open>src/ngx_nsoc_core_module.c\<close>), the grouping of the directives by
  port and the listening sockets made from them (\<open>ngx_nsoc_add_ports\<close>,
  \<open>ngx_nsoc_optimize_servers\<close> and its helpers in \<open>src/ngx_nsoc.c\<close>), and the set-up of a session
  for an accepted connection (\<open>ngx_nsoc_init_connection\<close> in \<open>src/ngx_nsoc_handler.c\<close>).

  Addresses are IPv4 and IPv6 addresses; sockets of the family \<open>AF_UNIX\<close> are not modelled.
\<close>

section \<open>The listen directive\<close>

datatype ip = Inet "32 word" | Inet6 "128 word"

fun any_address :: "ip \<Rightarrow> bool" where
  "any_address (Inet a) \<longleftrightarrow> a = 0"
| "any_address (Inet6 a) \<longleftrightarrow> a = 0"

fun same_family :: "ip \<Rightarrow> ip \<Rightarrow> bool" where
  "same_family (Inet _) (Inet _) \<longleftrightarrow> True"
| "same_family (Inet6 _) (Inet6 _) \<longleftrightarrow> True"
| "same_family _ _ \<longleftrightarrow> False"

fun is_inet6 :: "ip \<Rightarrow> bool" where
  "is_inet6 (Inet6 _) \<longleftrightarrow> True"
| "is_inet6 _ \<longleftrightarrow> False"

datatype sock_type = SOCK_STREAM | SOCK_DGRAM

text \<open>\<open>lo_ctx\<close> identifies the server block the directive stands in.\<close>

record listen_opt =
  lo_addr :: ip
  lo_port :: nat
  lo_ctx :: nat
  lo_bind :: bool
  lo_wildcard :: bool
  lo_noise_on :: bool
  lo_ipv6only :: bool
  lo_reuseport :: bool
  lo_so_keepalive :: nat
  lo_proxy_protocol :: bool
  lo_keepidle :: int
  lo_keepintvl :: int
  lo_keepcnt :: int
  lo_backlog :: int
  lo_type :: sock_type

text \<open>The functions of nginx the directive calls: the address parser, \<open>ngx_atoi\<close>, \<open>ngx_parse_time\<close>.\<close>

record conf_lib =
  ngx_parse_url :: "string \<Rightarrow> (ip \<times> nat \<times> bool) option"
  ngx_atoi :: "string \<Rightarrow> int"
  ngx_parse_time :: "string \<Rightarrow> int"

definition NGX_LISTEN_BACKLOG :: int where "NGX_LISTEN_BACKLOG = 511"

definition starts :: "string \<Rightarrow> string \<Rightarrow> bool" where
  "starts p v \<longleftrightarrow> take (length p) v = p"

text \<open>The value \<open>idle:intvl:cnt\<close>, each part optional.\<close>

definition after_colon :: "string \<Rightarrow> string" where
  "after_colon v = drop 1 (dropWhile (\<lambda>c. c \<noteq> CHR '':'') v)"

definition before_colon :: "string \<Rightarrow> string" where
  "before_colon v = takeWhile (\<lambda>c. c \<noteq> CHR '':'') v"

definition keepalive_times :: "conf_lib \<Rightarrow> string \<Rightarrow> listen_opt \<Rightarrow> listen_opt option" where
  "keepalive_times L v ls =
     (let f1 = before_colon v; r1 = after_colon v; f2 = before_colon r1; f3 = after_colon r1;
          idle = (if f1 = [] then lo_keepidle ls else ngx_parse_time L f1);
          intvl = (if f2 = [] then lo_keepintvl ls else ngx_parse_time L f2);
          cnt = (if f3 = [] then lo_keepcnt ls else ngx_atoi L f3)
      in if f1 \<noteq> [] \<and> idle = NGX_ERROR then None
         else if f2 \<noteq> [] \<and> intvl = NGX_ERROR then None
         else if f3 \<noteq> [] \<and> cnt = NGX_ERROR then None
         else if idle = 0 \<and> intvl = 0 \<and> cnt = 0 then None
         else Some (ls\<lparr>lo_keepidle := idle, lo_keepintvl := intvl, lo_keepcnt := cnt, lo_so_keepalive := 1\<rparr>))"

text \<open>
  One parameter; the flag is the local \<open>backlog\<close>, \<open>None\<close> an error. The platform has
  \<open>NGX_HAVE_INET6\<close>, \<open>NGX_HAVE_REUSEPORT\<close> and \<open>NGX_HAVE_KEEPALIVE_TUNABLE\<close>.
\<close>

definition listen_param :: "conf_lib \<Rightarrow> string \<Rightarrow> listen_opt \<times> bool \<Rightarrow> (listen_opt \<times> bool) option" where
  "listen_param L v st =
     (let ls = fst st
      in if v = ''udp'' then Some (ls\<lparr>lo_type := SOCK_DGRAM\<rparr>, snd st)
         else if v = ''bind'' then Some (ls\<lparr>lo_bind := True\<rparr>, snd st)
         else if starts ''backlog='' v then
           (let b = ngx_atoi L (drop 8 v)
            in if b = NGX_ERROR \<or> b = 0 then None else Some (ls\<lparr>lo_backlog := b, lo_bind := True\<rparr>, True))
         else if starts ''ipv6only=o'' v then
           (if is_inet6 (lo_addr ls) then
              if drop 10 v = ''n'' then Some (ls\<lparr>lo_ipv6only := True, lo_bind := True\<rparr>, snd st)
              else if drop 10 v = ''ff'' then Some (ls\<lparr>lo_ipv6only := False, lo_bind := True\<rparr>, snd st)
              else None
            else Some st)
         else if v = ''reuseport'' then Some (ls\<lparr>lo_reuseport := True, lo_bind := True\<rparr>, snd st)
         else if v = ''noise'' then Some (ls\<lparr>lo_noise_on := True\<rparr>, snd st)
         else if starts ''so_keepalive='' v then
           map_option (\<lambda>ls. (ls\<lparr>lo_bind := True\<rparr>, snd st))
             (if drop 13 v = ''on'' then Some (ls\<lparr>lo_so_keepalive := 1\<rparr>)
              else if drop 13 v = ''off'' then Some (ls\<lparr>lo_so_keepalive := 2\<rparr>)
              else keepalive_times L (drop 13 v) ls)
         else if v = ''proxy_protocol'' then Some (ls\<lparr>lo_proxy_protocol := True\<rparr>, snd st)
         else None)"

fun listen_params :: "conf_lib \<Rightarrow> string list \<Rightarrow> listen_opt \<times> bool \<Rightarrow> (listen_opt \<times> bool) option" where
  "listen_params L [] st = Some st"
| "listen_params L (v # vs) st = (case listen_param L v st of None \<Rightarrow> None | Some st' \<Rightarrow> listen_params L vs st')"

definition new_listen :: "nat \<Rightarrow> ip \<Rightarrow> nat \<Rightarrow> bool \<Rightarrow> listen_opt" where
  "new_listen ctx a p wild =
     \<lparr>lo_addr = a, lo_port = p, lo_ctx = ctx, lo_bind = False, lo_wildcard = wild, lo_noise_on = False,
      lo_ipv6only = True, lo_reuseport = False, lo_so_keepalive = 0, lo_proxy_protocol = False,
      lo_keepidle = 0, lo_keepintvl = 0, lo_keepcnt = 0, lo_backlog = NGX_LISTEN_BACKLOG,
      lo_type = SOCK_STREAM\<rparr>"

definition udp_conflict :: "listen_opt \<Rightarrow> bool \<Rightarrow> bool" where
  "udp_conflict ls backlog \<longleftrightarrow> lo_type ls = SOCK_DGRAM \<and>
     (backlog \<or> lo_noise_on ls \<or> lo_so_keepalive ls \<noteq> 0 \<or> lo_proxy_protocol ls)"

definition same_socket :: "listen_opt \<Rightarrow> listen_opt \<Rightarrow> bool" where
  "same_socket a b \<longleftrightarrow> lo_type a = lo_type b \<and> lo_addr a = lo_addr b \<and> lo_port a = lo_port b"

text \<open>The array of directives so far goes in and comes out; \<open>None\<close> refuses the configuration.\<close>

definition ngx_nsoc_core_listen ::
  "conf_lib \<Rightarrow> bool \<Rightarrow> nat \<Rightarrow> string list \<Rightarrow> listen_opt list \<Rightarrow> listen_opt list option" where
  "ngx_nsoc_core_listen L alloc ctx args listens =
     (case args of
        [] \<Rightarrow> None
      | url # params \<Rightarrow>
          (case ngx_parse_url L url of
             None \<Rightarrow> None
           | Some (a, p, wild) \<Rightarrow>
               if \<not> alloc then None
               else
                 (case listen_params L params (new_listen ctx a p wild, False) of
                    None \<Rightarrow> None
                  | Some (ls, backlog) \<Rightarrow>
                      if udp_conflict ls backlog then None
                      else if \<exists>al \<in> set listens. same_socket al ls then None
                      else Some (listens @ [ls]))))"

section \<open>Ports\<close>

record conf_port =
  cp_inet6 :: bool
  cp_type :: sock_type
  cp_port :: nat
  cp_addrs :: "listen_opt list"

definition port_matches :: "listen_opt \<Rightarrow> conf_port \<Rightarrow> bool" where
  "port_matches ls cp \<longleftrightarrow> lo_port ls = cp_port cp \<and> lo_type ls = cp_type cp \<and> is_inet6 (lo_addr ls) = cp_inet6 cp"

fun ngx_nsoc_add_ports :: "listen_opt \<Rightarrow> conf_port list \<Rightarrow> conf_port list" where
  "ngx_nsoc_add_ports ls [] =
     [\<lparr>cp_inet6 = is_inet6 (lo_addr ls), cp_type = lo_type ls, cp_port = lo_port ls, cp_addrs = [ls]\<rparr>]"
| "ngx_nsoc_add_ports ls (cp # cps) =
     (if port_matches ls cp then cp\<lparr>cp_addrs := cp_addrs cp @ [ls]\<rparr> # cps
      else cp # ngx_nsoc_add_ports ls cps)"

definition ngx_nsoc_cmp_conf_addrs :: "listen_opt \<Rightarrow> listen_opt \<Rightarrow> int" where
  "ngx_nsoc_cmp_conf_addrs a b =
     (if lo_wildcard a then 1
      else if lo_wildcard b then - 1
      else if lo_bind a \<and> \<not> lo_bind b then - 1
      else if \<not> lo_bind a \<and> lo_bind b then 1
      else 0)"

section \<open>Listening sockets\<close>

record addr_conf =
  ac_ctx :: nat
  ac_addr_text :: string
  ac_noise_on :: bool

record in_addr =
  ia_addr :: ip
  ia_conf :: addr_conf

record listening =
  ls_addr :: ip
  ls_port :: nat
  ls_type :: sock_type
  ls_log_ctx :: nat
  ls_backlog :: int
  ls_wildcard :: bool
  ls_keepalive :: nat
  ls_keepidle :: int
  ls_keepintvl :: int
  ls_keepcnt :: int
  ls_ipv6only :: bool
  ls_reuseport :: bool
  ls_servers :: "in_addr list"

text \<open>\<open>ntop\<close> is \<open>ngx_sock_ntop\<close>. The two address-table functions differ in the family only.\<close>

definition ngx_nsoc_add_addrs :: "(ip \<Rightarrow> nat \<Rightarrow> string) \<Rightarrow> listen_opt list \<Rightarrow> in_addr list" where
  "ngx_nsoc_add_addrs ntop addrs =
     map (\<lambda>ls. \<lparr>ia_addr = lo_addr ls,
                ia_conf = \<lparr>ac_ctx = lo_ctx ls, ac_addr_text = ntop (lo_addr ls) (lo_port ls),
                           ac_noise_on = lo_noise_on ls\<rparr>\<rparr>) addrs"

text \<open>
  One listening socket: the options of \<open>addr[i]\<close>, the log of the first address, and the table
  of the addresses up to \<open>i\<close>.
\<close>

definition create_listening ::
  "(ip \<Rightarrow> nat \<Rightarrow> string) \<Rightarrow> listen_opt list \<Rightarrow> nat \<Rightarrow> listening" where
  "create_listening ntop addr i =
     (let o' = addr ! i
      in \<lparr>ls_addr = lo_addr o', ls_port = lo_port o', ls_type = lo_type o', ls_log_ctx = lo_ctx (addr ! 0),
          ls_backlog = lo_backlog o', ls_wildcard = lo_wildcard o', ls_keepalive = lo_so_keepalive o',
          ls_keepidle = lo_keepidle o', ls_keepintvl = lo_keepintvl o', ls_keepcnt = lo_keepcnt o',
          ls_ipv6only = lo_ipv6only o', ls_reuseport = lo_reuseport o',
          ls_servers = ngx_nsoc_add_addrs ntop (take (i + 1) addr)\<rparr>)"

text \<open>
  The loop over one port's sorted addresses. \<open>addr\<close> is what the advancing pointer points to;
  \<open>alloc\<close> tells whether the allocations for the socket at hand succeed.
\<close>

function listen_loop ::
  "(listen_opt \<Rightarrow> bool) \<Rightarrow> (ip \<Rightarrow> nat \<Rightarrow> string) \<Rightarrow> bool \<Rightarrow> listen_opt list \<Rightarrow> nat \<Rightarrow> nat \<Rightarrow>
   listening list option" where
  "listen_loop alloc ntop bind_wildcard addr i lst =
     (if i < lst then
        if bind_wildcard \<and> \<not> lo_bind (addr ! i) then listen_loop alloc ntop bind_wildcard addr (i + 1) lst
        else if \<not> alloc (addr ! i) then None
        else map_option (\<lambda>lss. create_listening ntop addr i # lss)
               (listen_loop alloc ntop bind_wildcard (tl addr) i (lst - 1))
      else Some [])"
  by pat_completeness auto
termination
  by (relation "measure (\<lambda>(alloc, ntop, bw, addr, i, lst). lst - i)") auto

declare listen_loop.simps [simp del]

definition listen_port ::
  "(listen_opt \<Rightarrow> bool) \<Rightarrow> (ip \<Rightarrow> nat \<Rightarrow> string) \<Rightarrow> (listen_opt list \<Rightarrow> listen_opt list) \<Rightarrow>
   listen_opt list \<Rightarrow> listening list option" where
  "listen_port alloc ntop ngx_sort addrs =
     (let addr = ngx_sort addrs; n = length addr
      in if lo_wildcard (addr ! (n - 1))
         then listen_loop alloc ntop True (addr[n - 1 := (addr ! (n - 1))\<lparr>lo_bind := True\<rparr>]) 0 n
         else listen_loop alloc ntop False addr 0 n)"

fun ngx_nsoc_optimize_servers ::
  "(listen_opt \<Rightarrow> bool) \<Rightarrow> (ip \<Rightarrow> nat \<Rightarrow> string) \<Rightarrow> (listen_opt list \<Rightarrow> listen_opt list) \<Rightarrow>
   conf_port list \<Rightarrow> listening list option" where
  "ngx_nsoc_optimize_servers alloc ntop ngx_sort [] = Some []"
| "ngx_nsoc_optimize_servers alloc ntop ngx_sort (cp # cps) =
     (case listen_port alloc ntop ngx_sort (cp_addrs cp) of
        None \<Rightarrow> None
      | Some lss \<Rightarrow> map_option (\<lambda>rest. lss @ rest) (ngx_nsoc_optimize_servers alloc ntop ngx_sort cps))"

text \<open>The part of \<open>ngx_nsoc_block\<close> that runs over the directives.\<close>

definition make_listenings ::
  "(listen_opt \<Rightarrow> bool) \<Rightarrow> (ip \<Rightarrow> nat \<Rightarrow> string) \<Rightarrow> (listen_opt list \<Rightarrow> listen_opt list) \<Rightarrow>
   listen_opt list \<Rightarrow> listening list option" where
  "make_listenings alloc ntop ngx_sort listens =
     ngx_nsoc_optimize_servers alloc ntop ngx_sort (fold ngx_nsoc_add_ports listens [])"

section \<open>Accepting a connection\<close>

text \<open>
  The search in the address table: the last address is the wildcard; with one address no
  search is made. \<open>None\<close> is a read outside the table.
\<close>

fun scan_addrs :: "ip \<Rightarrow> in_addr list \<Rightarrow> addr_conf option" where
  "scan_addrs a [] = None"
| "scan_addrs a [x] = Some (ia_conf x)"
| "scan_addrs a (x # xs) = (if ia_addr x = a then Some (ia_conf x) else scan_addrs a xs)"

text \<open>
  What nginx hands over with the connection. \<open>ac_local\<close> is the address
  \<open>ngx_connection_local_sockaddr\<close> finds, \<open>None\<close> when it fails.
\<close>

record accepted =
  ac_servers :: "in_addr list"
  ac_local :: "ip option"
  ac_conn :: ngx_connection
  ac_buffer :: "conn_buf option"
  ac_stream :: bool

definition new_session :: "addr_conf \<Rightarrow> accepted \<Rightarrow> (nat \<Rightarrow> byte list) \<Rightarrow> 'w \<Rightarrow> ('w, 'h, 'k) sess" where
  "new_session conf a mem w =
     \<lparr>se_io = \<lparr>ss = \<lparr>s_client_noise_connection = None, s_server_noise_connection = None,
                     s_noise_on = ac_noise_on conf\<rparr>,
               sock = ac_conn a, smem = mem, net = w\<rparr>,
      se_status = 0, se_buffer = ac_buffer a, se_stream = ac_stream a,
      se_nodelay = NGX_TCP_NODELAY_UNSET,
      se_received = (case ac_buffer a of None \<Rightarrow> 0 | Some b \<Rightarrow> cb_last b - cb_pos b), se_closed = False\<rparr>"

text \<open>
  \<open>envs\<close> gives the environment of a server block, \<open>alloc\<close> whether the allocations of the
  session, its context array and its variables succeed. The session is attached to the
  connection after the first allocation only. With an accept mutex the read event is posted
  (the result is \<open>True\<close>), otherwise the session handler is called at once.
\<close>

definition ngx_nsoc_init_connection ::
  "nat \<Rightarrow> nat \<Rightarrow> (nat \<Rightarrow> ('w, 'h, 'k) core_env) \<Rightarrow> ('w, 'h, 'k) handler phase_handler_t list \<Rightarrow>
   bool \<times> bool \<times> bool \<Rightarrow> bool \<Rightarrow> accepted \<Rightarrow> (nat \<Rightarrow> byte list) \<Rightarrow> 'w \<Rightarrow>
   (bool, ('w, 'h, 'k) engine) run" where
  "ngx_nsoc_init_connection fuel pf envs t alloc accept_mutex a mem w =
     (let close = (\<lambda>d. bind_run
             (case ngx_nsoc_close_connection d of
                Ret _ s \<Rightarrow> Ret () \<lparr>phase_handler = 0, session = s\<rparr> | Crash x \<Rightarrow> Crash x | Diverge \<Rightarrow> Diverge)
             (\<lambda>_ e. Ret False e));
          (alloc_s, alloc_ctx, alloc_vars) = alloc
      in if length (ac_servers a) > 1 \<and> ac_local a = None then close None
         else
           (case (if length (ac_servers a) > 1 then scan_addrs (the (ac_local a)) (ac_servers a)
                  else scan_addrs (Inet 0) (ac_servers a)) of
              None \<Rightarrow> Crash Out_of_bounds
            | Some conf \<Rightarrow>
                if \<not> alloc_s then close None
                else
                  (let s = new_session conf a mem w
                   in if \<not> alloc_ctx then close (Some s)
                      else if \<not> alloc_vars then close (Some s)
                      else
                        (let e = \<lparr>phase_handler = 0,
                                  session = upd_sock (upd_read (\<lambda>ev. ev\<lparr>ev_handler := H_session\<rparr>)) s\<rparr>
                         in if accept_mutex then Ret True e
                            else bind_run (ngx_nsoc_session_handler fuel pf (envs (ac_ctx conf)) t e)
                                   (\<lambda>_ e1. Ret False e1)))))"

section \<open>One port\<close>

definition listen_conf :: "(ip \<Rightarrow> nat \<Rightarrow> string) \<Rightarrow> listen_opt \<Rightarrow> addr_conf" where
  "listen_conf ntop d = \<lparr>ac_ctx = lo_ctx d, ac_addr_text = ntop (lo_addr d) (lo_port d), ac_noise_on = lo_noise_on d\<rparr>"

text \<open>What \<open>ngx_sort\<close> promises for a comparison that orders the list.\<close>

definition sort_contract :: "(listen_opt list \<Rightarrow> listen_opt list) \<Rightarrow> bool" where
  "sort_contract ngx_sort \<longleftrightarrow> (\<forall>xs. mset (ngx_sort xs) = mset xs \<and>
     (length (filter lo_wildcard xs) \<le> 1 \<longrightarrow> sorted_wrt (\<lambda>a b. ngx_nsoc_cmp_conf_addrs a b \<le> 0) (ngx_sort xs)))"

lemma cmp_sorted_split:
  assumes "sorted_wrt (\<lambda>a b. ngx_nsoc_cmp_conf_addrs a b \<le> 0) xs"
  shows "\<exists>B F W. xs = B @ F @ W \<and> (\<forall>d \<in> set B. lo_bind d \<and> \<not> lo_wildcard d)
     \<and> (\<forall>d \<in> set F. \<not> lo_bind d \<and> \<not> lo_wildcard d) \<and> (\<forall>d \<in> set W. lo_wildcard d) \<and> length W \<le> 1"
  using assms
proof (induction xs)
  case (Cons x xs)
  then obtain B F W where IH: "xs = B @ F @ W" "\<forall>d \<in> set B. lo_bind d \<and> \<not> lo_wildcard d"
      "\<forall>d \<in> set F. \<not> lo_bind d \<and> \<not> lo_wildcard d" "\<forall>d \<in> set W. lo_wildcard d" "length W \<le> 1"
    by auto
  have x: "\<forall>d \<in> set xs. ngx_nsoc_cmp_conf_addrs x d \<le> 0" using Cons.prems by simp
  consider (wild) "lo_wildcard x" | (bound) "\<not> lo_wildcard x" "lo_bind x"
    | (free) "\<not> lo_wildcard x" "\<not> lo_bind x" by blast
  then show ?case
  proof cases
    case wild
    with x have "xs = []" by (auto simp: ngx_nsoc_cmp_conf_addrs_def neq_Nil_conv)
    with wild show ?thesis by (intro exI [of _ "[]"] exI [of _ "[x]"]) simp
  next
    case bound
    with IH show ?thesis by (intro exI [of _ "x # B"] exI [of _ F] exI [of _ W]) simp
  next
    case free
    with x IH(1,2) have "B = []"
      by (cases B) (auto simp: ngx_nsoc_cmp_conf_addrs_def split: if_splits)
    with free IH show ?thesis by (intro exI [of _ "[]"] exI [of _ "x # F"] exI [of _ W]) simp
  qed
qed simp

definition single :: "(ip \<Rightarrow> nat \<Rightarrow> string) \<Rightarrow> listen_opt \<Rightarrow> listening" where
  "single ntop d = create_listening ntop [d] 0"

lemma create_listening_first [simp]: "create_listening ntop (d # ds) 0 = single ntop d"
  by (simp add: single_def create_listening_def)

lemma listen_loop_singles:
  assumes "bw \<Longrightarrow> \<forall>d \<in> set B. lo_bind d"
    and "listen_loop alloc ntop bw (B @ R) 0 (length B + n) = Some lss"
  shows "\<exists>rest. listen_loop alloc ntop bw R 0 n = Some rest \<and> lss = map (single ntop) B @ rest"
  using assms
proof (induction B arbitrary: lss)
  case (Cons d B)
  from Cons.prems obtain rest where
    "listen_loop alloc ntop bw (B @ R) 0 (length B + n) = Some rest" "lss = single ntop d # rest"
    by (subst (asm) listen_loop.simps) (auto split: if_splits)
  with Cons.IH [of rest] Cons.prems(1) show ?case by auto
qed simp

lemma listen_loop_skip:
  assumes "\<forall>d \<in> set F. \<not> lo_bind d" and "i \<le> length F" and "lo_bind w"
    and "listen_loop alloc ntop True (F @ [w]) i (Suc (length F)) = Some lss"
  shows "lss = [create_listening ntop (F @ [w]) (length F)]"
  using assms(2,4)
proof (induction "length F - i" arbitrary: i)
  case 0
  then have "i = length F" by simp
  with 0 assms(3) show ?case
    by (auto simp: listen_loop.simps [of _ _ _ "F @ [w]"] listen_loop.simps [of _ _ _ "tl (F @ [w])"]
        split: if_splits)
next
  case (Suc k)
  then have i: "i < length F" by simp
  moreover from this assms(1) have "\<not> lo_bind ((F @ [w]) ! i)" by (simp add: nth_append)
  ultimately have "listen_loop alloc ntop True (F @ [w]) (i + 1) (Suc (length F)) = Some lss"
    using Suc.prems(2) by (subst (asm) listen_loop.simps) simp
  with Suc.hyps(1) [of "i + 1"] Suc.hyps(2) i show ?case by simp
qed

text \<open>The sockets of one port, from the sorted parts of its address list.\<close>

lemma listen_port_shape:
  assumes "sort_contract ngx_sort" and "length (filter lo_wildcard addrs) \<le> 1" and "addrs \<noteq> []"
    and "listen_port alloc ntop ngx_sort addrs = Some lss"
  obtains (wild) B F w where "set addrs = set B \<union> set F \<union> {w}" "\<forall>d \<in> set B \<union> set F. \<not> lo_wildcard d"
      "lo_wildcard w"
      "lss = map (single ntop) B @ [create_listening ntop (F @ [w\<lparr>lo_bind := True\<rparr>]) (length F)]"
  | (plain) xs where "set addrs = set xs" "\<forall>d \<in> set xs. \<not> lo_wildcard d" "lss = map (single ntop) xs"
proof -
  from assms(1,2) have m: "mset (ngx_sort addrs) = mset addrs"
    and s: "sorted_wrt (\<lambda>a b. ngx_nsoc_cmp_conf_addrs a b \<le> 0) (ngx_sort addrs)"
    unfolding sort_contract_def by blast+
  from m have st: "set (ngx_sort addrs) = set addrs" by (metis set_mset_mset)
  from cmp_sorted_split [OF s] obtain B F W where xs: "ngx_sort addrs = B @ F @ W"
    and B: "\<forall>d \<in> set B. lo_bind d \<and> \<not> lo_wildcard d" and F: "\<forall>d \<in> set F. \<not> lo_bind d \<and> \<not> lo_wildcard d"
    and W: "\<forall>d \<in> set W. lo_wildcard d" "length W \<le> 1" by blast
  show thesis
  proof (cases W)
    case Nil
    have "ngx_sort addrs \<noteq> []" using m assms(3) by (metis mset_zero_iff)
    then have "\<not> lo_wildcard (ngx_sort addrs ! (length (ngx_sort addrs) - 1))"
      using xs Nil B F by (metis Un_iff append_Nil2 last_conv_nth last_in_set set_append)
    with assms(4) have "listen_loop alloc ntop False (ngx_sort addrs @ []) 0 (length (ngx_sort addrs) + 0) = Some lss"
      by (simp add: listen_port_def Let_def)
    from listen_loop_singles [OF _ this] have "lss = map (single ntop) (ngx_sort addrs)"
      by (auto simp: listen_loop.simps)
    with st xs Nil B F plain [of "ngx_sort addrs"] show thesis by auto
  next
    case (Cons w V)
    with W have V: "V = []" "lo_wildcard w" by auto
    let ?w = "w\<lparr>lo_bind := True\<rparr>"
    have "listen_loop alloc ntop True (B @ (F @ [?w])) 0 (length B + Suc (length F)) = Some lss"
      using assms(4) xs Cons V by (simp add: listen_port_def Let_def nth_append list_update_append)
    from listen_loop_singles [OF _ this] B obtain rest where
      "listen_loop alloc ntop True (F @ [?w]) 0 (Suc (length F)) = Some rest" "lss = map (single ntop) B @ rest"
      by auto
    moreover from this(1) have "rest = [create_listening ntop (F @ [?w]) (length F)]"
      using listen_loop_skip [of F 0 ?w] F by simp
    ultimately show thesis using wild [of B F w] st xs Cons V B F by auto
  qed
qed

section \<open>From the directives to the session\<close>

text \<open>
  The specification: among the directives for the port, the family and the socket type, the
  one with the connection's local address serves it, and the wildcard one when there is none.
  The kernel chooses among the listening sockets by the same rule.
\<close>

definition on_port :: "sock_type \<Rightarrow> nat \<Rightarrow> ip \<Rightarrow> listen_opt \<Rightarrow> bool" where
  "on_port ty p a d \<longleftrightarrow> lo_type d = ty \<and> lo_port d = p \<and> is_inet6 (lo_addr d) = is_inet6 a"

definition serves :: "listen_opt list \<Rightarrow> sock_type \<Rightarrow> nat \<Rightarrow> ip \<Rightarrow> listen_opt \<Rightarrow> bool" where
  "serves ds ty p a d \<longleftrightarrow> d \<in> set ds \<and> on_port ty p a d \<and>
     (lo_addr d = a \<or> lo_wildcard d \<and> (\<forall>d' \<in> set ds. on_port ty p a d' \<longrightarrow> lo_addr d' \<noteq> a))"

definition socket_on :: "sock_type \<Rightarrow> nat \<Rightarrow> ip \<Rightarrow> listening \<Rightarrow> bool" where
  "socket_on ty p a l \<longleftrightarrow> ls_type l = ty \<and> ls_port l = p \<and> is_inet6 (ls_addr l) = is_inet6 a"

definition accepts :: "listening list \<Rightarrow> sock_type \<Rightarrow> nat \<Rightarrow> ip \<Rightarrow> listening \<Rightarrow> bool" where
  "accepts lss ty p a l \<longleftrightarrow> l \<in> set lss \<and> socket_on ty p a l \<and>
     (ls_addr l = a \<or> ls_wildcard l \<and> (\<forall>l' \<in> set lss. socket_on ty p a l' \<longrightarrow> ls_addr l' \<noteq> a))"

text \<open>What the array of accepted directives satisfies.\<close>

definition listens_ok :: "listen_opt list \<Rightarrow> bool" where
  "listens_ok ds \<longleftrightarrow> sorted_wrt (\<lambda>a b. \<not> same_socket a b) ds \<and> (\<forall>d \<in> set ds. lo_wildcard d = any_address (lo_addr d))"

definition url_contract :: "conf_lib \<Rightarrow> bool" where
  "url_contract L \<longleftrightarrow> (\<forall>v a p wild. ngx_parse_url L v = Some (a, p, wild) \<longrightarrow> wild = any_address a)"

lemma listen_param_keeps:
  "listen_param L v st = Some st' \<Longrightarrow>
   lo_addr (fst st') = lo_addr (fst st) \<and> lo_port (fst st') = lo_port (fst st)
     \<and> lo_wildcard (fst st') = lo_wildcard (fst st) \<and> lo_ctx (fst st') = lo_ctx (fst st)"
  by (auto simp: listen_param_def keepalive_times_def Let_def split: if_splits)

lemma listen_params_keeps:
  "listen_params L vs st = Some st' \<Longrightarrow>
   lo_addr (fst st') = lo_addr (fst st) \<and> lo_port (fst st') = lo_port (fst st)
     \<and> lo_wildcard (fst st') = lo_wildcard (fst st) \<and> lo_ctx (fst st') = lo_ctx (fst st)"
  by (induction L vs st rule: listen_params.induct)
    (auto dest: listen_param_keeps split: option.splits)

lemma core_listen_ok:
  assumes "url_contract L" and "listens_ok ds" and "ngx_nsoc_core_listen L alloc ctx args ds = Some ds'"
  shows "listens_ok ds'"
proof -
  from assms(3) obtain url ps a p wild ls bl where u: "ngx_parse_url L url = Some (a, p, wild)"
    and ls: "listen_params L ps (new_listen ctx a p wild, False) = Some (ls, bl)"
    and d: "\<not> (\<exists>al \<in> set ds. same_socket al ls)" "ds' = ds @ [ls]"
    by (auto simp: ngx_nsoc_core_listen_def split: list.splits option.splits prod.splits if_splits)
  from u assms(1) have "wild = any_address a" by (auto simp: url_contract_def)
  with listen_params_keeps [OF ls] have "lo_wildcard ls = any_address (lo_addr ls)"
    by (simp add: new_listen_def)
  with d assms(2) show ?thesis by (auto simp: listens_ok_def sorted_wrt_append)
qed

fun configure :: "conf_lib \<Rightarrow> (nat \<times> string list) list \<Rightarrow> listen_opt list \<Rightarrow> listen_opt list option" where
  "configure L [] ds = Some ds"
| "configure L ((ctx, args) # rest) ds =
     (case ngx_nsoc_core_listen L True ctx args ds of None \<Rightarrow> None | Some ds' \<Rightarrow> configure L rest ds')"

lemma configure_ok:
  "url_contract L \<Longrightarrow> listens_ok ds \<Longrightarrow> configure L dirs ds = Some ds' \<Longrightarrow> listens_ok ds'"
  by (induction L dirs ds rule: configure.induct) (auto dest: core_listen_ok split: option.splits)

lemma listens_ok_unique:
  assumes "listens_ok ds" and "d \<in> set ds" and "d' \<in> set ds" and "same_socket d d'"
  shows "d = d'"
proof (rule ccontr)
  assume "d \<noteq> d'"
  from assms(2) obtain i where i: "i < length ds" "ds ! i = d" by (auto simp: in_set_conv_nth)
  from assms(3) obtain j where j: "j < length ds" "ds ! j = d'" by (auto simp: in_set_conv_nth)
  note ij = i j
  have "i \<noteq> j" using \<open>d \<noteq> d'\<close> i j by auto
  then have "i < j \<or> j < i" by auto
  moreover have pw: "\<not> same_socket (ds ! a) (ds ! b)" if "a < b" "b < length ds" for a b
    using assms(1) that by (simp add: listens_ok_def sorted_wrt_iff_nth_less)
  from pw [of i j] pw [of j i] ij
  have "i < j \<Longrightarrow> \<not> same_socket d d'" "j < i \<Longrightarrow> \<not> same_socket d' d" by auto
  moreover from assms(4) have "same_socket d' d" by (simp add: same_socket_def)
  ultimately show False using assms(4) by blast
qed

text \<open>The ports partition the directives.\<close>

definition ports_of :: "listen_opt list \<Rightarrow> conf_port list \<Rightarrow> bool" where
  "ports_of ds cps \<longleftrightarrow>
     (\<forall>cp \<in> set cps. cp_addrs cp = filter (\<lambda>d. port_matches d cp) ds \<and> cp_addrs cp \<noteq> []) \<and>
     (\<forall>d \<in> set ds. \<exists>cp \<in> set cps. port_matches d cp) \<and>
     sorted_wrt (\<lambda>c c'. \<not> (cp_port c = cp_port c' \<and> cp_type c = cp_type c' \<and> cp_inet6 c = cp_inet6 c')) cps"

abbreviation same_port where
  "same_port c c' \<equiv> cp_port c = cp_port c' \<and> cp_type c = cp_type c' \<and> cp_inet6 c = cp_inet6 c'"

lemma port_matches_addrs [simp]: "port_matches d (cp\<lparr>cp_addrs := as\<rparr>) = port_matches d cp"
  by (simp add: port_matches_def)

lemma add_ports_new:
  "\<forall>cp \<in> set cps. \<not> port_matches d cp \<Longrightarrow> ngx_nsoc_add_ports d cps =
     cps @ [\<lparr>cp_inet6 = is_inet6 (lo_addr d), cp_type = lo_type d, cp_port = lo_port d, cp_addrs = [d]\<rparr>]"
  by (induction cps) auto

lemma add_ports_old:
  assumes "\<not> (\<forall>cp \<in> set cps. \<not> port_matches d cp)"
  obtains as cp bs where "cps = as @ cp # bs" "port_matches d cp" "\<forall>c \<in> set as. \<not> port_matches d c"
    "ngx_nsoc_add_ports d cps = as @ cp\<lparr>cp_addrs := cp_addrs cp @ [d]\<rparr> # bs"
proof -
  from assms have "\<exists>cp \<in> set cps. port_matches d cp" by blast
  from split_list_first_prop [OF this] obtain as cp bs where
    s: "cps = as @ cp # bs" "port_matches d cp" "\<forall>c \<in> set as. \<not> port_matches d c" by blast
  moreover from s(3) have "ngx_nsoc_add_ports d (as @ cp # bs) = as @ cp\<lparr>cp_addrs := cp_addrs cp @ [d]\<rparr> # bs"
    by (induction as) (use s(2) in auto)
  ultimately show thesis using that by blast
qed

lemma ports_of_add:
  assumes "ports_of ds cps"
  shows "ports_of (ds @ [d]) (ngx_nsoc_add_ports d cps)"
proof (cases "\<forall>cp \<in> set cps. \<not> port_matches d cp")
  case True
  with assms show ?thesis
    unfolding add_ports_new [OF True] ports_of_def
    by (auto simp: port_matches_def sorted_wrt_append filter_empty_conv)
next
  case False
  then obtain as cp bs where s: "cps = as @ cp # bs" "port_matches d cp" "\<forall>c \<in> set as. \<not> port_matches d c"
    and eq: "ngx_nsoc_add_ports d cps = as @ cp\<lparr>cp_addrs := cp_addrs cp @ [d]\<rparr> # bs"
    by (rule add_ports_old)
  from assms s(1) have "\<forall>c \<in> set bs. \<not> same_port cp c" by (simp add: ports_of_def sorted_wrt_append)
  with s(2) have bs: "\<forall>c \<in> set bs. \<not> port_matches d c" by (auto simp: port_matches_def)
  have sc: "set cps = set as \<union> {cp} \<union> set bs" using s(1) by auto
  from assms have old: "\<forall>c \<in> set as \<union> {cp} \<union> set bs. cp_addrs c = filter (\<lambda>d. port_matches d c) ds \<and> cp_addrs c \<noteq> []"
    and cov: "\<forall>d' \<in> set ds. \<exists>c \<in> set as \<union> {cp} \<union> set bs. port_matches d' c"
    unfolding ports_of_def sc by blast+
  show ?thesis
    unfolding eq ports_of_def
  proof (intro conjI)
    show "\<forall>c \<in> set (as @ cp\<lparr>cp_addrs := cp_addrs cp @ [d]\<rparr> # bs).
        cp_addrs c = filter (\<lambda>d. port_matches d c) (ds @ [d]) \<and> cp_addrs c \<noteq> []"
    proof
      fix c
      assume c: "c \<in> set (as @ cp\<lparr>cp_addrs := cp_addrs cp @ [d]\<rparr> # bs)"
      show "cp_addrs c = filter (\<lambda>d. port_matches d c) (ds @ [d]) \<and> cp_addrs c \<noteq> []"
      proof (cases "c \<in> set as \<union> set bs")
        case True
        with old s(3) bs have "\<not> port_matches d c" "cp_addrs c = filter (\<lambda>d. port_matches d c) ds \<and> cp_addrs c \<noteq> []"
          by blast+
        then show ?thesis by auto
      next
        case False
        with c have "c = cp\<lparr>cp_addrs := cp_addrs cp @ [d]\<rparr>" by auto
        with old s(2) show ?thesis by simp
      qed
    qed
    show "\<forall>d' \<in> set (ds @ [d]). \<exists>c \<in> set (as @ cp\<lparr>cp_addrs := cp_addrs cp @ [d]\<rparr> # bs). port_matches d' c"
      using cov s(2) by auto
    show "sorted_wrt (\<lambda>c c'. \<not> same_port c c') (as @ cp\<lparr>cp_addrs := cp_addrs cp @ [d]\<rparr> # bs)"
      using assms s(1) by (simp add: ports_of_def sorted_wrt_append)
  qed
qed

lemma ports_of_fold: "ports_of ds cps \<Longrightarrow> ports_of (ds @ es) (fold ngx_nsoc_add_ports es cps)"
proof (induction es arbitrary: ds cps)
  case (Cons e es)
  from Cons.IH [OF ports_of_add [OF Cons.prems]] show ?case by simp
qed simp

lemma scan_add_addrs:
  "scan_addrs a (ngx_nsoc_add_addrs ntop (F @ [w])) =
     Some (listen_conf ntop (case find (\<lambda>d. lo_addr d = a) F of Some d \<Rightarrow> d | None \<Rightarrow> w))"
proof (induction F)
  case (Cons d F)
  then show ?case
    by (cases F) (auto simp: ngx_nsoc_add_addrs_def listen_conf_def)
qed (simp add: ngx_nsoc_add_addrs_def listen_conf_def)

lemma single_simps [simp]:
  "ls_addr (single ntop d) = lo_addr d" "ls_wildcard (single ntop d) = lo_wildcard d"
  "ls_type (single ntop d) = lo_type d" "ls_port (single ntop d) = lo_port d"
  "scan_addrs a (ls_servers (single ntop d)) = Some (listen_conf ntop d)"
  by (simp_all add: single_def create_listening_def ngx_nsoc_add_addrs_def listen_conf_def)

lemma group_simps [simp]:
  "ls_addr (create_listening ntop (F @ [w]) (length F)) = lo_addr w"
  "ls_wildcard (create_listening ntop (F @ [w]) (length F)) = lo_wildcard w"
  "ls_type (create_listening ntop (F @ [w]) (length F)) = lo_type w"
  "ls_port (create_listening ntop (F @ [w]) (length F)) = lo_port w"
  "ls_servers (create_listening ntop (F @ [w]) (length F)) = ngx_nsoc_add_addrs ntop (F @ [w])"
  by (simp_all add: create_listening_def Let_def nth_append)

text \<open>One port: the sockets stand for its directives, and the right table entry is found.\<close>

definition stands_for :: "(ip \<Rightarrow> nat \<Rightarrow> string) \<Rightarrow> listen_opt list \<Rightarrow> listening list \<Rightarrow> ip \<Rightarrow> bool" where
  "stands_for ntop ds lss a \<longleftrightarrow>
     (\<forall>l \<in> set lss. \<exists>d \<in> set ds. ls_addr l = lo_addr d \<and> ls_type l = lo_type d \<and> ls_port l = lo_port d) \<and>
     (\<forall>l \<in> set lss. ls_addr l = a \<or> ls_wildcard l \<and> (\<forall>l' \<in> set lss. ls_addr l' \<noteq> a) \<longrightarrow>
        (\<exists>d \<in> set ds. (lo_addr d = a \<or> lo_wildcard d \<and> (\<forall>d' \<in> set ds. lo_addr d' \<noteq> a)) \<and>
           scan_addrs a (ls_servers l) = Some (listen_conf ntop d)))"

lemma listen_conf_bind [simp]: "listen_conf ntop (d\<lparr>lo_bind := b\<rparr>) = listen_conf ntop d"
  by (simp add: listen_conf_def)

lemma listen_port_stands:
  assumes "sort_contract ngx_sort" and "length (filter lo_wildcard ds) \<le> 1" and "ds \<noteq> []"
    and "\<forall>d \<in> set ds. lo_wildcard d = any_address (lo_addr d)" and "\<not> any_address a"
    and "listen_port alloc ntop ngx_sort ds = Some lss"
  shows "stands_for ntop ds lss a"
  using assms(1,2,3,6)
proof (cases rule: listen_port_shape)
  case (plain xs)
  with assms(4,5) show ?thesis unfolding stands_for_def by auto
next
  case (wild B F w)
  let ?w = "w\<lparr>lo_bind := True\<rparr>"
  let ?g = "create_listening ntop (F @ [?w]) (length F)"
  from wild(1,3) assms(4,5) have w: "lo_addr w \<noteq> a" by auto
  have lss: "set lss = single ntop ` set B \<union> {?g}" using wild(4) by simp
  have group: "\<exists>d \<in> set ds. (lo_addr d = a \<or> lo_wildcard d \<and> (\<forall>d' \<in> set ds. lo_addr d' \<noteq> a)) \<and>
      scan_addrs a (ls_servers ?g) = Some (listen_conf ntop d)" if B: "\<forall>d \<in> set B. lo_addr d \<noteq> a"
  proof (cases "find (\<lambda>d. lo_addr d = a) F")
    case None
    then have "\<forall>d \<in> set F. lo_addr d \<noteq> a" by (auto simp: find_None_iff)
    with B w wild(1) have "\<forall>d' \<in> set ds. lo_addr d' \<noteq> a" by auto
    with None wild(1,3) show ?thesis by (intro bexI [of _ w]) (simp_all add: scan_add_addrs)
  next
    case (Some d)
    then have "d \<in> set F" "lo_addr d = a" by (auto simp: find_Some_iff)
    with Some wild(1) show ?thesis by (intro bexI [of _ d]) (simp_all add: scan_add_addrs)
  qed
  show ?thesis
    unfolding stands_for_def lss
  proof (intro conjI ballI impI)
    fix l
    assume "l \<in> single ntop ` set B \<union> {?g}"
    with wild(1) show "\<exists>d \<in> set ds. ls_addr l = lo_addr d \<and> ls_type l = lo_type d \<and> ls_port l = lo_port d"
      by auto
  next
    fix l
    assume l: "l \<in> single ntop ` set B \<union> {?g}"
      and a: "ls_addr l = a \<or> ls_wildcard l \<and> (\<forall>l' \<in> single ntop ` set B \<union> {?g}. ls_addr l' \<noteq> a)"
    show "\<exists>d \<in> set ds. (lo_addr d = a \<or> lo_wildcard d \<and> (\<forall>d' \<in> set ds. lo_addr d' \<noteq> a)) \<and>
        scan_addrs a (ls_servers l) = Some (listen_conf ntop d)"
    proof (cases "l = ?g")
      case True
      with a w have "\<forall>d \<in> set B. lo_addr d \<noteq> a" by auto
      with group True show ?thesis by simp
    next
      case False
      with l a wild(1,2) show ?thesis by auto
    qed
  qed
qed

lemma optimize_servers_in:
  "ngx_nsoc_optimize_servers alloc ntop ngx_sort cps = Some lss \<Longrightarrow> cp \<in> set cps \<Longrightarrow>
   \<exists>ls. listen_port alloc ntop ngx_sort (cp_addrs cp) = Some ls \<and> set ls \<subseteq> set lss"
  by (induction cps arbitrary: lss) (fastforce split: option.splits)+

lemma optimize_servers_from:
  "ngx_nsoc_optimize_servers alloc ntop ngx_sort cps = Some lss \<Longrightarrow> l \<in> set lss \<Longrightarrow>
   \<exists>cp \<in> set cps. \<exists>ls. listen_port alloc ntop ngx_sort (cp_addrs cp) = Some ls \<and> l \<in> set ls"
  by (induction cps arbitrary: lss) (fastforce split: option.splits)+

lemma same_all_short: "sorted_wrt (\<lambda>x y. \<not> P x y) xs \<Longrightarrow> \<forall>x \<in> set xs. \<forall>y \<in> set xs. P x y \<Longrightarrow> length xs \<le> 1"
  by (cases xs; cases "tl xs") auto

lemma one_wildcard:
  assumes "listens_ok ds"
  shows "length (filter lo_wildcard (filter (\<lambda>d. port_matches d cp) ds)) \<le> 1"
proof (rule same_all_short [where P = same_socket])
  show "sorted_wrt (\<lambda>x y. \<not> same_socket x y) (filter lo_wildcard (filter (\<lambda>d. port_matches d cp) ds))"
    using assms unfolding listens_ok_def by (intro sorted_wrt_filter) blast
  have any: "any_address x \<Longrightarrow> any_address y \<Longrightarrow> is_inet6 x = is_inet6 y \<Longrightarrow> x = y" for x y
    by (cases x; cases y) auto
  show "\<forall>x \<in> set (filter lo_wildcard (filter (\<lambda>d. port_matches d cp) ds)).
      \<forall>y \<in> set (filter lo_wildcard (filter (\<lambda>d. port_matches d cp) ds)). same_socket x y"
    using assms any by (auto simp: listens_ok_def same_socket_def port_matches_def)
qed

lemma any_address_unique: "any_address x \<Longrightarrow> any_address y \<Longrightarrow> is_inet6 x = is_inet6 y \<Longrightarrow> x = y"
  by (cases x; cases y) auto

lemma serves_unique:
  assumes "listens_ok ds" and "serves ds ty p a d" and "serves ds ty p a d'"
  shows "d = d'"
proof -
  from assms have "same_socket d d'"
    unfolding serves_def listens_ok_def same_socket_def on_port_def using any_address_unique by metis
  with listens_ok_unique [OF assms(1)] assms(2,3) show ?thesis by (simp add: serves_def)
qed

lemma accepted_socket_serves:
  assumes "listens_ok ds" and "ports_of ds cps" and "sort_contract ngx_sort" and "\<not> any_address a"
    and "ngx_nsoc_optimize_servers alloc ntop ngx_sort cps = Some lss" and "accepts lss ty p a l"
  shows "\<exists>d. serves ds ty p a d \<and> scan_addrs a (ls_servers l) = Some (listen_conf ntop d)"
proof -
  from assms(6) have l: "l \<in> set lss" "socket_on ty p a l" by (simp_all add: accepts_def)
  from optimize_servers_from [OF assms(5) l(1)] obtain cp ls where cp: "cp \<in> set cps"
    and ls: "listen_port alloc ntop ngx_sort (cp_addrs cp) = Some ls" "l \<in> set ls" by blast
  from optimize_servers_in [OF assms(5) cp] ls(1) have sub: "set ls \<subseteq> set lss" by simp
  from assms(2) cp have addrs: "cp_addrs cp = filter (\<lambda>d. port_matches d cp) ds" "cp_addrs cp \<noteq> []"
    by (auto simp: ports_of_def)
  from assms(1) addrs(1) have "\<forall>d \<in> set (cp_addrs cp). lo_wildcard d = any_address (lo_addr d)"
    by (simp add: listens_ok_def)
  with listen_port_stands [OF assms(3) _ addrs(2) _ assms(4) ls(1)] one_wildcard [OF assms(1), of cp] addrs(1)
  have st: "stands_for ntop (cp_addrs cp) ls a" by simp
  have key: "ls_type l' = cp_type cp \<and> ls_port l' = cp_port cp \<and> is_inet6 (ls_addr l') = cp_inet6 cp"
    if "l' \<in> set ls" for l'
    using st that addrs(1) by (auto simp: stands_for_def port_matches_def)
  with l(2) ls(2) have cpk: "cp_type cp = ty" "cp_port cp = p" "cp_inet6 cp = is_inet6 a"
    by (auto simp: socket_on_def)
  with key have all: "socket_on ty p a l'" if "l' \<in> set ls" for l'
    using that by (auto simp: socket_on_def)
  have "ls_addr l = a \<or> ls_wildcard l \<and> (\<forall>l' \<in> set ls. ls_addr l' \<noteq> a)"
    using assms(6) all sub by (auto simp: accepts_def)
  with st ls(2) obtain d where d: "d \<in> set (cp_addrs cp)"
      "lo_addr d = a \<or> lo_wildcard d \<and> (\<forall>d' \<in> set (cp_addrs cp). lo_addr d' \<noteq> a)"
      "scan_addrs a (ls_servers l) = Some (listen_conf ntop d)"
    unfolding stands_for_def by blast
  have "set (cp_addrs cp) = {d \<in> set ds. on_port ty p a d}"
    using addrs(1) cpk by (auto simp: port_matches_def on_port_def)
  with d have "serves ds ty p a d" by (auto simp: serves_def)
  with d(3) show ?thesis by blast
qed

lemma make_listenings_ports:
  "make_listenings alloc ntop ngx_sort ds = Some lss \<Longrightarrow>
   \<exists>cps. ports_of ds cps \<and> ngx_nsoc_optimize_servers alloc ntop ngx_sort cps = Some lss"
  using ports_of_fold [of "[]" "[]" ds] by (auto simp: make_listenings_def ports_of_def)

lemma scan_short: "length xs \<le> 1 \<Longrightarrow> scan_addrs a xs = scan_addrs b xs"
  by (cases xs; cases "tl xs") auto

lemma init_connection_session:
  assumes "scan_addrs a (ac_servers acc) = Some conf" and "ac_local acc = Some a"
  shows "\<exists>e. ngx_nsoc_init_connection fuel pf envs t (True, True, True) True acc mem w = Ret True e \<and>
    phase_handler e = 0 \<and> s_noise_on (ss (se_io (session e))) = ac_noise_on conf \<and>
    s_server_noise_connection (ss (se_io (session e))) = None \<and> s_client_noise_connection (ss (se_io (session e))) = None"
  using assms scan_short [of "ac_servers acc" "Inet 0" a]
  by (simp add: ngx_nsoc_init_connection_def new_session_def Let_def)

section \<open>Properties\<close>

text \<open>
  Parameters for the witness: an address parser that knows two addresses, a sort by parts, and
  two server blocks of which one asks for noise on a single address.
\<close>

definition demo_lib :: conf_lib where
  "demo_lib = \<lparr>ngx_parse_url = (\<lambda>v. if v = ''10:80'' then Some (Inet 10, 80, False)
       else if v = ''*:80'' then Some (Inet 0, 80, True) else None),
     ngx_atoi = (\<lambda>v. NGX_ERROR), ngx_parse_time = (\<lambda>v. NGX_ERROR)\<rparr>"

definition demo_sort :: "listen_opt list \<Rightarrow> listen_opt list" where
  "demo_sort xs = filter (\<lambda>d. lo_bind d \<and> \<not> lo_wildcard d) xs
     @ filter (\<lambda>d. \<not> lo_bind d \<and> \<not> lo_wildcard d) xs @ filter lo_wildcard xs"

lemma sorted_wrt_all: "\<forall>x \<in> set xs. \<forall>y \<in> set xs. P x y \<Longrightarrow> sorted_wrt P xs"
  by (induction xs) auto

lemma sorted_wrt_short: "length xs \<le> 1 \<Longrightarrow> sorted_wrt P xs"
  by (cases xs) auto

lemma demo_sort_contract: "sort_contract demo_sort"
  unfolding sort_contract_def
proof (intro allI conjI impI)
  fix xs :: "listen_opt list"
  show "mset (demo_sort xs) = mset xs"
    unfolding demo_sort_def by (induction xs) auto
  assume w: "length (filter lo_wildcard xs) \<le> 1"
  let ?c = "\<lambda>a b. ngx_nsoc_cmp_conf_addrs a b \<le> 0"
  have "sorted_wrt ?c (filter (\<lambda>d. lo_bind d \<and> \<not> lo_wildcard d) xs)"
    "sorted_wrt ?c (filter (\<lambda>d. \<not> lo_bind d \<and> \<not> lo_wildcard d) xs)"
    by (rule sorted_wrt_all, simp add: ngx_nsoc_cmp_conf_addrs_def)+
  with sorted_wrt_short [OF w] show "sorted_wrt ?c (demo_sort xs)"
    by (auto simp: demo_sort_def sorted_wrt_append ngx_nsoc_cmp_conf_addrs_def)
qed

definition demo_ds :: "listen_opt list" where
  "demo_ds = [(new_listen 1 (Inet 10) 80 False)\<lparr>lo_noise_on := True\<rparr>, new_listen 2 (Inet 0) 80 True]"

definition demo_socket :: listening where
  "demo_socket = create_listening (\<lambda>_ _. []) ([hd demo_ds] @ [(demo_ds ! 1)\<lparr>lo_bind := True\<rparr>]) (length [hd demo_ds])"

lemma demo_configured: "configure demo_lib [(1, [''10:80'', ''noise'']), (2, [''*:80''])] [] = Some demo_ds"
  by (simp add: ngx_nsoc_core_listen_def demo_lib_def listen_param_def starts_def new_listen_def
      udp_conflict_def same_socket_def demo_ds_def)

lemma demo_listenings: "make_listenings (\<lambda>_. True) (\<lambda>_ _. []) demo_sort demo_ds = Some [demo_socket]"
  by (simp add: make_listenings_def demo_ds_def new_listen_def port_matches_def listen_port_def demo_sort_def
      listen_loop.simps demo_socket_def)

definition demo_accepted :: accepted where
  "demo_accepted = \<lparr>ac_servers = ls_servers demo_socket, ac_local = Some (Inet 10),
     ac_conn = plain_connection 1, ac_buffer = None, ac_stream = True\<rparr>"

text \<open>
  C31: the server block an administrator wrote for an address serves the connections to it.
  For every configuration that is accepted, when the kernel hands a connection with local
  address \<open>a\<close> to one of the listening sockets (the one bound to \<open>a\<close>, or else the wildcard
  one), the address table of the socket leads to the one directive for \<open>a\<close>, or to the
  wildcard directive if there is none; and the session starts with the noise flag of that
  directive.
\<close>

theorem connection_served_by_its_directive:
  assumes "url_contract L" and "configure L dirs [] = Some ds" and "sort_contract ngx_sort"
    and "make_listenings alloc ntop ngx_sort ds = Some lss"
    and "\<not> any_address a" and "accepts lss ty p a l"
    and "ac_servers acc = ls_servers l" and "ac_local acc = Some a"
  shows "\<exists>d e. serves ds ty p a d \<and> (\<forall>d'. serves ds ty p a d' \<longrightarrow> d' = d) \<and>
    scan_addrs a (ls_servers l) = Some (listen_conf ntop d) \<and>
    ngx_nsoc_init_connection fuel pf envs t (True, True, True) True acc mem w = Ret True e \<and>
    s_noise_on (ss (se_io (session e))) = lo_noise_on d"
proof -
  have ok: "listens_ok ds" using configure_ok [OF assms(1) _ assms(2)] by (simp add: listens_ok_def)
  from make_listenings_ports [OF assms(4)] obtain cps where
    "ports_of ds cps" "ngx_nsoc_optimize_servers alloc ntop ngx_sort cps = Some lss" by blast
  from accepted_socket_serves [OF ok this(1) assms(3,5) this(2) assms(6)] obtain d where
    d: "serves ds ty p a d" "scan_addrs a (ls_servers l) = Some (listen_conf ntop d)" by blast
  with init_connection_session [of a acc "listen_conf ntop d" fuel pf envs t mem w] assms(7,8)
  obtain e where e: "ngx_nsoc_init_connection fuel pf envs t (True, True, True) True acc mem w = Ret True e"
    "s_noise_on (ss (se_io (session e))) = lo_noise_on d" by (auto simp: listen_conf_def)
  from d e serves_unique [OF ok _ d(1)] show ?thesis by blast
qed

lemma connection_served_by_its_directive_witness:
  "\<exists>e. configure demo_lib [(1, [''10:80'', ''noise'']), (2, [''*:80''])] [] = Some demo_ds \<and>
     make_listenings (\<lambda>_. True) (\<lambda>_ _. []) demo_sort demo_ds = Some [demo_socket] \<and>
     accepts [demo_socket] SOCK_STREAM 80 (Inet 10) demo_socket \<and>
     ngx_nsoc_init_connection 1 0 (\<lambda>_. demo_env) [] (True, True, True) True demo_accepted (\<lambda>_. []) (script_world [])
       = Ret True e \<and>
     s_noise_on (ss (se_io (session e)))"
proof -
  have u: "url_contract demo_lib" by (auto simp: url_contract_def demo_lib_def split: if_splits)
  have acc: "accepts [demo_socket] SOCK_STREAM 80 (Inet 10) demo_socket"
    by (simp add: accepts_def socket_on_def demo_socket_def demo_ds_def new_listen_def create_listening_def)
  from connection_served_by_its_directive [OF u demo_configured demo_sort_contract demo_listenings _ acc,
      of demo_accepted 1 0 "\<lambda>_. demo_env" "[]" "\<lambda>_. []" "script_world []"]
  obtain d e where d: "serves demo_ds SOCK_STREAM 80 (Inet 10) d"
    and e: "ngx_nsoc_init_connection 1 0 (\<lambda>_. demo_env) [] (True, True, True) True demo_accepted (\<lambda>_. [])
      (script_world []) = Ret True e" "s_noise_on (ss (se_io (session e))) = lo_noise_on d"
    by (auto simp: demo_accepted_def)
  from d have "lo_noise_on d" by (auto simp: serves_def demo_ds_def new_listen_def on_port_def)
  with e acc demo_configured demo_listenings show ?thesis by blast
qed

text \<open>
  A failure before the session is attached crashes the worker. When the local address
  cannot be determined, or the session cannot be allocated, \<open>ngx_nsoc_close_connection\<close> is
  called while \<open>c->data\<close> is still null, and reads \<open>s->noise_on\<close> through it.
\<close>

theorem init_connection_failure_crashes:
  assumes "length (ac_servers acc) > 1 \<and> ac_local acc = None \<or> ac_servers acc \<noteq> [] \<and> \<not> alloc_s"
  shows "ngx_nsoc_init_connection fuel pf envs t (alloc_s, alloc_ctx, alloc_vars) mutex acc mem w = Crash Null_deref"
proof -
  have scan: "\<exists>conf. scan_addrs a xs = Some conf" if "xs \<noteq> []" for a xs
    using that by (induction a xs rule: scan_addrs.induct) auto
  show ?thesis
  proof (cases "length (ac_servers acc) > 1 \<and> ac_local acc = None")
    case True
    then show ?thesis by (simp add: ngx_nsoc_init_connection_def ngx_nsoc_close_connection_def Let_def)
  next
    case False
    with assms have "ac_servers acc \<noteq> []" "\<not> alloc_s" by auto
    moreover from scan [OF this(1)] obtain c c' where "scan_addrs (the (ac_local acc)) (ac_servers acc) = Some c"
      "scan_addrs (Inet 0) (ac_servers acc) = Some c'" by blast
    ultimately show ?thesis using False
      by (simp add: ngx_nsoc_init_connection_def ngx_nsoc_close_connection_def Let_def)
  qed
qed

lemma init_connection_failure_crashes_witness:
  "ngx_nsoc_init_connection 1 0 (\<lambda>_. demo_env) [] (False, True, True) False demo_accepted (\<lambda>_. []) (script_world [])
     = Crash Null_deref"
  by (rule init_connection_failure_crashes)
    (simp add: demo_accepted_def demo_socket_def create_listening_def ngx_nsoc_add_addrs_def)

end
