(* ===== verification/Nsoc_Proxy.thy ===== *)
theory Nsoc_Proxy
  imports Nsoc_Noiseserver Nsoc_Round_Robin
begin

text \<open>
  Model of the control part of \<open>src/ngx_nsoc_proxy_module.c\<close>: from the content handler over the
  choice of an upstream server, the connection to a peer and the handshake with it, to the
  next peer after a failure and the end of the session; and the module's configuration.

  The functions of this part call each other in tail position only (\<open>f(s); return;\<close>). A model
  function therefore returns the call it ends with, as a value of the type \<open>call\<close>, and
  \<open>proxy_run\<close> performs the calls one after the other. The relaying of data
  (\<open>ngx_nsoc_proxy_process\<close>) is where a run of this part ends.
\<close>

section \<open>Configuration\<close>

text \<open>A local address to bind to: a fixed one, or a value computed per session.\<close>

record upstream_local =
  ul_addr :: "string option"
  ul_value :: "string option"
  ul_transparent :: bool

text \<open>A configured upstream: its host and port, and the groups the balancer made of it.\<close>

record upstream_srv =
  uscf_host :: string
  uscf_port :: nat
  uscf_peers :: "rr_peers \<times> rr_peers option"

record proxy_srv_conf =
  connect_timeout :: "nat option"
  px_timeout :: "nat option"
  next_upstream_timeout :: "nat option"
  buffer_size :: "nat option"
  upload_rate :: "nat option"
  download_rate :: "nat option"
  responses :: "nat option"
  next_upstream_tries :: "nat option"
  next_upstream :: "bool option"
  px_local :: "upstream_local option option"
  noise_enable :: "bool option"
  px_noise :: "ngx_noise option"
  client_private_key_file :: "string option"
  server_public_key_file :: "string option"
  px_upstream :: "upstream_srv option"
  upstream_value :: "string option"

definition ngx_nsoc_proxy_create_srv_conf :: "bool \<Rightarrow> proxy_srv_conf option" where
  "ngx_nsoc_proxy_create_srv_conf alloc =
     (if alloc
      then Some \<lparr>connect_timeout = None, px_timeout = None, next_upstream_timeout = None, buffer_size = None,
                 upload_rate = None, download_rate = None, responses = None, next_upstream_tries = None,
                 next_upstream = None, px_local = None, noise_enable = None, px_noise = None,
                 client_private_key_file = None, server_public_key_file = None, px_upstream = None,
                 upstream_value = None\<rparr>
      else None)"

text \<open>
  The protocol numbers of Noise-C for the cipher, the curve, the hash and the pattern; the
  header keeps their lowest four bits.
\<close>

record noise_ids =
  id_cipher :: int
  id_dh :: int
  id_hash :: int
  id_pattern :: int

definition low4 :: "int \<Rightarrow> byte" where
  "low4 i = word_of_int (i AND 15)"

definition client_prologue :: "noise_ids \<Rightarrow> noise_prologue_data" where
  "client_prologue ids =
     \<lparr>strPrologue = prologue_text, header_len = swapw (word_of_nat NGX_NSOC_1MSG_NEG_DATA_SIZE),
      header = \<lparr>version_id = NGX_NSOC_VERSION_ID, dh_id = low4 (id_dh ids), cipher_id = low4 (id_cipher ids),
                hash_id = low4 (id_hash ids), pattern_id = low4 (id_pattern ids)\<rparr>\<rparr>"

text \<open>
  \<open>ngx_nsoc_proxy_set_noiselink\<close>: the result is the configuration with its noise context, or
  \<open>None\<close>; \<open>cln\<close> tells whether the clean-up could be registered.
\<close>

definition ngx_nsoc_proxy_set_noiselink ::
  "'w nginx \<Rightarrow> noise_ids \<Rightarrow> bool \<Rightarrow> (string \<Rightarrow> byte list option) \<Rightarrow> 64 word \<times> byte list \<Rightarrow>
   proxy_srv_conf \<Rightarrow> 'w \<Rightarrow> (proxy_srv_conf option, 'w) run" where
  "ngx_nsoc_proxy_set_noiselink N ids cln files place pscf w =
     (let (m, w1) = ngx_palloc N 1 w
      in if m = None then Ret None w1
         else
           (let (rc, noise, w2) = ngx_nsoc_create N (conf_value (buffer_size pscf)) zero_noise w1
            in if rc \<noteq> NGX_OK \<or> \<not> cln then Ret None w2
               else
                 (case (noise_ctx_p noise, client_private_key_file pscf) of
                    (Some ctx, Some (c # cs)) \<Rightarrow>
                      bind_run (load_public N files place (server_public_key_file pscf) ctx w2)
                        (\<lambda>pub w3. case pub of
                           None \<Rightarrow> Ret None w3
                         | Some ctx1 \<Rightarrow>
                             bind_run (load_private N files place (client_private_key_file pscf) ctx1 w3)
                               (\<lambda>priv w4. case priv of
                                  None \<Rightarrow> Ret None w4
                                | Some ctx2 \<Rightarrow>
                                    Ret (Some (pscf\<lparr>px_noise := Some (noise\<lparr>noise_ctx_p := Some ctx2,
                                        noise_handshake_timeout := conf_value (connect_timeout pscf),
                                        noise_prologue := client_prologue ids\<rparr>)\<rparr>)) w4))
                  | _ \<Rightarrow> Ret None w2)))"

definition ngx_nsoc_proxy_merge_srv_conf ::
  "'w nginx \<Rightarrow> noise_ids \<Rightarrow> bool \<Rightarrow> (string \<Rightarrow> byte list option) \<Rightarrow> 64 word \<times> byte list \<Rightarrow>
   proxy_srv_conf \<Rightarrow> proxy_srv_conf \<Rightarrow> 'w \<Rightarrow> (proxy_srv_conf option, 'w) run" where
  "ngx_nsoc_proxy_merge_srv_conf N ids cln files place prev conf w =
     (let conf1 = conf\<lparr>connect_timeout := merge_value (connect_timeout conf) (connect_timeout prev) 60000,
            px_timeout := merge_value (px_timeout conf) (px_timeout prev) (10 * 60000),
            next_upstream_timeout := merge_value (next_upstream_timeout conf) (next_upstream_timeout prev) 0,
            buffer_size := merge_value (buffer_size conf) (buffer_size prev) NOISE_PROTOCOL_PAYLOAD_SIZE\<rparr>
      in if conf_value (buffer_size conf1) > NOISE_PROTOCOL_PAYLOAD_SIZE then Ret None w
         else
           (let conf2 = conf1\<lparr>upload_rate := merge_value (upload_rate conf1) (upload_rate prev) 0,
                  download_rate := merge_value (download_rate conf1) (download_rate prev) 0,
                  responses := merge_value (responses conf1) (responses prev) (2 ^ 31 - 1),
                  next_upstream_tries := merge_value (next_upstream_tries conf1) (next_upstream_tries prev) 0,
                  next_upstream := merge_value (next_upstream conf1) (next_upstream prev) True,
                  px_local := merge_value (px_local conf1) (px_local prev) None,
                  noise_enable := merge_value (noise_enable conf1) (noise_enable prev) False,
                  client_private_key_file :=
                    merge_value (client_private_key_file conf1) (client_private_key_file prev) [],
                  server_public_key_file :=
                    merge_value (server_public_key_file conf1) (server_public_key_file prev) []\<rparr>
            in if noise_enable conf2 = Some True
               then ngx_nsoc_proxy_set_noiselink N ids cln files place conf2 w
               else Ret (Some conf2) w))"

section \<open>State\<close>

text \<open>Times that have not been taken are \<open>(ngx_msec_t) -1\<close>, here \<open>None\<close>.\<close>

record upstream_state =
  ust_response_time :: nat
  ust_connect_time :: "nat option"
  ust_first_byte_time :: "nat option"
  ust_bytes_sent :: int
  ust_bytes_received :: int
  ust_peer :: string

record resolved =
  rs_host :: string
  rs_port :: nat
  rs_no_port :: bool
  rs_naddrs :: nat
  rs_addrs :: "string list"
  rs_sockaddr :: "string option"
  rs_ctx :: bool

text \<open>A link of a chain: a buffer into a region of the session's memory.\<close>

record link =
  lk_region :: nat
  lk_pos :: nat
  lk_last :: nat
  lk_temporary :: bool
  lk_last_buf :: bool
  lk_flush :: bool

text \<open>
  A session of the proxy. \<open>px_rr\<close> is the balancer's part of \<open>u->peer\<close>: \<open>pc_peer\<close> of it is
  \<open>u->peer.sockaddr\<close>, \<open>pc_tries\<close> is \<open>u->peer.tries\<close>. \<open>px_pc\<close> is \<open>u->peer.connection\<close>, \<open>px_opened\<close>
  and \<open>px_closed\<close> the upstream sockets opened and closed so far. Buffers and chains of
  buffers are regions of the session's memory; \<open>px_free\<close> counts the links that can be used
  again, and \<open>px_saved\<close> those of a direction the write filter still has to send.
\<close>

record ('w, 'h, 'k) px =
  px_s :: "('w, 'h, 'k) sess"
  px_has_upstream :: bool
  px_rr :: rr_state
  px_pc :: "ngx_connection option"
  px_pc_nodelay :: nodelay
  px_opened :: nat
  px_closed :: nat
  px_states :: "upstream_state list"
  px_connected :: bool
  px_received :: int
  px_start_time :: nat
  px_local_addr :: "string option"
  px_resolved :: "resolved option"
  px_downstream_buf :: "conn_buf option"
  px_upstream_buf :: "conn_buf option"
  px_upstream_out :: "link list"
  px_upstream_busy :: "link list"
  px_downstream_out :: "link list"
  px_downstream_busy :: "link list"
  px_free :: nat
  px_start_sec :: int
  px_responses :: nat
  px_saved :: "bool \<Rightarrow> nat"

text \<open>The rest of nginx and of the system: connecting, socket options, time, parsers, the resolver.\<close>

record px_url =
  url_host :: string
  url_port :: nat
  url_no_port :: bool
  url_addr :: "string option"

record 'w px_os =
  os_connect :: "string \<Rightarrow> 'w \<Rightarrow> int \<times> ngx_connection option \<times> 'w"
  os_setsockopt :: "nat \<Rightarrow> 'w \<Rightarrow> bool \<times> 'w"
  os_so_error :: "nat \<Rightarrow> 'w \<Rightarrow> int"
  os_msec :: "'w \<Rightarrow> nat"
  os_time :: "'w \<Rightarrow> int"
  os_parse_url :: "string \<Rightarrow> px_url option"
  os_parse_addr_port :: "string \<Rightarrow> int"
  os_complex_value :: "string \<Rightarrow> 'w \<Rightarrow> string option"
  os_resolve :: "string \<Rightarrow> 'w \<Rightarrow> int \<times> 'w"

record ('w, 'h, 'k) px_env =
  pe_core :: "('w, 'h, 'k) core_env"
  pe_conf :: proxy_srv_conf
  pe_os :: "'w px_os"
  pe_fuel :: nat
  pe_upstreams :: "upstream_srv list"

datatype call =
    Done
  | Finalize int
  | Connect
  | Init_upstream
  | Noise_init
  | Noise_handshake
  | Next_upstream
  | Process bool bool

abbreviation px_world where "px_world p \<equiv> net (se_io (px_s p))"
abbreviation px_ss where "px_ss p \<equiv> ss (se_io (px_s p))"
abbreviation set_world where "set_world w p \<equiv> p\<lparr>px_s := upd_io (\<lambda>t. t\<lparr>net := w\<rparr>) (px_s p)\<rparr>"
abbreviation pe_nginx where "pe_nginx env \<equiv> ce_nginx (pe_core env)"
abbreviation px_now where "px_now env p \<equiv> os_msec (pe_os env) (px_world p)"
abbreviation px_sec where "px_sec env p \<equiv> os_time (pe_os env) (px_world p)"

definition upd_last :: "('a \<Rightarrow> 'a) \<Rightarrow> 'a list \<Rightarrow> 'a list" where
  "upd_last f xs = (if xs = [] then [] else butlast xs @ [f (last xs)])"

text \<open>One allocation from the pool.\<close>

definition px_alloc ::
  "('w, 'h, 'k) px_env \<Rightarrow> nat \<Rightarrow> ('w, 'h, 'k) px \<Rightarrow> byte list option \<times> ('w, 'h, 'k) px" where
  "px_alloc env n p = (let (m, w) = ngx_palloc (pe_nginx env) n (px_world p) in (m, set_world w p))"

text \<open>\<open>ngx_chain_get_free_buf\<close>: a link that is free, or a new one.\<close>

definition chain_get_free ::
  "('w, 'h, 'k) px_env \<Rightarrow> ('w, 'h, 'k) px \<Rightarrow> bool \<times> ('w, 'h, 'k) px" where
  "chain_get_free env p =
     (if px_free p > 0 then (True, p\<lparr>px_free := px_free p - 1\<rparr>)
      else (let (m, p1) = px_alloc env 1 p in (m \<noteq> None, p1)))"

section \<open>The end of a session\<close>

definition free_peer ::
  "('w, 'h, 'k) px_env \<Rightarrow> bool \<Rightarrow> ('w, 'h, 'k) px \<Rightarrow> (unit, ('w, 'h, 'k) px) run" where
  "free_peer env failed p =
     (if pc_peer (rr_pc (px_rr p)) = None then Ret () p
      else case ngx_nsoc_upstream_free_round_robin_peer (px_sec env p) failed (px_rr p) of
             Ret _ rr \<Rightarrow> Ret () (p\<lparr>px_rr := rr\<lparr>rr_pc := (rr_pc rr)\<lparr>pc_peer := None\<rparr>\<rparr>\<rparr>)
           | Crash e \<Rightarrow> Crash e
           | Diverge \<Rightarrow> Diverge)"

definition count_bytes :: "('w, 'h, 'k) px \<Rightarrow> ngx_connection \<Rightarrow> upstream_state \<Rightarrow> upstream_state" where
  "count_bytes p c st = st\<lparr>ust_bytes_received := px_received p, ust_bytes_sent := c_sent c\<rparr>"

definition close_pc :: "('w, 'h, 'k) px \<Rightarrow> ('w, 'h, 'k) px" where
  "close_pc p = (if px_pc p = None then p else p\<lparr>px_pc := None, px_closed := Suc (px_closed p)\<rparr>)"

text \<open>The resolver's context is released and the record of the current try is completed.\<close>

definition end_try :: "('w, 'h, 'k) px_env \<Rightarrow> ('w, 'h, 'k) px \<Rightarrow> ('w, 'h, 'k) px" where
  "end_try env p =
     p\<lparr>px_resolved := map_option (\<lambda>r. r\<lparr>rs_ctx := False\<rparr>) (px_resolved p),
       px_states := upd_last (\<lambda>st.
         (let st1 = st\<lparr>ust_response_time := px_now env p - ust_response_time st\<rparr>
          in case px_pc p of None \<Rightarrow> st1 | Some c \<Rightarrow> count_bytes p c st1)) (px_states p)\<rparr>"

definition ngx_nsoc_proxy_finalize ::
  "('w, 'h, 'k) px_env \<Rightarrow> int \<Rightarrow> ('w, 'h, 'k) px \<Rightarrow> (call, ('w, 'h, 'k) px) run" where
  "ngx_nsoc_proxy_finalize env rc p =
     bind_run
       (if \<not> px_has_upstream p then Ret () p
        else bind_run (free_peer env False (end_try env p)) (\<lambda>_ p1. Ret () (close_pc p1)))
       (\<lambda>_ p2. case ngx_nsoc_finalize_session (ce_log (pe_core env)) rc (px_s p2) of
                 Ret _ s \<Rightarrow> Ret Done (p2\<lparr>px_s := s\<rparr>)
               | Crash e \<Rightarrow> Crash e
               | Diverge \<Rightarrow> Diverge)"

section \<open>The next upstream\<close>

definition note_bytes :: "('w, 'h, 'k) px \<Rightarrow> ('w, 'h, 'k) px" where
  "note_bytes p = (case px_pc p of
                     None \<Rightarrow> p
                   | Some c \<Rightarrow> p\<lparr>px_states := upd_last (count_bytes p c) (px_states p)\<rparr>)"

definition ngx_nsoc_proxy_next_upstream ::
  "('w, 'h, 'k) px_env \<Rightarrow> ('w, 'h, 'k) px \<Rightarrow> (call, ('w, 'h, 'k) px) run" where
  "ngx_nsoc_proxy_next_upstream env p =
     (if px_upstream_out p \<noteq> [] \<or> px_upstream_busy p \<noteq> []
         \<or> (case px_pc p of None \<Rightarrow> False | Some c \<Rightarrow> c_buffered c \<noteq> 0)
      then Ret (Finalize NGX_NSOC_INTERNAL_SERVER_ERROR) p
      else
        bind_run (free_peer env True p)
          (\<lambda>_ p1.
             let timeout = conf_value (next_upstream_timeout (pe_conf env))
             in if pc_tries (rr_pc (px_rr p1)) = 0 \<or> next_upstream (pe_conf env) = Some False
                   \<or> timeout \<noteq> 0 \<and> px_now env p1 - px_start_time p1 \<ge> timeout
                then Ret (Finalize NGX_NSOC_BAD_GATEWAY) p1
                else Ret Connect (close_pc (note_bytes p1))))"

section \<open>Connecting\<close>

text \<open>
  \<open>ngx_event_connect_peer\<close> asks the balancer for a peer and, when it gets one, opens a socket
  to it.
\<close>

definition event_connect_peer ::
  "('w, 'h, 'k) px_env \<Rightarrow> ('w, 'h, 'k) px \<Rightarrow> (int, ('w, 'h, 'k) px) run" where
  "event_connect_peer env p =
     (case ngx_nsoc_upstream_get_round_robin_peer (px_sec env p) (px_rr p) of
        Crash e \<Rightarrow> Crash e
      | Diverge \<Rightarrow> Diverge
      | Ret rc rr \<Rightarrow>
          if rc \<noteq> NGX_OK then Ret rc (p\<lparr>px_rr := rr\<rparr>)
          else
            (let (rc, c, w) = os_connect (pe_os env) (pc_name (rr_pc rr)) (px_world p)
             in Ret rc ((set_world w p)\<lparr>px_rr := rr, px_pc := c, px_pc_nodelay := NGX_TCP_NODELAY_UNSET,
                          px_opened := (if c = None then px_opened p else Suc (px_opened p))\<rparr>)))"

definition ngx_nsoc_proxy_connect ::
  "('w, 'h, 'k) px_env \<Rightarrow> ('w, 'h, 'k) px \<Rightarrow> (call, ('w, 'h, 'k) px) run" where
  "ngx_nsoc_proxy_connect env p =
     (let p1 = p\<lparr>px_connected := False,
            px_states := upd_last (\<lambda>st. st\<lparr>ust_response_time := px_now env p - ust_response_time st\<rparr>) (px_states p)\<rparr>;
          (m, p2) = px_alloc env 1 p1
      in if m = None then Ret (Finalize NGX_NSOC_INTERNAL_SERVER_ERROR) p2
         else
           (let p3 = p2\<lparr>px_states := px_states p2 @
                  [\<lparr>ust_response_time = px_now env p2, ust_connect_time = None, ust_first_byte_time = None,
                    ust_bytes_sent = 0, ust_bytes_received = 0, ust_peer = []\<rparr>]\<rparr>
            in bind_run (event_connect_peer env p3)
                 (\<lambda>rc p4.
                    if rc = NGX_ERROR then Ret (Finalize NGX_NSOC_INTERNAL_SERVER_ERROR) p4
                    else
                      (let p5 = p4\<lparr>px_states := upd_last (\<lambda>st. st\<lparr>ust_peer := pc_name (rr_pc (px_rr p4))\<rparr>) (px_states p4)\<rparr>
                       in if rc = NGX_BUSY then Ret (Finalize NGX_NSOC_BAD_GATEWAY) p5
                          else if rc = NGX_DECLINED then Ret Next_upstream p5
                          else case px_pc p5 of
                                 None \<Rightarrow> Crash Null_deref
                               | Some c \<Rightarrow>
                                   if rc \<noteq> NGX_AGAIN then Ret Init_upstream p5
                                   else
                                     (let c1 = upd_write (\<lambda>ev. ev\<lparr>ev_handler := H_proxy_connect\<rparr>)
                                                 (upd_read (\<lambda>ev. ev\<lparr>ev_handler := H_proxy_connect\<rparr>) c);
                                          c2 = upd_write (\<lambda>ev. ngx_add_timer (pe_nginx env) ev
                                                 (conf_value (connect_timeout (pe_conf env)))) c1
                                      in Ret Done (p5\<lparr>px_pc := Some c2\<rparr>))))))"

section \<open>A connected upstream\<close>

text \<open>The regions of the session's memory the two relay buffers live in.\<close>

definition downstream_region :: nat where "downstream_region = 1"
definition upstream_region :: nat where "upstream_region = 2"

definition relay_size :: "proxy_srv_conf \<Rightarrow> nat" where
  "relay_size pscf = conf_value (buffer_size pscf) + NOISE_PROTOCOL_MAC_DATA_SIZE + 2 * NGX_NSOC_LEN_FIELD_SIZE"

definition new_relay_buf :: "nat \<Rightarrow> byte list \<Rightarrow> conn_buf" where
  "new_relay_buf region m = \<lparr>cb_region = region, cb_pos = 0, cb_last = 0, cb_end = length m\<rparr>"

definition put_region :: "nat \<Rightarrow> byte list \<Rightarrow> ('w, 'h, 'k) px \<Rightarrow> ('w, 'h, 'k) px" where
  "put_region r m p = p\<lparr>px_s := upd_io (\<lambda>t. t\<lparr>smem := (smem t)(r := m)\<rparr>) (px_s p)\<rparr>"

definition notify_connect :: "('w, 'h, 'k) px \<Rightarrow> (unit, ('w, 'h, 'k) px) run" where
  "notify_connect p =
     (case ngx_nsoc_upstream_notify_round_robin_peer True (px_rr p) of
        Ret _ rr \<Rightarrow> Ret () (p\<lparr>px_rr := rr\<rparr>) | Crash e \<Rightarrow> Crash e | Diverge \<Rightarrow> Diverge)"

text \<open>The upstream's buffer, made once per session; \<open>False\<close> when it cannot be allocated.\<close>

definition need_upstream_buf ::
  "('w, 'h, 'k) px_env \<Rightarrow> ('w, 'h, 'k) px \<Rightarrow> bool \<times> ('w, 'h, 'k) px" where
  "need_upstream_buf env p =
     (if px_upstream_buf p \<noteq> None then (True, p)
      else (let (m, p1) = px_alloc env (relay_size (pe_conf env)) p
            in case m of
                 None \<Rightarrow> (False, p1)
               | Some m \<Rightarrow> (True, (put_region upstream_region m p1)
                              \<lparr>px_upstream_buf := Some (new_relay_buf upstream_region m)\<rparr>)))"

text \<open>What the preread phase read goes in front of the data for the upstream.\<close>

definition add_preread ::
  "('w, 'h, 'k) px_env \<Rightarrow> ('w, 'h, 'k) px \<Rightarrow> bool \<times> ('w, 'h, 'k) px" where
  "add_preread env p =
     (case se_buffer (px_s p) of
        None \<Rightarrow> (True, p)
      | Some b \<Rightarrow>
          if cb_pos b < cb_last b then
            (let (ok, p1) = chain_get_free env p
             in if \<not> ok then (False, p1)
                else (True, p1\<lparr>px_upstream_out :=
                       \<lparr>lk_region = cb_region b, lk_pos = cb_pos b, lk_last = cb_last b, lk_temporary = True,
                        lk_last_buf = (\<not> se_stream (px_s p1)), lk_flush = True\<rparr> # px_upstream_out p1\<rparr>))
          else (True, p))"

definition start_relay ::
  "('w, 'h, 'k) px_env \<Rightarrow> ngx_connection \<Rightarrow> ('w, 'h, 'k) px \<Rightarrow> (call, ('w, 'h, 'k) px) run" where
  "start_relay env c p =
     (let p1 = p\<lparr>px_states := upd_last (\<lambda>st. st\<lparr>ust_connect_time :=
                   Some (px_now env p - ust_response_time st)\<rparr>) (px_states p)\<rparr>
      in bind_run (notify_connect p1)
           (\<lambda>_ p2.
              let (ok, p3) = need_upstream_buf env p2
              in if \<not> ok then Ret (Finalize NGX_NSOC_INTERNAL_SERVER_ERROR) p3
                 else
                   (let (ok, p4) = add_preread env p3
                    in if \<not> ok then Ret (Finalize NGX_NSOC_INTERNAL_SERVER_ERROR) p4
                       else
                         (let c1 = (if \<not> se_stream (px_s p4) \<and> conf_value (responses (pe_conf env)) = 0
                                    then upd_read (\<lambda>ev. ev\<lparr>ev_ready := False, ev_eof := True\<rparr>) c else c);
                              c2 = upd_write (\<lambda>ev. ev\<lparr>ev_handler := H_proxy_upstream\<rparr>)
                                     (upd_read (\<lambda>ev. ev\<lparr>ev_handler := H_proxy_upstream\<rparr>) c1)
                          in Ret (Process False True) (p4\<lparr>px_connected := True, px_pc := Some c2\<rparr>)))))"

text \<open>
  \<open>ngx_nsoc_proxy_init_upstream\<close>. A noise upstream needs a handshake first; it is started when
  the session has no client noise connection.
\<close>

definition ngx_nsoc_proxy_init_upstream ::
  "('w, 'h, 'k) px_env \<Rightarrow> ('w, 'h, 'k) px \<Rightarrow> (call, ('w, 'h, 'k) px) run" where
  "ngx_nsoc_proxy_init_upstream env p =
     (case px_pc p of
        None \<Rightarrow> Crash Null_deref
      | Some c \<Rightarrow>
          (let wants = (se_stream (px_s p) \<and> cscf_tcp_nodelay (ce_srv (pe_core env)) \<noteq> Some False
                        \<and> px_pc_nodelay p = NGX_TCP_NODELAY_UNSET);
               (ok, w) = (if wants then os_setsockopt (pe_os env) (c_id c) (px_world p) else (True, px_world p));
               p1 = set_world w p
           in if \<not> ok then Ret Next_upstream p1
              else
                (let p2 = (if wants then p1\<lparr>px_pc_nodelay := NGX_TCP_NODELAY_SET\<rparr> else p1)
                 in if se_stream (px_s p2) \<and> px_noise (pe_conf env) \<noteq> None
                       \<and> s_client_noise_connection (px_ss p2) = None
                    then Ret Noise_init p2
                    else start_relay env c p2)))"

text \<open>The session seen from the upstream socket, and back.\<close>

definition on_pc ::
  "(('w, 'h, 'k) sst \<Rightarrow> ('a, ('w, 'h, 'k) sst) run) \<Rightarrow> ngx_connection \<Rightarrow> ('w, 'h, 'k) px \<Rightarrow>
   ('a, ('w, 'h, 'k) px) run" where
  "on_pc f c p =
     (case f ((se_io (px_s p))\<lparr>sock := c\<rparr>) of
        Ret a t \<Rightarrow> Ret a (p\<lparr>px_s := (px_s p)\<lparr>se_io := t\<lparr>sock := sock (se_io (px_s p))\<rparr>\<rparr>, px_pc := Some (sock t)\<rparr>)
      | Crash e \<Rightarrow> Crash e
      | Diverge \<Rightarrow> Diverge)"

definition ngx_nsoc_proxy_noise_init_connection ::
  "('w, 'h, 'k) px_env \<Rightarrow> ('w, 'h, 'k) px \<Rightarrow> (call, ('w, 'h, 'k) px) run" where
  "ngx_nsoc_proxy_noise_init_connection env p =
     (case (px_pc p, px_noise (pe_conf env)) of
        (Some c, Some noise) \<Rightarrow>
          (let (rc, ss', w) = ngx_nsoc_create_connection (pe_nginx env) noise (c_id c) True True
                                (px_ss p) (px_world p);
               p1 = p\<lparr>px_s := upd_io (\<lambda>t. t\<lparr>ss := ss', net := w\<rparr>) (px_s p)\<rparr>
           in if rc \<noteq> NGX_OK then Ret (Finalize NGX_NSOC_INTERNAL_SERVER_ERROR) p1
              else
                bind_run (on_pc (ngx_nsoc_handshake (pe_fuel env) (pe_nginx env) (ce_noise (pe_core env))) c p1)
                  (\<lambda>rc p2.
                     if rc = NGX_AGAIN then
                       (case s_client_noise_connection (px_ss p2) of
                          None \<Rightarrow> Crash Null_deref
                        | Some x \<Rightarrow>
                            Ret Done (p2\<lparr>px_s := upd_io (\<lambda>t. t\<lparr>ss := (ss t)\<lparr>s_client_noise_connection :=
                               Some (x\<lparr>nc_handler := CH_proxy\<rparr>)\<rparr>\<rparr>) (px_s p2)\<rparr>))
                     else Ret Noise_handshake p2))
      | _ \<Rightarrow> Crash Null_deref)"

definition ngx_nsoc_proxy_noise_handshake ::
  "('w, 'h, 'k) px_env \<Rightarrow> ('w, 'h, 'k) px \<Rightarrow> (call, ('w, 'h, 'k) px) run" where
  "ngx_nsoc_proxy_noise_handshake env p =
     (case s_client_noise_connection (px_ss p) of
        None \<Rightarrow> Crash Null_deref
      | Some x \<Rightarrow>
          if nc_handshaked x then
            Ret Init_upstream (p\<lparr>px_pc := map_option (\<lambda>c.
               if ev_timer_set (c_write c) then upd_write (ngx_del_timer (pe_nginx env)) c else c) (px_pc p)\<rparr>)
          else Ret Next_upstream p)"

section \<open>Performing the calls\<close>

fun proxy_step ::
  "('w, 'h, 'k) px_env \<Rightarrow> call \<Rightarrow> ('w, 'h, 'k) px \<Rightarrow> (call, ('w, 'h, 'k) px) run" where
  "proxy_step env Done p = Ret Done p"
| "proxy_step env (Finalize rc) p = ngx_nsoc_proxy_finalize env rc p"
| "proxy_step env Connect p = ngx_nsoc_proxy_connect env p"
| "proxy_step env Init_upstream p = ngx_nsoc_proxy_init_upstream env p"
| "proxy_step env Noise_init p = ngx_nsoc_proxy_noise_init_connection env p"
| "proxy_step env Noise_handshake p = ngx_nsoc_proxy_noise_handshake env p"
| "proxy_step env Next_upstream p = ngx_nsoc_proxy_next_upstream env p"
| "proxy_step env (Process b d) p = Ret (Process b d) p"

fun stops :: "call \<Rightarrow> bool" where
  "stops Done \<longleftrightarrow> True"
| "stops (Process b d) \<longleftrightarrow> True"
| "stops _ \<longleftrightarrow> False"

fun proxy_run ::
  "nat \<Rightarrow> ('w, 'h, 'k) px_env \<Rightarrow> call \<Rightarrow> ('w, 'h, 'k) px \<Rightarrow> (call, ('w, 'h, 'k) px) run" where
  "proxy_run 0 env f p = (if stops f then Ret f p else Diverge)"
| "proxy_run (Suc fuel) env f p =
     (if stops f then Ret f p else bind_run (proxy_step env f p) (\<lambda>g q. proxy_run fuel env g q))"

section \<open>Events\<close>

text \<open>The answer of a connect that had to wait.\<close>

definition ngx_nsoc_proxy_test_connect :: "('w, 'h, 'k) px_env \<Rightarrow> ngx_connection \<Rightarrow> 'w \<Rightarrow> int" where
  "ngx_nsoc_proxy_test_connect env c w =
     (if os_so_error (pe_os env) (c_id c) w \<noteq> 0 then NGX_ERROR else NGX_OK)"

definition ngx_nsoc_proxy_connect_handler ::
  "('w, 'h, 'k) px_env \<Rightarrow> bool \<Rightarrow> ('w, 'h, 'k) px \<Rightarrow> (call, ('w, 'h, 'k) px) run" where
  "ngx_nsoc_proxy_connect_handler env timedout p =
     (case px_pc p of
        None \<Rightarrow> Crash Null_deref
      | Some c \<Rightarrow>
          if timedout then Ret Next_upstream p
          else
            (let p1 = p\<lparr>px_pc := Some (upd_write (ngx_del_timer (pe_nginx env)) c)\<rparr>
             in if ngx_nsoc_proxy_test_connect env c (px_world p1) \<noteq> NGX_OK
                then Ret Next_upstream p1 else Ret Init_upstream p1))"

text \<open>
  An event on one of the two sockets while data is relayed. \<open>on_client\<close> tells whose socket,
  \<open>is_write\<close> whether it is the write event; \<open>from_upstream\<close> follows from both.
\<close>

definition px_event :: "bool \<Rightarrow> bool \<Rightarrow> ('w, 'h, 'k) px \<Rightarrow> ngx_event option" where
  "px_event on_client is_write p =
     map_option (\<lambda>c. if is_write then c_write c else c_read c)
       (if on_client then Some (sock (se_io (px_s p))) else px_pc p)"

definition upd_event ::
  "bool \<Rightarrow> bool \<Rightarrow> (ngx_event \<Rightarrow> ngx_event) \<Rightarrow> ('w, 'h, 'k) px \<Rightarrow> ('w, 'h, 'k) px" where
  "upd_event on_client is_write f p =
     (let g = (\<lambda>c. if is_write then upd_write f c else upd_read f c)
      in if on_client then p\<lparr>px_s := upd_sock g (px_s p)\<rparr> else p\<lparr>px_pc := map_option g (px_pc p)\<rparr>)"

definition handle_event ::
  "('w, 'h, 'k) px_env \<Rightarrow> bool \<Rightarrow> ('w, 'h, 'k) px \<Rightarrow> int \<times> ('w, 'h, 'k) px" where
  "handle_event env on_client p =
     (case (if on_client then Some (sock (se_io (px_s p))) else px_pc p) of
        None \<Rightarrow> (NGX_ERROR, p)
      | Some c \<Rightarrow>
          (let (rc, c', w) = ngx_handle_read_event (pe_nginx env) c (px_world p); p1 = set_world w p
           in (rc, if on_client then p1\<lparr>px_s := upd_sock (\<lambda>_. c') (px_s p1)\<rparr> else p1\<lparr>px_pc := Some c'\<rparr>)))"

definition ngx_nsoc_proxy_process_connection ::
  "('w, 'h, 'k) px_env \<Rightarrow> bool \<Rightarrow> bool \<Rightarrow> bool \<Rightarrow> ('w, 'h, 'k) px \<Rightarrow> (call, ('w, 'h, 'k) px) run" where
  "ngx_nsoc_proxy_process_connection env on_client is_write from_upstream p =
     (case px_event on_client is_write p of
        None \<Rightarrow> Crash Null_deref
      | Some ev \<Rightarrow>
          (let relay = (\<lambda>p. Ret (if from_upstream \<and> \<not> px_connected p then Done
                                 else Process from_upstream is_write) p)
           in if ev_timedout ev then
                (let p1 = upd_event on_client is_write (\<lambda>e. e\<lparr>ev_timedout := False\<rparr>) p
                 in if ev_delayed ev then
                      (let p2 = upd_event on_client is_write (\<lambda>e. e\<lparr>ev_delayed := False\<rparr>) p1
                       in if ev_ready ev then relay p2
                          else
                            (let (rc, p3) = handle_event env on_client p2
                             in if rc \<noteq> NGX_OK then Ret (Finalize NGX_NSOC_INTERNAL_SERVER_ERROR) p3
                                else Ret Done
                                  (if px_connected p3 \<and> \<not> ev_delayed (c_read (sock (se_io (px_s p3))))
                                      \<and> (case px_pc p3 of None \<Rightarrow> True | Some c \<Rightarrow> \<not> ev_delayed (c_read c))
                                   then p3\<lparr>px_s := upd_sock (upd_write (\<lambda>e. ngx_add_timer (pe_nginx env) e
                                          (conf_value (px_timeout (pe_conf env))))) (px_s p3)\<rparr>
                                   else p3)))
                    else if \<not> se_stream (px_s p1) \<and> conf_value (responses (pe_conf env)) = 2 ^ 31 - 1 then
                      Ret (Process True False)
                        (p1\<lparr>px_pc := map_option (upd_read (\<lambda>e. e\<lparr>ev_ready := False, ev_eof := True\<rparr>)) (px_pc p1)\<rparr>)
                    else if \<not> se_stream (px_s p1) \<and> px_received p1 = 0 then Ret Next_upstream p1
                    else Ret (Finalize NGX_NSOC_OK) p1)
              else if ev_delayed ev then
                (let (rc, p1) = handle_event env on_client p
                 in Ret (if rc \<noteq> NGX_OK then Finalize NGX_NSOC_INTERNAL_SERVER_ERROR else Done) p1)
              else relay p))"

definition ngx_nsoc_proxy_downstream_handler ::
  "('w, 'h, 'k) px_env \<Rightarrow> bool \<Rightarrow> ('w, 'h, 'k) px \<Rightarrow> (call, ('w, 'h, 'k) px) run" where
  "ngx_nsoc_proxy_downstream_handler env is_write =
     ngx_nsoc_proxy_process_connection env True is_write is_write"

definition ngx_nsoc_proxy_upstream_handler ::
  "('w, 'h, 'k) px_env \<Rightarrow> bool \<Rightarrow> ('w, 'h, 'k) px \<Rightarrow> (call, ('w, 'h, 'k) px) run" where
  "ngx_nsoc_proxy_upstream_handler env is_write =
     ngx_nsoc_proxy_process_connection env False is_write (\<not> is_write)"

section \<open>The content handler\<close>

text \<open>The local address: \<open>None\<close> is an error, \<open>Some p\<close> the state to go on with.\<close>

definition ngx_nsoc_proxy_set_local ::
  "('w, 'h, 'k) px_env \<Rightarrow> upstream_local option \<Rightarrow> ('w, 'h, 'k) px \<Rightarrow> bool \<times> ('w, 'h, 'k) px" where
  "ngx_nsoc_proxy_set_local env lc p =
     (case lc of
        None \<Rightarrow> (True, p\<lparr>px_local_addr := None\<rparr>)
      | Some l \<Rightarrow>
          (case ul_value l of
             None \<Rightarrow> (True, p\<lparr>px_local_addr := ul_addr l\<rparr>)
           | Some v \<Rightarrow>
               (case os_complex_value (pe_os env) v (px_world p) of
                  None \<Rightarrow> (False, p)
                | Some [] \<Rightarrow> (True, p)
                | Some a \<Rightarrow>
                    (let (m, p1) = px_alloc env 1 p; rc = os_parse_addr_port (pe_os env) a
                     in if m = None then (False, p1)
                        else if rc = NGX_ERROR then (False, p1)
                        else if rc \<noteq> NGX_OK then (True, p1)
                        else (True, p1\<lparr>px_local_addr := Some a\<rparr>)))))"

definition ngx_nsoc_proxy_eval ::
  "('w, 'h, 'k) px_env \<Rightarrow> string \<Rightarrow> ('w, 'h, 'k) px \<Rightarrow> bool \<times> ('w, 'h, 'k) px" where
  "ngx_nsoc_proxy_eval env v p =
     (case os_complex_value (pe_os env) v (px_world p) of
        None \<Rightarrow> (False, p)
      | Some h \<Rightarrow>
          (case os_parse_url (pe_os env) h of
             None \<Rightarrow> (False, p)
           | Some u \<Rightarrow>
               (let (m, p1) = px_alloc env 1 p
                in if m = None then (False, p1)
                   else (True, p1\<lparr>px_resolved := Some
                          \<lparr>rs_host = url_host u, rs_port = url_port u, rs_no_port = url_no_port u,
                           rs_naddrs = (if url_addr u = None then 0 else 1), rs_addrs = [],
                           rs_sockaddr = url_addr u, rs_ctx = False\<rparr>\<rparr>))))"

definition lower :: "char \<Rightarrow> char" where
  "lower c = (if of_char c \<ge> (65 :: nat) \<and> of_char c \<le> (90 :: nat) then char_of (of_char c + 32 :: nat) else c)"

definition matches_upstream :: "resolved \<Rightarrow> upstream_srv \<Rightarrow> bool" where
  "matches_upstream r us \<longleftrightarrow> length (uscf_host us) = length (rs_host r) \<and>
     (uscf_port us = 0 \<and> rs_no_port r \<or> uscf_port us = rs_port r) \<and>
     map lower (uscf_host us) = map lower (rs_host r)"

definition new_pc :: "bool \<Rightarrow> nat \<Rightarrow> peer_connection" where
  "new_pc stream tries = \<lparr>pc_peer = None, pc_name = [], pc_connected = False, pc_stream = stream, pc_tries = tries\<rparr>"

text \<open>
  \<open>ngx_nsoc_upstream_create_round_robin_peer\<close> on the session: the balancer's state for
  addresses that are known only now.
\<close>

definition create_peer :: "('w, 'h, 'k) px_env \<Rightarrow> resolved \<Rightarrow> ('w, 'h, 'k) px \<Rightarrow> bool \<times> ('w, 'h, 'k) px" where
  "create_peer env r p =
     (let (m, p1) = px_alloc env 1 p
      in case ngx_nsoc_upstream_create_round_robin_peer (m \<noteq> None) (rs_host r) (rs_sockaddr r) (rs_addrs r) (rs_naddrs r) of
           None \<Rightarrow> (False, p1)
         | Some (g, d, tries) \<Rightarrow>
             (True, p1\<lparr>px_rr := \<lparr>rr_primary = g, rr_backup = None, rr_data = d,
                                 rr_pc = new_pc (se_stream (px_s p1)) tries\<rparr>\<rparr>))"

text \<open>\<open>uscf->peer.init\<close> and the limit on the number of tries.\<close>

definition limit_tries :: "('w, 'h, 'k) px_env \<Rightarrow> ('w, 'h, 'k) px \<Rightarrow> ('w, 'h, 'k) px" where
  "limit_tries env p =
     (let lim = conf_value (next_upstream_tries (pe_conf env)); rr = px_rr p; p1 = p\<lparr>px_start_time := px_now env p\<rparr>
      in if lim \<noteq> 0 \<and> pc_tries (rr_pc rr) > lim
         then p1\<lparr>px_rr := rr\<lparr>rr_pc := (rr_pc rr)\<lparr>pc_tries := lim\<rparr>\<rparr>\<rparr> else p1)"

definition use_upstream ::
  "('w, 'h, 'k) px_env \<Rightarrow> upstream_srv option \<Rightarrow> ('w, 'h, 'k) px \<Rightarrow> (call, ('w, 'h, 'k) px) run" where
  "use_upstream env us p =
     (case us of
        None \<Rightarrow> Ret (Finalize NGX_NSOC_INTERNAL_SERVER_ERROR) p
      | Some u \<Rightarrow>
          (let (m, p1) = px_alloc env 1 p; (g, b) = uscf_peers u
           in case ngx_nsoc_upstream_init_round_robin_peer False (m \<noteq> None) g b of
                None \<Rightarrow> Ret (Finalize NGX_NSOC_INTERNAL_SERVER_ERROR) p1
              | Some (d, tries) \<Rightarrow>
                  Ret Connect (limit_tries env (p1\<lparr>px_rr := \<lparr>rr_primary = g, rr_backup = b, rr_data = d,
                     rr_pc = new_pc (se_stream (px_s p1)) tries\<rparr>\<rparr>))))"

definition use_resolved ::
  "('w, 'h, 'k) px_env \<Rightarrow> resolved \<Rightarrow> ('w, 'h, 'k) px \<Rightarrow> (call, ('w, 'h, 'k) px) run" where
  "use_resolved env r p =
     (case find (matches_upstream r) (pe_upstreams env) of
        Some u \<Rightarrow> use_upstream env (Some u) p
      | None \<Rightarrow>
          if rs_port r = 0 then Ret (Finalize NGX_NSOC_INTERNAL_SERVER_ERROR) p
          else if rs_sockaddr r \<noteq> None then
            (let (ok, p1) = create_peer env r p
             in Ret (if ok then Connect else Finalize NGX_NSOC_INTERNAL_SERVER_ERROR) p1)
          else
            (let (rc, w) = os_resolve (pe_os env) (rs_host r) (px_world p); p1 = set_world w p
             in if rc \<noteq> NGX_OK then Ret (Finalize NGX_NSOC_INTERNAL_SERVER_ERROR) p1
                else Ret Done (p1\<lparr>px_resolved := Some (r\<lparr>rs_ctx := True\<rparr>)\<rparr>)))"

definition set_downstream_handlers :: "('w, 'h, 'k) px \<Rightarrow> ('w, 'h, 'k) px" where
  "set_downstream_handlers p = p\<lparr>px_s := upd_sock (\<lambda>c. upd_read (\<lambda>e. e\<lparr>ev_handler := H_proxy_downstream\<rparr>)
     (upd_write (\<lambda>e. e\<lparr>ev_handler := H_proxy_downstream\<rparr>) c)) (px_s p)\<rparr>"

definition need_downstream_buf ::
  "('w, 'h, 'k) px_env \<Rightarrow> ('w, 'h, 'k) px \<Rightarrow> bool \<times> ('w, 'h, 'k) px" where
  "need_downstream_buf env p =
     (if \<not> se_stream (px_s p) then (True, p)
      else (let (m, p1) = px_alloc env (relay_size (pe_conf env)) p
            in case m of
                 None \<Rightarrow> (False, p1)
               | Some m \<Rightarrow> (True, (put_region downstream_region m p1)
                              \<lparr>px_downstream_buf := Some (new_relay_buf downstream_region m)\<rparr>)))"

definition choose_upstream ::
  "('w, 'h, 'k) px_env \<Rightarrow> ('w, 'h, 'k) px \<Rightarrow> (call, ('w, 'h, 'k) px) run" where
  "choose_upstream env p =
     (let (ok, p1) = (case upstream_value (pe_conf env) of None \<Rightarrow> (True, p) | Some v \<Rightarrow> ngx_nsoc_proxy_eval env v p)
      in if \<not> ok then Ret (Finalize NGX_NSOC_INTERNAL_SERVER_ERROR) p1
         else case px_resolved p1 of
                None \<Rightarrow> use_upstream env (px_upstream (pe_conf env)) p1
              | Some r \<Rightarrow> use_resolved env r p1)"

definition ngx_nsoc_proxy_handler ::
  "('w, 'h, 'k) px_env \<Rightarrow> ('w, 'h, 'k) px \<Rightarrow> (call, ('w, 'h, 'k) px) run" where
  "ngx_nsoc_proxy_handler env p =
     (let (m, p1) = px_alloc env 1 p; fail = Finalize NGX_NSOC_INTERNAL_SERVER_ERROR
      in if m = None then Ret fail p1
         else
           (let (ok, p2) = ngx_nsoc_proxy_set_local env
                  (case px_local (pe_conf env) of None \<Rightarrow> None | Some l \<Rightarrow> l) (p1\<lparr>px_has_upstream := True\<rparr>)
            in if \<not> ok then Ret fail p2
               else
                 (let (m, p3) = px_alloc env 1 (set_downstream_handlers (p2\<lparr>px_start_sec := px_sec env p2\<rparr>))
                  in if m = None then Ret fail p3
                     else
                       (let (ok, p4) = need_downstream_buf env p3
                        in if \<not> ok then Ret fail p4 else choose_upstream env p4))))"

text \<open>The resolver's answer: its state and the addresses.\<close>

definition ngx_nsoc_proxy_resolve_handler ::
  "('w, 'h, 'k) px_env \<Rightarrow> int \<Rightarrow> string list \<Rightarrow> ('w, 'h, 'k) px \<Rightarrow> (call, ('w, 'h, 'k) px) run" where
  "ngx_nsoc_proxy_resolve_handler env st addrs p =
     (case px_resolved p of
        None \<Rightarrow> Crash Null_deref
      | Some r \<Rightarrow>
          if st \<noteq> 0 then Ret (Finalize NGX_NSOC_INTERNAL_SERVER_ERROR) p
          else
            (let r1 = r\<lparr>rs_naddrs := length addrs, rs_addrs := addrs\<rparr>;
                 (ok, p1) = create_peer env r1 (p\<lparr>px_resolved := Some r1\<rparr>)
             in if \<not> ok then Ret (Finalize NGX_NSOC_INTERNAL_SERVER_ERROR) p1
                else Ret Connect (limit_tries env (p1\<lparr>px_resolved := Some (r1\<lparr>rs_ctx := False\<rparr>)\<rparr>))))"

end
