(* ===== verification/Nsoc_Failover.thy ===== *)
theory Nsoc_Failover
  imports Nsoc_Proxy
begin

text \<open>
  What the proxy's run of calls guarantees: it comes to an end because every failed peer uses
  up a try of the balancer, it closes every upstream socket it opens, and it relays over a
  finished handshake as long as it stays with one peer. The last part shows that the second
  peer of a session is talked to in the clear.
\<close>

section \<open>What the proxy relies on in a balancer\<close>

text \<open>
  A balancer hands out a peer or is busy, and neither changes the number of tries; giving a
  peer back uses up a try, or ends the tries. Whoever draws a peer and gives it back until
  no try is left does so at most \<open>tries\<close> times.
\<close>

locale peer_balancer =
  fixes get :: "int \<Rightarrow> 'b \<Rightarrow> (int, 'b) run"
    and give_back :: "int \<Rightarrow> bool \<Rightarrow> 'b \<Rightarrow> (unit, 'b) run"
    and notify :: "bool \<Rightarrow> 'b \<Rightarrow> (unit, 'b) run"
    and tries :: "'b \<Rightarrow> nat"
    and held :: "'b \<Rightarrow> bool"
  assumes get_result: "get now s = Ret rc t \<Longrightarrow> tries t = tries s \<and> (rc = NGX_OK \<and> held t \<or> rc = NGX_BUSY)"
    and give_back_tries: "give_back now failed s = Ret u t \<Longrightarrow> tries t = 0 \<or> tries t < tries s"
    and notify_keeps: "notify c s = Ret u t \<Longrightarrow> tries t = tries s \<and> held t = held s"
    and no_divergence: "get now s \<noteq> Diverge" "give_back now failed s \<noteq> Diverge" "notify c s \<noteq> Diverge"
begin

lemma draw_and_fail:
  assumes "get now s = Ret rc t" and "give_back now' failed t = Ret u v" and "tries v \<noteq> 0"
  shows "tries v < tries s"
  using get_result [OF assms(1)] give_back_tries [OF assms(2)] assms(3) by simp

end

lemma set_group_session [simp]: "rr_pc (set_group g ps s) = rr_pc s" "rr_data (set_group g ps s) = rr_data s"
  by (cases g; simp)+

lemma take_peer_session [simp]:
  "pc_tries (rr_pc (take_peer g i ps s)) = pc_tries (rr_pc s)" "pc_peer (rr_pc (take_peer g i ps s)) = Some (g, i)"
  by (simp_all add: take_peer_def Let_def)

lemma get_from_session:
  "get_from now g ps s = Ret found t \<Longrightarrow>
   pc_tries (rr_pc t) = pc_tries (rr_pc s) \<and> (found \<longrightarrow> pc_peer (rr_pc t) \<noteq> None)"
  by (auto simp: get_from_def split: if_splits list.splits option.splits)

lemma rr_get_session:
  "ngx_nsoc_upstream_get_round_robin_peer now s = Ret rc t \<Longrightarrow>
   pc_tries (rr_pc t) = pc_tries (rr_pc s) \<and> (rc = NGX_OK \<and> pc_peer (rr_pc t) \<noteq> None \<or> rc = NGX_BUSY)"
  by (auto simp: ngx_nsoc_upstream_get_round_robin_peer_def bind_run_Ret_iff busy_def Let_def
      dest!: get_from_session split: option.splits if_splits)

lemma upd_peer_session: "upd_peer g i f s = Some t \<Longrightarrow> rr_pc t = rr_pc s"
  by (auto simp: upd_peer_def split: option.splits if_splits)

lemma rr_free_session:
  "ngx_nsoc_upstream_free_round_robin_peer now failed s = Ret u t \<Longrightarrow>
   pc_tries (rr_pc t) = 0 \<or> pc_tries (rr_pc t) < pc_tries (rr_pc s)"
  by (auto simp: ngx_nsoc_upstream_free_round_robin_peer_def dest!: upd_peer_session
      split: option.splits prod.splits if_splits)

lemma rr_notify_session:
  "ngx_nsoc_upstream_notify_round_robin_peer c s = Ret u t \<Longrightarrow> rr_pc t = rr_pc s"
  by (auto simp: ngx_nsoc_upstream_notify_round_robin_peer_def dest!: upd_peer_session
      split: option.splits prod.splits if_splits)

lemma get_from_no_diverge: "get_from now g ps s \<noteq> Diverge"
  by (auto simp: get_from_def split: list.splits option.splits)

lemma bind_run_Diverge_iff: "bind_run r g = Diverge \<longleftrightarrow> r = Diverge \<or> (\<exists>a t. r = Ret a t \<and> g a t = Diverge)"
  by (cases r) auto

lemma rr_get_no_diverge: "ngx_nsoc_upstream_get_round_robin_peer now s \<noteq> Diverge"
  by (auto simp: ngx_nsoc_upstream_get_round_robin_peer_def Let_def bind_run_Diverge_iff get_from_no_diverge
      split: option.splits if_splits)

interpretation rrb: peer_balancer ngx_nsoc_upstream_get_round_robin_peer
  ngx_nsoc_upstream_free_round_robin_peer ngx_nsoc_upstream_notify_round_robin_peer
  "\<lambda>s. pc_tries (rr_pc s)" "\<lambda>s. pc_peer (rr_pc s) \<noteq> None"
proof unfold_locales
  show "ngx_nsoc_upstream_free_round_robin_peer now failed s \<noteq> Diverge" for now failed s
    by (auto simp: ngx_nsoc_upstream_free_round_robin_peer_def split: option.splits prod.splits)
  show "ngx_nsoc_upstream_notify_round_robin_peer c s \<noteq> Diverge" for c s
    by (auto simp: ngx_nsoc_upstream_notify_round_robin_peer_def split: option.splits prod.splits)
qed (use rr_get_session rr_free_session rr_notify_session rr_get_no_diverge in auto)

section \<open>Failover comes to an end\<close>

abbreviation px_tries where "px_tries p \<equiv> pc_tries (rr_pc (px_rr p))"
abbreviation px_held where "px_held p \<equiv> pc_peer (rr_pc (px_rr p)) \<noteq> None"
abbreviation client_nc where "client_nc p \<equiv> s_client_noise_connection (px_ss p)"

fun rank :: "call \<Rightarrow> ('w, 'h, 'k) px \<Rightarrow> nat" where
  "rank Done p = 0"
| "rank (Process b d) p = 0"
| "rank (Finalize rc) p = 1"
| "rank Next_upstream p = 2"
| "rank Init_upstream p = (if client_nc p = None then 6 else 3)"
| "rank Noise_handshake p = 4"
| "rank Noise_init p = 5"
| "rank Connect p = 7"

definition calls_left :: "call \<Rightarrow> ('w, 'h, 'k) px \<Rightarrow> nat" where
  "calls_left f p = 8 * px_tries p + rank f p"

text \<open>
  Between a successful draw and the peer's return the session holds the peer, and a handshake
  is started only when the session has no client noise connection.
\<close>

definition call_pre :: "call \<Rightarrow> ('w, 'h, 'k) px \<Rightarrow> bool" where
  "call_pre f p \<longleftrightarrow> (f \<in> {Init_upstream, Noise_init, Noise_handshake, Next_upstream} \<longrightarrow> px_held p)
     \<and> (f = Noise_init \<longrightarrow> client_nc p = None)"

text \<open>A function of a smaller state run inside a larger one.\<close>

lemma lift_run_Ret_iff:
  "(case r of Ret a s \<Rightarrow> Ret (g a s) (h a s) | Crash e \<Rightarrow> Crash e | Diverge \<Rightarrow> Diverge) = Ret f q \<longleftrightarrow>
   (\<exists>a s. r = Ret a s \<and> g a s = f \<and> h a s = q)"
  by (cases r) auto

lemma lift_run_Diverge_iff:
  "(case r of Ret a s \<Rightarrow> Ret (g a s) (h a s) | Crash e \<Rightarrow> Crash e | Diverge \<Rightarrow> Diverge) = Diverge \<longleftrightarrow> r = Diverge"
  by (cases r) auto

lemmas run_iffs = bind_run_Ret_iff bind_run_Diverge_iff lift_run_Ret_iff lift_run_Diverge_iff

text \<open>What most operations leave alone.\<close>

abbreviation px_frame where
  "px_frame p \<equiv> (px_pc p, px_opened p, px_closed p, px_ss p)"

abbreviation px_kept where
  "px_kept p q \<equiv> (px_has_upstream p \<longrightarrow> px_has_upstream q) \<and> (se_stream (px_s p) \<longrightarrow> se_stream (px_s q))"

lemma px_alloc_frame: "px_alloc env n p = (m, q) \<Longrightarrow> px_frame q = px_frame p \<and> px_kept p q \<and> px_rr q = px_rr p"
  by (auto simp: px_alloc_def split: prod.splits)

lemma free_peer_frame:
  assumes "free_peer env failed p = Ret u q"
  shows "px_frame q = px_frame p \<and> px_kept p q \<and> \<not> px_held q \<and> (px_held p \<longrightarrow> px_tries q = 0 \<or> px_tries q < px_tries p)
    \<and> px_tries q \<le> px_tries p"
proof (cases "px_held p")
  case True
  then obtain v rr where free: "ngx_nsoc_upstream_free_round_robin_peer (px_sec env p) failed (px_rr p) = Ret v rr"
    and q: "q = p\<lparr>px_rr := rr\<lparr>rr_pc := (rr_pc rr)\<lparr>pc_peer := None\<rparr>\<rparr>\<rparr>"
    using assms by (auto simp: free_peer_def split: run.splits)
  then show ?thesis using rrb.give_back_tries [OF free] by auto
next
  case False
  then have "pc_peer (rr_pc (px_rr p)) = None" by blast
  then show ?thesis using assms by (simp add: free_peer_def)
qed

lemma free_peer_no_diverge: "free_peer env failed p \<noteq> Diverge"
  by (simp add: free_peer_def rrb.no_divergence split: run.splits)

lemma close_pc_simps [simp]:
  "px_pc (close_pc p) = None" "px_rr (close_pc p) = px_rr p" "px_s (close_pc p) = px_s p"
  "px_opened (close_pc p) = px_opened p" "px_has_upstream (close_pc p) = px_has_upstream p"
  "px_closed (close_pc p) = px_closed p + (if px_pc p = None then 0 else 1)"
  by (simp_all add: close_pc_def)

lemma end_try_simps [simp]:
  "px_pc (end_try env p) = px_pc p" "px_rr (end_try env p) = px_rr p" "px_s (end_try env p) = px_s p"
  "px_opened (end_try env p) = px_opened p" "px_closed (end_try env p) = px_closed p"
  "px_has_upstream (end_try env p) = px_has_upstream p"
  by (simp_all add: end_try_def)

lemma finalize_frame:
  assumes "ngx_nsoc_proxy_finalize env rc p = Ret f q"
  shows "f = Done \<and> px_tries q \<le> px_tries p \<and>
    (px_has_upstream p \<longrightarrow> px_has_upstream q \<and> px_pc q = None \<and> \<not> px_held q \<and> px_opened q = px_opened p \<and>
       px_closed q = px_closed p + (if px_pc p = None then 0 else 1))"
  using assms
  by (auto simp: ngx_nsoc_proxy_finalize_def run_iffs dest!: free_peer_frame split: if_splits)

lemma event_connect_frame:
  assumes "event_connect_peer env p = Ret rc q"
  shows "px_tries q = px_tries p \<and> px_ss q = px_ss p \<and> px_kept p q
    \<and> px_closed q = px_closed p \<and> (rc = NGX_BUSY \<or> px_held q)
    \<and> (px_pc p = None \<longrightarrow> px_opened q = px_opened p + (if px_pc q = None then 0 else 1))"
  using assms
  by (auto simp: event_connect_peer_def dest!: rrb.get_result split: run.splits if_splits prod.splits)

lemma event_connect_no_diverge: "event_connect_peer env p \<noteq> Diverge"
  by (auto simp: event_connect_peer_def rrb.no_divergence Let_def split: run.splits prod.splits)

lemma notify_connect_frame:
  "notify_connect p = Ret u q \<Longrightarrow> px_frame q = px_frame p \<and> px_kept p q \<and> px_s q = px_s p \<and> px_tries q = px_tries p"
  by (auto simp: notify_connect_def run_iffs dest!: rrb.notify_keeps)

lemma need_upstream_buf_frame:
  "need_upstream_buf env p = (ok, q) \<Longrightarrow> px_frame q = px_frame p \<and> px_kept p q \<and> px_rr q = px_rr p"
  by (auto simp: need_upstream_buf_def put_region_def Let_def dest!: px_alloc_frame
      split: if_splits prod.splits option.splits)

lemma chain_get_free_frame:
  "chain_get_free env p = (ok, q) \<Longrightarrow> px_frame q = px_frame p \<and> px_kept p q \<and> px_rr q = px_rr p"
  by (auto simp: chain_get_free_def dest!: px_alloc_frame split: if_splits prod.splits)

lemma add_preread_frame:
  "add_preread env p = (ok, q) \<Longrightarrow> px_frame q = px_frame p \<and> px_kept p q \<and> px_rr q = px_rr p"
  by (auto simp: add_preread_def Let_def dest!: chain_get_free_frame split: if_splits prod.splits option.splits)

text \<open>Starting to relay ends the run of calls, and keeps how the upstream's socket is read and written.\<close>

definition same_io :: "ngx_connection \<Rightarrow> ngx_connection \<Rightarrow> bool" where
  "same_io c d \<longleftrightarrow> c_send c = c_send d \<and> c_recv c = c_recv d \<and> c_send_chain c = c_send_chain d
     \<and> c_recv_chain c = c_recv_chain d"

lemma start_relay_frame:
  assumes "start_relay env c p = Ret f q" and pc: "px_pc p = Some c"
  shows "px_tries q = px_tries p \<and> px_opened q = px_opened p \<and> px_closed q = px_closed p \<and> px_ss q = px_ss p \<and>
    px_kept p q \<and> ((\<exists>rc. f = Finalize rc) \<or> f = Process False True) \<and>
    (\<exists>c'. px_pc q = Some c' \<and> same_io c' c)"
proof -
  define p1 where "p1 = p\<lparr>px_states := upd_last (\<lambda>st. st\<lparr>ust_connect_time :=
    Some (px_now env p - ust_response_time st)\<rparr>) (px_states p)\<rparr>"
  obtain u p2 where p2: "notify_connect p1 = Ret u p2"
    using assms(1) by (auto simp: start_relay_def run_iffs p1_def Let_def)
  obtain ok3 p3 where p3: "need_upstream_buf env p2 = (ok3, p3)" by (rule prod.exhaust)
  obtain ok4 p4 where p4: "add_preread env p3 = (ok4, p4)" by (rule prod.exhaust)
  have k1: "px_frame p1 = px_frame p \<and> px_kept p p1 \<and> px_tries p1 = px_tries p" by (simp add: p1_def)
  have k2: "px_frame p2 = px_frame p \<and> px_kept p p2 \<and> px_tries p2 = px_tries p"
    using notify_connect_frame [OF p2] k1 by simp
  have k3: "px_frame p3 = px_frame p \<and> px_kept p p3 \<and> px_tries p3 = px_tries p"
    using need_upstream_buf_frame [OF p3] k2 by simp
  have k4: "px_frame p4 = px_frame p \<and> px_kept p p4 \<and> px_tries p4 = px_tries p"
    using add_preread_frame [OF p4] k3 by simp
  consider (no_buf) "\<not> ok3" "f = Finalize NGX_NSOC_INTERNAL_SERVER_ERROR" "q = p3"
    | (no_chain) "ok3" "\<not> ok4" "f = Finalize NGX_NSOC_INTERNAL_SERVER_ERROR" "q = p4"
    | (relay) c' where "f = Process False True" "q = p4\<lparr>px_connected := True, px_pc := Some c'\<rparr>" "same_io c' c"
    using assms(1) p2 p3 p4
    by (auto simp: start_relay_def p1_def [symmetric] Let_def same_io_def split: if_splits)
  then show ?thesis
  proof cases
    case relay
    then show ?thesis using k4 by simp
  qed (use k3 k4 pc in \<open>simp_all add: same_io_def\<close>)
qed

text \<open>The upstream sockets opened are those closed and the one in use; a connect starts with none.\<close>

definition sockets_ok :: "call \<Rightarrow> ('w, 'h, 'k) px \<Rightarrow> bool" where
  "sockets_ok f p \<longleftrightarrow> px_has_upstream p \<and> px_opened p = px_closed p + (if px_pc p = None then 0 else 1)
     \<and> (f = Connect \<longrightarrow> px_pc p = None)"

definition good_step :: "call \<Rightarrow> ('w, 'h, 'k) px \<Rightarrow> call \<Rightarrow> ('w, 'h, 'k) px \<Rightarrow> bool" where
  "good_step f p g q \<longleftrightarrow> (sockets_ok f p \<longrightarrow> sockets_ok g q) \<and>
     (call_pre f p \<longrightarrow> call_pre g q \<and> calls_left g q < calls_left f p)"

lemmas good_step_defs = good_step_def sockets_ok_def call_pre_def calls_left_def

lemma finalize_step: "ngx_nsoc_proxy_finalize env rc p = Ret g q \<Longrightarrow> good_step (Finalize rc) p g q"
  by (drule finalize_frame) (auto simp: good_step_defs)

lemma note_bytes_simps [simp]:
  "px_pc (note_bytes p) = px_pc p" "px_rr (note_bytes p) = px_rr p" "px_s (note_bytes p) = px_s p"
  "px_opened (note_bytes p) = px_opened p" "px_closed (note_bytes p) = px_closed p"
  "px_has_upstream (note_bytes p) = px_has_upstream p"
  by (simp_all add: note_bytes_def split: option.splits)

lemma next_upstream_cases:
  assumes "ngx_nsoc_proxy_next_upstream env p = Ret g q"
  obtains (unsent) "g = Finalize NGX_NSOC_INTERNAL_SERVER_ERROR" "q = p"
  | (last) u where "g = Finalize NGX_NSOC_BAD_GATEWAY" "free_peer env True p = Ret u q"
  | (again) u p1 where "g = Connect" "free_peer env True p = Ret u p1" "px_tries p1 \<noteq> 0"
      "q = close_pc (note_bytes p1)"
proof (cases "free_peer env True p")
  case (Ret u p1)
  then show thesis
    using assms that by (simp only: ngx_nsoc_proxy_next_upstream_def Let_def bind_run.simps split: if_splits)
      (simp_all add: that)
qed (use assms that(1) in \<open>simp_all add: ngx_nsoc_proxy_next_upstream_def split: if_splits\<close>)

lemma next_upstream_step:
  assumes "ngx_nsoc_proxy_next_upstream env p = Ret g q"
  shows "good_step Next_upstream p g q"
  using assms
proof (cases rule: next_upstream_cases)
  case last
  then show ?thesis using free_peer_frame [OF last(2)] by (auto simp: good_step_defs)
next
  case again
  then show ?thesis using free_peer_frame [OF again(2)] by (auto simp: good_step_defs)
qed (simp add: good_step_defs)

lemma init_upstream_cases:
  assumes "ngx_nsoc_proxy_init_upstream env p = Ret g q"
  obtains c p' where "px_pc p = Some c" "px_frame p' = px_frame p" "px_rr p' = px_rr p"
      "px_has_upstream p' = px_has_upstream p" "se_stream (px_s p') = se_stream (px_s p)"
      "g = Next_upstream \<and> q = p' \<or> g = Noise_init \<and> q = p' \<and> client_nc p = None \<or> start_relay env c p' = Ret g q \<and>
       \<not> (se_stream (px_s p) \<and> px_noise (pe_conf env) \<noteq> None \<and> client_nc p = None)"
proof -
  obtain c where c: "px_pc p = Some c" using assms by (auto simp: ngx_nsoc_proxy_init_upstream_def split: option.splits)
  define wants where "wants \<longleftrightarrow> se_stream (px_s p) \<and> cscf_tcp_nodelay (ce_srv (pe_core env)) \<noteq> Some False
    \<and> px_pc_nodelay p = NGX_TCP_NODELAY_UNSET"
  obtain ok w where w: "(if wants then os_setsockopt (pe_os env) (c_id c) (px_world p) else (True, px_world p)) = (ok, w)"
    by (rule prod.exhaust)
  define p2 where "p2 = (if wants then (set_world w p)\<lparr>px_pc_nodelay := NGX_TCP_NODELAY_SET\<rparr> else set_world w p)"
  have p2: "px_frame p2 = px_frame p" "px_rr p2 = px_rr p" "px_has_upstream p2 = px_has_upstream p"
    "se_stream (px_s p2) = se_stream (px_s p)" by (simp_all add: p2_def)
  have run: "(if \<not> ok then Ret Next_upstream (set_world w p)
     else if se_stream (px_s p2) \<and> px_noise (pe_conf env) \<noteq> None \<and> client_nc p2 = None
     then Ret Noise_init p2 else start_relay env c p2) = Ret g q"
    using assms c w by (simp add: ngx_nsoc_proxy_init_upstream_def wants_def [symmetric] p2_def [symmetric] Let_def
        split del: if_split cong: if_cong)
  show thesis
  proof (cases ok)
    case True
    with run p2 show thesis by (intro that [OF c p2]) (simp split: if_splits)
  next
    case False
    with run show thesis by (intro that [OF c, of "set_world w p"]) auto
  qed
qed

lemma init_upstream_step:
  assumes "ngx_nsoc_proxy_init_upstream env p = Ret g q"
  shows "good_step Init_upstream p g q"
  using assms
proof (cases rule: init_upstream_cases)
  case (1 c p')
  then show ?thesis using start_relay_frame [of env c p' g q] by (auto simp: good_step_defs)
qed

lemma on_pc_frame:
  "on_pc f c p = Ret a q \<Longrightarrow> px_rr q = px_rr p \<and> px_opened q = px_opened p \<and> px_closed q = px_closed p
     \<and> px_kept p q \<and> px_pc q \<noteq> None"
  by (auto simp: on_pc_def run_iffs)

lemma noise_init_step:
  assumes "ngx_nsoc_proxy_noise_init_connection env p = Ret g q"
  shows "good_step Noise_init p g q"
  using assms
  by (auto simp: ngx_nsoc_proxy_noise_init_connection_def run_iffs Let_def good_step_defs
      dest!: on_pc_frame split: option.splits prod.splits if_splits)

lemma noise_handshake_step:
  "ngx_nsoc_proxy_noise_handshake env p = Ret g q \<Longrightarrow> good_step Noise_handshake p g q"
  by (auto simp: ngx_nsoc_proxy_noise_handshake_def good_step_defs split: option.splits if_splits)

lemma connect_frame:
  assumes "ngx_nsoc_proxy_connect env p = Ret g q"
  shows "px_tries q = px_tries p \<and> px_ss q = px_ss p \<and> px_kept p q \<and> px_closed q = px_closed p \<and>
    (px_pc p = None \<longrightarrow> px_opened q = px_opened p + (if px_pc q = None then 0 else 1)) \<and>
    (g \<in> {Next_upstream, Init_upstream} \<and> px_held q \<or> g = Done \<or> (\<exists>rc. g = Finalize rc))"
proof -
  define p1 where "p1 = p\<lparr>px_connected := False,
    px_states := upd_last (\<lambda>st. st\<lparr>ust_response_time := px_now env p - ust_response_time st\<rparr>) (px_states p)\<rparr>"
  obtain m p2 where p2: "px_alloc env 1 p1 = (m, p2)" by (rule prod.exhaust)
  have frame: "px_frame p2 = px_frame p" "px_kept p p2" "px_rr p2 = px_rr p"
    using px_alloc_frame [OF p2] by (simp_all add: p1_def)
  show ?thesis
  proof (cases m)
    case None
    then show ?thesis using assms p2 frame
      by (auto simp: ngx_nsoc_proxy_connect_def p1_def [symmetric] Let_def)
  next
    case (Some _)
    then obtain rc p3 p4 where p4: "event_connect_peer env p3 = Ret rc p4"
      and p3: "px_frame p3 = px_frame p" "px_kept p p3" "px_rr p3 = px_rr p"
      and g: "g \<in> {Next_upstream, Init_upstream} \<and> rc \<noteq> NGX_BUSY \<or> g = Done \<or> (\<exists>rc. g = Finalize rc)"
      and q: "px_opened q = px_opened p4" "px_closed q = px_closed p4" "px_has_upstream p4 \<longrightarrow> px_has_upstream q"
        "px_rr q = px_rr p4" "px_s q = px_s p4" "px_pc q = None \<longleftrightarrow> px_pc p4 = None"
      using assms p2 frame
      by (auto simp: ngx_nsoc_proxy_connect_def p1_def [symmetric] Let_def run_iffs split: if_splits option.splits)
    show ?thesis
      using event_connect_frame [OF p4] p3 g q by auto
  qed
qed

lemma connect_step: "ngx_nsoc_proxy_connect env p = Ret g q \<Longrightarrow> good_step Connect p g q"
  by (drule connect_frame) (auto simp: good_step_defs)

lemma good_step: "proxy_step env f p = Ret g q \<Longrightarrow> \<not> stops f \<Longrightarrow> good_step f p g q"
  by (cases f) (auto intro: finalize_step connect_step init_upstream_step noise_init_step
      noise_handshake_step next_upstream_step)

text \<open>
  The environment's part: closing the session returns, and so does the start of a handshake on
  a fresh connection.
\<close>

definition settles :: "('w, 'h, 'k) px_env \<Rightarrow> bool" where
  "settles env \<longleftrightarrow> (\<forall>rc s. ngx_nsoc_finalize_session (ce_log (pe_core env)) rc s \<noteq> Diverge) \<and>
     (\<forall>p. client_nc p = None \<longrightarrow> ngx_nsoc_proxy_noise_init_connection env p \<noteq> Diverge)"

lemma step_returns:
  assumes "settles env" and "call_pre f p"
  shows "proxy_step env f p \<noteq> Diverge"
  using assms
  by (cases f)
    (auto simp: free_peer_no_diverge event_connect_no_diverge settles_def call_pre_def ngx_nsoc_proxy_finalize_def ngx_nsoc_proxy_connect_def
      ngx_nsoc_proxy_next_upstream_def ngx_nsoc_proxy_init_upstream_def start_relay_def notify_connect_def
      ngx_nsoc_proxy_noise_handshake_def run_iffs Let_def rrb.no_divergence split: prod.splits option.splits)

lemma proxy_run_returns:
  assumes "settles env" and "call_pre f p" and "calls_left f p \<le> fuel"
  shows "proxy_run fuel env f p \<noteq> Diverge"
  using assms(2,3)
proof (induction fuel arbitrary: f p)
  case 0
  then show ?case by (cases f) (auto simp: calls_left_def split: if_splits)
next
  case (Suc fuel)
  show ?case
  proof (cases "proxy_step env f p")
    case (Ret g q)
    then show ?thesis
      using Suc.IH [of g q] Suc.prems good_step [OF Ret] by (auto simp: good_step_def)
  qed (use step_returns [OF assms(1) Suc.prems(1)] in auto)
qed

lemma proxy_run_sockets:
  "proxy_run fuel env f p = Ret g q \<Longrightarrow> sockets_ok f p \<Longrightarrow> sockets_ok g q"
proof (induction fuel arbitrary: f p)
  case (Suc fuel)
  then show ?case
    by (auto simp: run_iffs good_step_def dest: good_step split: if_splits)
qed (simp split: if_splits)

section \<open>The first peer is talked to in cipher\<close>

definition pc_secured :: "('w, 'h, 'k) px \<Rightarrow> bool" where
  "pc_secured p \<longleftrightarrow> (\<exists>c. px_pc p = Some c \<and> io_encrypted c) \<and> (\<exists>x. client_nc p = Some x \<and> nc_handshaked x)"

fun cipher_inv :: "call \<Rightarrow> ('w, 'h, 'k) px \<Rightarrow> bool" where
  "cipher_inv Connect p \<longleftrightarrow> client_nc p = None"
| "cipher_inv Init_upstream p \<longleftrightarrow> px_held p \<and> (client_nc p = None \<or> pc_secured p)"
| "cipher_inv Noise_init p \<longleftrightarrow> px_held p \<and> client_nc p = None"
| "cipher_inv Noise_handshake p \<longleftrightarrow> px_held p \<and> (\<forall>x. client_nc p = Some x \<longrightarrow> nc_handshaked x \<longrightarrow> pc_secured p)"
| "cipher_inv Next_upstream p \<longleftrightarrow> px_held p"
| "cipher_inv (Process b d) p \<longleftrightarrow> pc_secured p"
| "cipher_inv _ p \<longleftrightarrow> True"

definition last_try :: "call \<Rightarrow> ('w, 'h, 'k) px \<Rightarrow> bool" where
  "last_try f p \<longleftrightarrow> (f \<noteq> Done \<longrightarrow> se_stream (px_s p) \<and> px_tries p \<le> 1) \<and> cipher_inv f p"

lemma client_handshake_secures:
  assumes "on_pc (ngx_nsoc_handshake fuel N X) c p = Ret rc q"
    and "client_nc p = Some (fresh_nc noise (c_id c) b r)"
  shows "if rc = NGX_OK then pc_secured q else \<exists>x. client_nc q = Some x \<and> \<not> nc_handshaked x"
proof -
  let ?u = "\<lparr>nc = fresh_nc noise (c_id c) b r, cn = c, heap = smem (se_io (px_s p)), world = px_world p\<rparr>"
  have "nc_side (px_ss p) (c_id c) = Some Client_side"
    using assms(2) by (simp add: nc_side_def fresh_nc_def)
  then obtain u where u: "ngx_nsoc_do_handshake_process fuel N X ?u = Ret rc u"
    and q: "client_nc q = Some (nc u)" "px_pc q = Some (cn u)"
    using assms by (auto simp: on_pc_def ngx_nsoc_handshake_def with_nc_def run_iffs)
  then show ?thesis
    using process_outcome [OF u]
    by (auto simp: fresh_nc_neg_ok pc_secured_def secured_def io_encrypted_def) (simp_all add: fresh_nc_def)
qed

lemma noise_init_secures:
  assumes "ngx_nsoc_proxy_noise_init_connection env p = Ret g q" and "px_held p"
  shows "cipher_inv g q \<and> px_tries q = px_tries p \<and> (se_stream (px_s p) \<longrightarrow> se_stream (px_s q))"
proof -
  obtain c noise where c: "px_pc p = Some c" "px_noise (pe_conf env) = Some noise"
    using assms(1) by (auto simp: ngx_nsoc_proxy_noise_init_connection_def split: option.splits)
  obtain rc ss' w where cc: "ngx_nsoc_create_connection (pe_nginx env) noise (c_id c) True True (px_ss p) (px_world p)
    = (rc, ss', w)" by (rule prod_cases3)
  let ?p1 = "p\<lparr>px_s := upd_io (\<lambda>t. t\<lparr>ss := ss', net := w\<rparr>) (px_s p)\<rparr>"
  have fresh: "rc = NGX_OK \<Longrightarrow> client_nc ?p1 = Some (fresh_nc noise (c_id c) True NGX_NSOC_CLIENT_ROLE)"
    using cc by (auto simp: ngx_nsoc_create_connection_def Let_def split: prod.splits if_splits)
  show ?thesis
  proof (cases "rc = NGX_OK")
    case True
    then obtain rc' p2 where p2: "on_pc (ngx_nsoc_handshake (pe_fuel env) (pe_nginx env) (ce_noise (pe_core env))) c ?p1 = Ret rc' p2"
      and g: "g = Done \<and> px_rr q = px_rr p2 \<and> se_stream (px_s q) = se_stream (px_s p2) \<or> g = Noise_handshake \<and> q = p2"
      using assms(1) c cc
      by (auto simp: ngx_nsoc_proxy_noise_init_connection_def run_iffs Let_def split: if_splits option.splits)
    from client_handshake_secures [OF p2 fresh [OF True]] have "cipher_inv Noise_handshake p2 \<longleftrightarrow> px_held p2"
      by (auto split: if_splits)
    then show ?thesis using on_pc_frame [OF p2] g assms(2) by auto
  qed (use assms c cc in \<open>auto simp: ngx_nsoc_proxy_noise_init_connection_def\<close>)
qed

lemma init_upstream_secures:
  assumes "ngx_nsoc_proxy_init_upstream env p = Ret g q" and "cipher_inv Init_upstream p"
    and "se_stream (px_s p)" and "px_noise (pe_conf env) \<noteq> None"
  shows "cipher_inv g q \<and> px_tries q = px_tries p \<and> se_stream (px_s q)"
  using assms(1)
proof (cases rule: init_upstream_cases)
  case (1 c p')
  then show ?thesis using start_relay_frame [of env c p' g q] assms(2-4)
    by (auto simp: pc_secured_def io_encrypted_def same_io_def)
qed

lemma cipher_step:
  assumes "proxy_step env f p = Ret g q" and "\<not> stops f" and "last_try f p" and "px_noise (pe_conf env) \<noteq> None"
  shows "last_try g q"
proof (cases f)
  case Next_upstream
  with assms have "ngx_nsoc_proxy_next_upstream env p = Ret g q" by simp
  then show ?thesis
  proof (cases rule: next_upstream_cases)
    case unsent
    then show ?thesis using assms Next_upstream by (auto simp: last_try_def)
  next
    case last
    then show ?thesis using assms Next_upstream free_peer_frame [OF last(2)] by (auto simp: last_try_def)
  next
    case again
    then show ?thesis using assms Next_upstream free_peer_frame [OF again(2)] by (auto simp: last_try_def)
  qed
next
  case (Finalize rc)
  then show ?thesis using assms finalize_frame [of env rc p g q] by (auto simp: last_try_def)
next
  case Connect
  then show ?thesis using assms connect_frame [of env p g q] by (auto simp: last_try_def)
next
  case Init_upstream
  then show ?thesis using assms init_upstream_secures [of env p g q] by (simp add: last_try_def)
next
  case Noise_init
  then show ?thesis using assms noise_init_secures [of env p g q] by (simp add: last_try_def)
next
  case Noise_handshake
  then show ?thesis using assms
    by (auto simp: ngx_nsoc_proxy_noise_handshake_def last_try_def pc_secured_def io_encrypted_def
        split: option.splits if_splits)
qed (use assms in simp_all)

lemma cipher_run:
  "proxy_run fuel env f p = Ret g q \<Longrightarrow> last_try f p \<Longrightarrow> px_noise (pe_conf env) \<noteq> None \<Longrightarrow> last_try g q"
proof (induction fuel arbitrary: f p)
  case (Suc fuel)
  then show ?case by (auto simp: run_iffs dest: cipher_step split: if_splits)
qed (simp split: if_splits)

text \<open>
  An event on the upstream socket while the handshake is under way: the handshake goes on, and
  its handler is the proxy's once \<open>ngx_nsoc_proxy_noise_init_connection\<close> had to wait.
\<close>

definition upstream_handshake_event ::
  "('w, 'h, 'k) px_env \<Rightarrow> bool \<Rightarrow> ('w, 'h, 'k) px \<Rightarrow> (call, ('w, 'h, 'k) px) run" where
  "upstream_handshake_event env timedout p =
     (case px_pc p of
        None \<Rightarrow> Crash Null_deref
      | Some c \<Rightarrow>
          bind_run (on_pc (ngx_nsoc_handshake_handler (pe_fuel env) (pe_nginx env) (ce_noise (pe_core env)) timedout) c p)
            (\<lambda>h q. Ret (if h = Some CH_proxy then Noise_handshake else Done) q))"

lemma resumed_handshake_secures:
  assumes "upstream_handshake_event env timedout p = Ret g q"
    and "px_pc p = Some c" and "client_nc p = Some x" and "nc_connection x = c_id c"
    and "\<not> nc_handshaked x" and "nc_handshake_phase x \<noteq> NGX_NSOC_HANDSHAKE_NONE_PHASE"
    and "px_held p" and "px_tries p \<le> 1" and "se_stream (px_s p)"
  shows "last_try g q"
proof -
  let ?u = "\<lparr>nc = x, cn = c, heap = smem (se_io (px_s p)), world = px_world p\<rparr>"
  let ?t = "(se_io (px_s p))\<lparr>sock := c\<rparr>"
  have sd: "nc_side (ss ?t) (c_id (sock ?t)) = Some Client_side"
    using assms(3,4) by (simp add: nc_side_def)
  obtain h where h: "on_pc (ngx_nsoc_handshake_handler (pe_fuel env) (pe_nginx env) (ce_noise (pe_core env)) timedout) c p = Ret h q"
    and g: "g = Noise_handshake \<or> g = Done"
    using assms(1,2) by (auto simp: upstream_handshake_event_def run_iffs split: if_splits)
  have "client_nc q = Some x \<or> (\<exists>rc u. ngx_nsoc_do_handshake_process (pe_fuel env) (pe_nginx env) (ce_noise (pe_core env)) ?u
      = Ret rc u \<and> client_nc q = Some (nc u) \<and> px_pc q = Some (cn u))"
    using h sd assms(3)
    by (auto simp: on_pc_def ngx_nsoc_handshake_handler_def ngx_nsoc_handshake_def with_nc_def Let_def run_iffs
        split: if_splits)
  then have "nc_handshaked (the (client_nc q)) \<longrightarrow> pc_secured q"
    using assms(5,6)
    by (auto simp: pc_secured_def secured_def io_encrypted_def dest!: process_outcome split: if_splits)
  with g on_pc_frame [OF h] assms(7-9) show ?thesis by (auto simp: last_try_def)
qed

section \<open>A session to run\<close>

text \<open>
  Two peers of one group, a system on which every connect succeeds, and a library that cannot
  create a handshake object (\<open>deaf_noise\<close>), beside the one that can.
\<close>

definition demo_pscf :: proxy_srv_conf where
  "demo_pscf = \<lparr>connect_timeout = Some 60000, px_timeout = Some 600000, next_upstream_timeout = Some 0,
     buffer_size = Some 65517, upload_rate = Some 0, download_rate = Some 0, responses = Some (2 ^ 31 - 1),
     next_upstream_tries = Some 0, next_upstream = Some True, px_local = Some None, noise_enable = Some True,
     px_noise = Some (demo_noise_conf 65517), client_private_key_file = Some ''k'',
     server_public_key_file = Some ''p'', px_upstream = None, upstream_value = None\<rparr>"

definition demo_os :: "script px_os" where
  "demo_os = \<lparr>os_connect = (\<lambda>a w. (NGX_OK, Some (plain_connection 9), w)), os_setsockopt = (\<lambda>i w. (True, w)),
     os_so_error = (\<lambda>i w. 0), os_msec = (\<lambda>w. 0), os_time = (\<lambda>w. 0), os_parse_url = (\<lambda>u. None),
     os_parse_addr_port = (\<lambda>a. NGX_OK), os_complex_value = (\<lambda>v w. None), os_resolve = (\<lambda>h w. (NGX_ERROR, w))\<rparr>"

definition deaf_noise :: "(demo_hs, nat) noise_c" where
  "deaf_noise = demo_noise\<lparr>hs_new_by_id := (\<lambda>pid role. (1, None))\<rparr>"

definition demo_px_env :: "(demo_hs, nat) noise_c \<Rightarrow> (script, demo_hs, nat) px_env" where
  "demo_px_env X = \<lparr>pe_core = demo_env\<lparr>ce_noise := X\<rparr>, pe_conf = demo_pscf, pe_os = demo_os,
     pe_fuel = Suc (Suc (Suc 0)), pe_upstreams = []\<rparr>"

definition demo_px :: "(script, demo_hs, nat) px" where
  "demo_px = \<lparr>px_s = demo_sess False, px_has_upstream = True,
     px_rr = demo_session (server_peers False ''u'' [demo_server ''a'' 1, demo_server ''b'' 1]) None, px_pc = None,
     px_pc_nodelay = NGX_TCP_NODELAY_UNSET, px_opened = 0, px_closed = 0, px_states = [], px_connected = False,
     px_received = 0, px_start_time = 0, px_local_addr = None, px_resolved = None, px_downstream_buf = None,
     px_upstream_buf = None, px_upstream_out = [], px_upstream_busy = [], px_downstream_out = [],
     px_downstream_busy = [], px_free = 0, px_start_sec = 0, px_responses = 0, px_saved = (\<lambda>_. 0)\<rparr>"

text \<open>The session after the first message to the first peer: the answer is on its way.\<close>

definition demo_waiting_nc :: "(demo_hs, nat) ngx_noise_connection" where
  "demo_waiting_nc = (fresh_nc (demo_noise_conf 65517) 9 True NGX_NSOC_CLIENT_ROLE)
     \<lparr>nc_handshake_phase := NGX_NSOC_HANDSHAKE_PROCESS_PHASE, nc_handler := CH_proxy, nc_msg_num := NGX_NSOC_2MSG_OK,
      nc_noise_connection := empty_npc\<lparr>NoiseHandshakeObj := Some \<lparr>dh_role = NOISE_ROLE_INITIATOR, dh_step = 1, dh_key = []\<rparr>\<rparr>\<rparr>"


lemma deaf_settles: "settles (demo_px_env deaf_noise)"
  by (simp add: settles_def demo_px_env_def demo_env_def ngx_nsoc_finalize_session_def ngx_nsoc_close_connection_def
    ngx_nsoc_proxy_noise_init_connection_def demo_pscf_def run_iffs on_pc_def ngx_nsoc_handshake_def with_nc_def none_phase_def
    ngx_nsoc_create_connection_def script_nginx_def nc_side_def fresh_nc_def start_handshake_def deaf_noise_def demo_noise_def
    ngx_noise_protocol_init_handshake_def split: option.splits)

text \<open>The two peers while the session draws, fails and draws again.\<close>

definition demo_rr_peer :: "string \<Rightarrow> int \<Rightarrow> int \<Rightarrow> uint \<Rightarrow> nat \<Rightarrow> rr_peer" where
  "demo_rr_peer nm cw ew n f = \<lparr>rp_name = nm, rp_server = nm, current_weight = cw, effective_weight = ew, weight = 1,
     conns = n, max_conns = 0, fails = f, accessed = 0, checked = 0, max_fails = 1, fail_timeout = 10, down = False\<rparr>"

definition demo_rr :: "rr_peer list \<Rightarrow> nat option \<Rightarrow> 64 word \<Rightarrow> string \<Rightarrow> nat \<Rightarrow> rr_state" where
  "demo_rr ps cur tried nm n = \<lparr>rr_primary = \<lparr>number = 2, total_weight = 2, single = False, weighted = False,
       rr_name = ''u'', plist = ps\<rparr>, rr_backup = None,
     rr_data = \<lparr>rrp_peers = Primary, rrp_current = map_option (Pair Primary) cur, rrp_tried = [tried]\<rparr>,
     rr_pc = \<lparr>pc_peer = map_option (Pair Primary) cur, pc_name = nm, pc_connected = False, pc_stream = True, pc_tries = n\<rparr>\<rparr>"

lemmas demo_rr_defs = ngx_nsoc_upstream_get_round_robin_peer_def demo_session_def get_from_def
   ngx_nsoc_upstream_get_peer_def server_peers_def demo_server_def peer_of_def
   usable_def tried_bit_def bump_def count_weight_def count_addrs_def Let_def
   take_peer_def set_tried_def settle_def demo_rr_peer_def demo_rr_def

lemma demo_get: "ngx_nsoc_upstream_get_round_robin_peer 0 (px_rr demo_px) =
    Ret NGX_OK (demo_rr [demo_rr_peer ''a'' (-1) 1 1 0, demo_rr_peer ''b'' 1 1 0 0] (Some 0) 1 ''a'' 2)"
  by (simp add: demo_px_def demo_rr_defs)

text \<open>The session when the handshake with the first peer has failed.\<close>

definition demo_failed :: "(script, demo_hs, nat) px" where
  "demo_failed = demo_px\<lparr>px_s := upd_io (\<lambda>t. t\<lparr>ss := (ss t)\<lparr>s_client_noise_connection :=
       Some (fresh_nc (demo_noise_conf 65517) 9 True NGX_NSOC_CLIENT_ROLE)\<rparr>\<rparr>) (demo_sess False),
     px_rr := demo_rr [demo_rr_peer ''a'' (-1) 1 1 0, demo_rr_peer ''b'' 1 1 0 0] (Some 0) 1 ''a'' 2,
     px_pc := Some (plain_connection 9), px_opened := 1\<rparr>"

lemmas demo_px_defs = demo_px_env_def demo_env_def demo_os_def demo_pscf_def px_alloc_def script_nginx_def Let_def
  demo_sess_def demo_px_def plain_connection_def conf_value_def

lemma demo_next:
  "\<exists>q. ngx_nsoc_proxy_next_upstream (demo_px_env deaf_noise) demo_failed = Ret Connect q \<and>
     px_rr q = (demo_rr [demo_rr_peer ''a'' (-1) 0 0 1, demo_rr_peer ''b'' 1 1 0 0] (Some 0) 1 ''a'' 1)
       \<lparr>rr_pc := \<lparr>pc_peer = None, pc_name = ''a'', pc_connected = False, pc_stream = True, pc_tries = 1\<rparr>\<rparr> \<and>
     px_s q = px_s demo_failed \<and> px_pc q = None \<and> px_upstream_buf q = None"
  by (simp add: ngx_nsoc_proxy_next_upstream_def free_peer_def ngx_nsoc_upstream_free_round_robin_peer_def
      demo_rr_defs upd_peer_def mark_failed_def give_back_def demo_failed_def demo_px_defs close_pc_def note_bytes_def)

lemma demo_connect:
  assumes "px_rr q = (demo_rr [demo_rr_peer ''a'' (-1) 0 0 1, demo_rr_peer ''b'' 1 1 0 0] (Some 0) 1 ''a'' 1)
       \<lparr>rr_pc := \<lparr>pc_peer = None, pc_name = ''a'', pc_connected = False, pc_stream = True, pc_tries = 1\<rparr>\<rparr>"
    and "px_s q = px_s demo_failed" and "px_upstream_buf q = None"
  shows "\<exists>r. ngx_nsoc_proxy_connect (demo_px_env deaf_noise) q = Ret Init_upstream r \<and>
     px_rr r = demo_rr [demo_rr_peer ''a'' (-1) 0 0 1, demo_rr_peer ''b'' 1 1 1 0] (Some 1) 3 ''b'' 1 \<and>
     px_s r = px_s demo_failed \<and> px_pc r = Some (plain_connection 9) \<and> px_upstream_buf r = None"
  using assms
  by (simp add: ngx_nsoc_proxy_connect_def event_connect_peer_def demo_rr_defs demo_failed_def demo_px_defs)

lemma demo_relay:
  assumes "px_rr r = demo_rr ps (Some i) m nm k" and "i < length ps" and "px_pc r = Some c"
    and "px_upstream_buf r = None" and "se_buffer (px_s r) = None" and "client_nc r = Some x"
  shows "\<exists>t. ngx_nsoc_proxy_init_upstream (demo_px_env X) r = Ret (Process False True) t"
  using assms
  by (simp add: ngx_nsoc_proxy_init_upstream_def start_relay_def notify_connect_def need_upstream_buf_def
      add_preread_def put_region_def ngx_nsoc_upstream_notify_round_robin_peer_def upd_peer_def demo_rr_def
      demo_px_env_def demo_env_def demo_os_def px_alloc_def script_nginx_def Let_def)

text \<open>The session waiting for the first peer's answer, which has just arrived.\<close>

definition demo_answered :: "(script, demo_hs, nat) px" where
  "demo_answered = demo_failed\<lparr>px_s := upd_io (\<lambda>t. t\<lparr>ss := (ss t)\<lparr>s_client_noise_connection := Some demo_waiting_nc\<rparr>,
       net := script_world [be16 0 @ be16 3 @ [1, 7, 7]]\<rparr>) (px_s demo_failed),
     px_rr := demo_rr [demo_rr_peer ''a'' (-1) 1 1 0, demo_rr_peer ''b'' 1 1 0 0] (Some 0) 1 ''a'' 1\<rparr>"

lemma demo_answer:
  "\<exists>q. upstream_handshake_event (demo_px_env demo_noise) False demo_answered = Ret Noise_handshake q \<and>
     px_rr q = px_rr demo_answered \<and> px_upstream_buf q = None \<and> px_states q = [] \<and>
     se_stream (px_s q) \<and> se_buffer (px_s q) = None \<and> px_pc_nodelay q = NGX_TCP_NODELAY_UNSET \<and>
     (\<exists>x. client_nc q = Some x \<and> nc_handshaked x) \<and> px_pc q \<noteq> None"
  by (simp add: upstream_handshake_event_def on_pc_def demo_answered_def demo_failed_def demo_px_def demo_waiting_nc_def
      ngx_nsoc_handshake_handler_def ngx_nsoc_handshake_def with_nc_def nc_side_def demo_sess_def demo_px_env_def
      demo_env_def demo_run_defs swapw_consts of_le16_def)

lemma demo_relay_secured:
  assumes "px_rr q = px_rr demo_answered" and "px_upstream_buf q = None" and "se_buffer (px_s q) = None"
    and "client_nc q = Some x" and "nc_handshaked x" and "px_pc q = Some c"
  shows "\<exists>t. proxy_run 2 (demo_px_env demo_noise) Noise_handshake q = Ret (Process False True) t"
proof -
  obtain r where r: "ngx_nsoc_proxy_noise_handshake (demo_px_env demo_noise) q = Ret Init_upstream r"
    and keep: "px_rr r = px_rr q" "px_upstream_buf r = None" "px_s r = px_s q" "px_pc r \<noteq> None"
    using assms by (simp add: ngx_nsoc_proxy_noise_handshake_def)
  obtain c' where "px_pc r = Some c'" using keep(4) by blast
  moreover have "px_rr r = demo_rr [demo_rr_peer ''a'' (-1) 1 1 0, demo_rr_peer ''b'' 1 1 0 0] (Some 0) 1 ''a'' 1"
    using keep assms(1) by (simp add: demo_answered_def)
  ultimately obtain t where "ngx_nsoc_proxy_init_upstream (demo_px_env demo_noise) r = Ret (Process False True) t"
    using demo_relay keep assms(3,4) by fastforce
  with r show ?thesis by (simp add: eval_nat_numeral)
qed

lemma connect_opens:
  assumes "ngx_nsoc_proxy_connect env p = Ret Init_upstream q" and "px_pc p = None"
  shows "\<exists>a w rc c w'. os_connect (pe_os env) a w = (rc, Some c, w') \<and> px_pc q = Some c"
  using assms
  by (auto simp: ngx_nsoc_proxy_connect_def event_connect_peer_def px_alloc_def Let_def run_iffs
      split: if_splits option.splits prod.splits run.splits) blast+

lemma proxy_run_stops [simp]: "stops f \<Longrightarrow> proxy_run n env f p = Ret f p"
  by (cases n) simp_all

section \<open>Properties\<close>



text \<open>
  C36: no upstream socket is lost. While the calls of the proxy follow each other, the number of
  upstream sockets opened is the number closed plus the one in use, if any; after the call
  that finalizes the session all of them are closed.
\<close>

theorem proxy_sockets_balanced:
  assumes "proxy_run fuel env f p = Ret g q" and "px_has_upstream p"
    and "px_opened p = px_closed p + (if px_pc p = None then 0 else 1)" and "f = Connect \<Longrightarrow> px_pc p = None"
  shows "px_opened q = px_closed q + (if px_pc q = None then 0 else 1) \<and>
    (\<forall>rc. f = Finalize rc \<longrightarrow> px_opened q = px_closed q)"
proof -
  have ok: "sockets_ok f p" using assms(2-4) by (simp add: sockets_ok_def)
  have "f = Finalize rc \<Longrightarrow> px_pc q = None" for rc
    using assms(1,2) by (cases fuel) (auto simp: run_iffs dest!: finalize_frame split: if_splits)
  with proxy_run_sockets [OF assms(1) ok] show ?thesis by (simp add: sockets_ok_def)
qed

lemma proxy_sockets_balanced_witness:
  "\<exists>q. proxy_run 1 (demo_px_env deaf_noise) (Finalize NGX_NSOC_BAD_GATEWAY) demo_failed = Ret Done q \<and> px_opened q = px_closed q"
proof -
  obtain q where q: "proxy_run 1 (demo_px_env deaf_noise) (Finalize NGX_NSOC_BAD_GATEWAY) demo_failed = Ret Done q"
    by (simp add: ngx_nsoc_proxy_finalize_def free_peer_def ngx_nsoc_upstream_free_round_robin_peer_def upd_peer_def
        ngx_nsoc_finalize_session_def ngx_nsoc_close_connection_def demo_failed_def demo_px_env_def demo_env_def demo_rr_def
        end_try_def close_pc_def demo_px_def demo_sess_def demo_os_def give_back_def mark_live_def demo_rr_peer_def)
  from proxy_sockets_balanced [OF q] have "px_opened q = px_closed q" by (simp add: demo_failed_def demo_px_def)
  with q show ?thesis by blast
qed



text \<open>
  C38: the next peer is talked to in the clear. The noise connection of a failed handshake stays
  with the session, and \<open>ngx_nsoc_proxy_init_upstream\<close> takes any noise connection for a
  finished handshake: when the handshake with a noise upstream fails and another peer is
  connected at once, what is relayed to it goes out over the plain socket.
\<close>

theorem failover_relays_in_the_clear:
  assumes "\<And>a w rc c w'. os_connect (pe_os env) a w = (rc, Some c, w') \<Longrightarrow> c_send c = Io_os \<and> c_recv c = Io_os"
    and "ngx_nsoc_proxy_noise_handshake env p = Ret Next_upstream p1"
    and "ngx_nsoc_proxy_next_upstream env p1 = Ret Connect p2"
    and "ngx_nsoc_proxy_connect env p2 = Ret Init_upstream p3"
    and "ngx_nsoc_proxy_init_upstream env p3 = Ret f p4"
  shows "f \<noteq> Noise_init \<and> (f = Process b d \<longrightarrow> (\<exists>c. px_pc p4 = Some c \<and> c_send c = Io_os \<and> c_recv c = Io_os))"
proof -
  have p1: "p1 = p" "client_nc p \<noteq> None"
    using assms(2) by (auto simp: ngx_nsoc_proxy_noise_handshake_def split: option.splits if_splits)
  have p2: "px_pc p2 = None" "client_nc p2 = client_nc p"
    using assms(3) p1(1) by (cases rule: next_upstream_cases; auto dest!: free_peer_frame)+
  have p3: "client_nc p3 \<noteq> None" using connect_frame [OF assms(4)] p1 p2 by simp
  obtain c where c: "px_pc p3 = Some c" "c_send c = Io_os" "c_recv c = Io_os"
    using connect_opens [OF assms(4) p2(1)] assms(1) by blast
  show ?thesis
    using assms(5)
  proof (cases rule: init_upstream_cases)
    case (1 c' p')
    then show ?thesis using start_relay_frame [of env c' p' f p4] p3 c by (auto simp: same_io_def)
  qed
qed

lemma failover_relays_in_the_clear_witness:
  "\<exists>p1 p2 p3 p4 c. ngx_nsoc_proxy_noise_handshake (demo_px_env deaf_noise) demo_failed = Ret Next_upstream p1 \<and>
     ngx_nsoc_proxy_next_upstream (demo_px_env deaf_noise) p1 = Ret Connect p2 \<and>
     ngx_nsoc_proxy_connect (demo_px_env deaf_noise) p2 = Ret Init_upstream p3 \<and>
     ngx_nsoc_proxy_init_upstream (demo_px_env deaf_noise) p3 = Ret (Process False True) p4 \<and>
     px_noise (pe_conf (demo_px_env deaf_noise)) \<noteq> None \<and> px_pc p4 = Some c \<and> c_send c = Io_os"
proof -
  let ?env = "demo_px_env deaf_noise"
  have a: "ngx_nsoc_proxy_noise_handshake ?env demo_failed = Ret Next_upstream demo_failed"
    by (simp add: ngx_nsoc_proxy_noise_handshake_def demo_failed_def demo_px_def demo_sess_def fresh_nc_def)
  obtain p2 where b: "ngx_nsoc_proxy_next_upstream ?env demo_failed = Ret Connect p2"
    and b': "px_rr p2 = (demo_rr [demo_rr_peer ''a'' (-1) 0 0 1, demo_rr_peer ''b'' 1 1 0 0] (Some 0) 1 ''a'' 1)
       \<lparr>rr_pc := \<lparr>pc_peer = None, pc_name = ''a'', pc_connected = False, pc_stream = True, pc_tries = 1\<rparr>\<rparr>"
      "px_s p2 = px_s demo_failed" "px_upstream_buf p2 = None"
    using demo_next by blast
  obtain p3 where c: "ngx_nsoc_proxy_connect ?env p2 = Ret Init_upstream p3"
    and c': "px_rr p3 = demo_rr [demo_rr_peer ''a'' (-1) 0 0 1, demo_rr_peer ''b'' 1 1 1 0] (Some 1) 3 ''b'' 1"
      "px_s p3 = px_s demo_failed" "px_pc p3 = Some (plain_connection 9)" "px_upstream_buf p3 = None"
    using demo_connect [OF b'] by blast
  have "se_buffer (px_s p3) = None" "client_nc p3 = Some (fresh_nc (demo_noise_conf 65517) 9 True NGX_NSOC_CLIENT_ROLE)"
    by (simp_all add: c' demo_failed_def demo_px_def demo_sess_def)
  then obtain p4 where d: "ngx_nsoc_proxy_init_upstream ?env p3 = Ret (Process False True) p4"
    using demo_relay [OF c'(1) _ c'(3,4)] by auto
  have os: "\<And>a w rc c w'. os_connect (pe_os ?env) a w = (rc, Some c, w') \<Longrightarrow> c_send c = Io_os \<and> c_recv c = Io_os"
    by (auto simp: demo_px_env_def demo_os_def plain_connection_def)
  have "\<exists>c. px_pc p4 = Some c \<and> c_send c = Io_os \<and> c_recv c = Io_os"
    using failover_relays_in_the_clear [where b = False and d = True, OF os a b c d] by simp
  moreover have "px_noise (pe_conf ?env) \<noteq> None" by (simp add: demo_px_env_def demo_pscf_def)
  ultimately show ?thesis using a b c d by blast
qed

end
