(* ===== verification/Nsoc_Relay.thy ===== *)
theory Nsoc_Relay
  imports Nsoc_Proxy Nsoc_Write_Filter
begin

text \<open>
  Model of \<open>ngx_nsoc_proxy_process\<close> (\<open>src/ngx_nsoc_proxy_module.c\<close>), which relays data from one
  side of a session to the other: it reads into the buffer of the direction, appends a link
  for what was read to the chain of the direction and passes the chain to the top filter.

  \<open>src->recv\<close> is \<open>conn_recv\<close> on either socket. The top filter is the function pointer
  \<open>ngx_nsoc_top_filter\<close>, an argument of the model; \<open>top_filter\<close> below is the write filter as it
  is called through that pointer. \<open>ngx_chain_update_chains\<close> is nginx's and an argument as well:
  from the two chains it makes the new busy chain and the number of links set free.
\<close>

section \<open>The two directions\<close>

record ('w, 'h, 'k) rl_env =
  re_px :: "('w, 'h, 'k) px_env"
  re_filter :: "bool \<Rightarrow> ('w, 'h, 'k) px \<Rightarrow> (int, ('w, 'h, 'k) px) run"
  re_update :: "link list \<Rightarrow> link list \<Rightarrow> link list \<times> nat"
  re_exiting :: bool

abbreviation px_sock where "px_sock p \<equiv> sock (se_io (px_s p))"

text \<open>\<open>up\<close> is the argument \<open>from_upstream\<close>.\<close>

definition relay_src :: "bool \<Rightarrow> ('w, 'h, 'k) px \<Rightarrow> ngx_connection option" where
  "relay_src up p = (if up then (if px_connected p then px_pc p else None) else Some (px_sock p))"

definition relay_dst :: "bool \<Rightarrow> ('w, 'h, 'k) px \<Rightarrow> ngx_connection option" where
  "relay_dst up p = relay_src (\<not> up) p"

text \<open>A change of the client's socket (\<open>peer\<close> false) or of the peer's.\<close>

definition upd_conn :: "bool \<Rightarrow> (ngx_connection \<Rightarrow> ngx_connection) \<Rightarrow> ('w, 'h, 'k) px \<Rightarrow> ('w, 'h, 'k) px" where
  "upd_conn peer f p =
     (if peer then p\<lparr>px_pc := map_option f (px_pc p)\<rparr>
      else p\<lparr>px_s := upd_io (\<lambda>t. t\<lparr>sock := f (sock t)\<rparr>) (px_s p)\<rparr>)"

definition relay_buf :: "bool \<Rightarrow> ('w, 'h, 'k) px \<Rightarrow> conn_buf option" where
  "relay_buf up p = (if up then px_upstream_buf p else px_downstream_buf p)"

definition set_relay_buf :: "bool \<Rightarrow> conn_buf \<Rightarrow> ('w, 'h, 'k) px \<Rightarrow> ('w, 'h, 'k) px" where
  "set_relay_buf up b p = (if up then p\<lparr>px_upstream_buf := Some b\<rparr> else p\<lparr>px_downstream_buf := Some b\<rparr>)"

definition relay_out :: "bool \<Rightarrow> ('w, 'h, 'k) px \<Rightarrow> link list" where
  "relay_out up p = (if up then px_downstream_out p else px_upstream_out p)"

definition relay_busy :: "bool \<Rightarrow> ('w, 'h, 'k) px \<Rightarrow> link list" where
  "relay_busy up p = (if up then px_downstream_busy p else px_upstream_busy p)"

definition set_chains :: "bool \<Rightarrow> link list \<Rightarrow> link list \<Rightarrow> ('w, 'h, 'k) px \<Rightarrow> ('w, 'h, 'k) px" where
  "set_chains up bs out p =
     (if up then p\<lparr>px_downstream_busy := bs, px_downstream_out := out\<rparr>
      else p\<lparr>px_upstream_busy := bs, px_upstream_out := out\<rparr>)"

definition relay_received :: "bool \<Rightarrow> ('w, 'h, 'k) px \<Rightarrow> int" where
  "relay_received up p = (if up then px_received p else int (se_received (px_s p)))"

definition add_received :: "bool \<Rightarrow> nat \<Rightarrow> ('w, 'h, 'k) px \<Rightarrow> ('w, 'h, 'k) px" where
  "add_received up n p =
     (if up then p\<lparr>px_received := px_received p + int n\<rparr>
      else p\<lparr>px_s := (px_s p)\<lparr>se_received := se_received (px_s p) + n\<rparr>\<rparr>)"

definition rate_of :: "bool \<Rightarrow> proxy_srv_conf \<Rightarrow> nat" where
  "rate_of up pscf = conf_value (if up then download_rate pscf else upload_rate pscf)"

text \<open>The buffer emptied: behind the room for the two length fields.\<close>

definition reset_buf :: "bool \<Rightarrow> ('w, 'h, 'k) px \<Rightarrow> ('w, 'h, 'k) px" where
  "reset_buf up p = (case relay_buf up p of
     None \<Rightarrow> p
   | Some b \<Rightarrow> set_relay_buf up (b\<lparr>cb_pos := 2 * NGX_NSOC_LEN_FIELD_SIZE, cb_last := 2 * NGX_NSOC_LEN_FIELD_SIZE\<rparr>) p)"

text \<open>\<open>src->recv(src, p, size)\<close>.\<close>

definition relay_recv ::
  "('w, 'h, 'k) px_env \<Rightarrow> bool \<Rightarrow> nat \<times> nat \<Rightarrow> nat \<Rightarrow> ('w, 'h, 'k) px \<Rightarrow> (int, ('w, 'h, 'k) px) run" where
  "relay_recv env up d sz p =
     (if up then
        (case px_pc p of None \<Rightarrow> Crash Null_deref | Some c \<Rightarrow> on_pc (conn_recv (pe_core env) d sz) c p)
      else
        (case conn_recv (pe_core env) d sz (se_io (px_s p)) of
           Ret n t \<Rightarrow> Ret n (p\<lparr>px_s := (px_s p)\<lparr>se_io := t\<rparr>\<rparr>) | Crash e \<Rightarrow> Crash e | Diverge \<Rightarrow> Diverge))"

section \<open>Writing\<close>

text \<open>
  What the loop does first: the pending chains go through the filter. The result is the call
  the function ends with, if it ends here.
\<close>

definition relay_write ::
  "('w, 'h, 'k) rl_env \<Rightarrow> bool \<Rightarrow> ('w, 'h, 'k) px \<Rightarrow> (call option, ('w, 'h, 'k) px) run" where
  "relay_write env up p =
     (case relay_dst up p of
        None \<Rightarrow> Ret None p
      | Some dst \<Rightarrow>
          if relay_out up p = [] \<and> relay_busy up p = [] \<and> c_buffered dst = 0 then Ret None p
          else
            bind_run (re_filter env up p)
              (\<lambda>rc p1.
                 if rc = NGX_ERROR
                 then Ret (Some (if \<not> se_stream (px_s p1) \<and> \<not> up then Next_upstream else Finalize NGX_NSOC_OK)) p1
                 else
                   (let (bs, n) = re_update env (relay_busy up p1) (relay_out up p1);
                        p2 = (set_chains up bs [] p1)\<lparr>px_free := px_free p1 + n\<rparr>
                    in Ret None (if bs = [] then reset_buf up p2 else p2))))"

section \<open>Reading\<close>

text \<open>\<open>size\<close>, an unsigned number of 64 bits.\<close>

definition relay_room :: "bool \<Rightarrow> conn_buf \<Rightarrow> nat" where
  "relay_room noise b =
     (if noise then cb_end b - cb_last b
      else nat ((int (cb_end b) - int (cb_last b) - int NOISE_PROTOCOL_MAC_DATA_SIZE) mod 2 ^ 64))"

definition noise_recv_action :: "bool \<Rightarrow> ('w, 'h, 'k) px \<Rightarrow> bool" where
  "noise_recv_action up p \<longleftrightarrow> s_client_noise_connection (px_ss p) \<noteq> None \<and> up
     \<or> s_server_noise_connection (px_ss p) \<noteq> None \<and> \<not> up"

definition delay_read ::
  "('w, 'h, 'k) rl_env \<Rightarrow> bool \<Rightarrow> nat \<Rightarrow> ('w, 'h, 'k) px \<Rightarrow> ('w, 'h, 'k) px" where
  "delay_read env up ms = upd_conn up (upd_read (\<lambda>e. ngx_add_timer (pe_nginx (re_px env)) (e\<lparr>ev_delayed := True\<rparr>) ms))"

text \<open>How much the rate limit leaves: \<open>Inl\<close> the delay to wait, \<open>Inr\<close> the size to read.\<close>

definition rate_limit :: "('w, 'h, 'k) rl_env \<Rightarrow> bool \<Rightarrow> nat \<Rightarrow> ('w, 'h, 'k) px \<Rightarrow> nat + nat" where
  "rate_limit env up sz p =
     (let rate = rate_of up (pe_conf (re_px env));
          limit = int rate * (px_sec (re_px env) p - px_start_sec p + 1) - relay_received up p
      in if rate = 0 then Inr sz
         else if limit \<le> 0 then Inl (nat (- limit * 1000 div int rate + 1))
         else Inr (min sz (nat limit)))"

text \<open>
  What follows a read of \<open>n\<close> bytes (zero at the end of the data and after an error): delays,
  times and counters, and the link for what was read. The result is \<open>False\<close> when there is no
  link to be had.
\<close>

definition note_read :: "('w, 'h, 'k) rl_env \<Rightarrow> bool \<Rightarrow> nat \<Rightarrow> ('w, 'h, 'k) px \<Rightarrow> ('w, 'h, 'k) px" where
  "note_read env up n p =
     (let rate = rate_of up (pe_conf (re_px env)); delay = n * 1000 div rate;
          p1 = (if rate \<noteq> 0 \<and> delay > 0 then delay_read env up delay p else p);
          p2 = (if up then p1\<lparr>px_states := upd_last (\<lambda>st. if ust_first_byte_time st = None
                    then st\<lparr>ust_first_byte_time := Some (px_now (re_px env) p1 - ust_response_time st)\<rparr> else st) (px_states p1)\<rparr>
                else p1)
      in if \<not> se_stream (px_s p2) then
           (let p3 = p2\<lparr>px_responses := Suc (px_responses p2)\<rparr>
            in if px_responses p3 = conf_value (responses (pe_conf (re_px env)))
               then upd_conn up (upd_read (\<lambda>e. e\<lparr>ev_ready := False, ev_eof := True\<rparr>)) p3 else p3)
         else p2)"

definition append_read ::
  "('w, 'h, 'k) rl_env \<Rightarrow> bool \<Rightarrow> conn_buf \<Rightarrow> nat \<Rightarrow> ('w, 'h, 'k) px \<Rightarrow> bool \<times> ('w, 'h, 'k) px" where
  "append_read env up b n p =
     (let (ok, p1) = chain_get_free (re_px env) p
      in if \<not> ok then (False, p1)
         else
           (let eof = (case relay_src up p1 of None \<Rightarrow> False | Some c \<Rightarrow> ev_eof (c_read c));
                l = \<lparr>lk_region = cb_region b, lk_pos = cb_last b, lk_last = cb_last b + n, lk_temporary = (n \<noteq> 0),
                     lk_last_buf = eof, lk_flush = True\<rparr>
            in (True, add_received up n (set_relay_buf up (b\<lparr>cb_last := cb_last b + n\<rparr>)
                  (set_chains up (relay_busy up p1) (relay_out up p1 @ [l]) p1)))))"

text \<open>
  One pass of the loop behind the write, and its part behind the call of \<open>recv\<close>: \<open>Inl\<close> a
  \<open>break\<close> or a return, \<open>Inr ()\<close> a \<open>continue\<close>.
\<close>

definition after_recv ::
  "('w, 'h, 'k) rl_env \<Rightarrow> bool \<Rightarrow> conn_buf \<Rightarrow> int \<Rightarrow> ('w, 'h, 'k) px \<Rightarrow> (call option + unit, ('w, 'h, 'k) px) run" where
  "after_recv env up b n p =
     (if n = NGX_AGAIN then Ret (Inl None) p
      else if n = NGX_ERROR \<and> \<not> se_stream (px_s p) \<and> px_received p = 0 then Ret (Inl (Some Next_upstream)) p
      else
        (let p1 = (if n = NGX_ERROR then upd_conn up (upd_read (\<lambda>e. e\<lparr>ev_eof := True\<rparr>)) p else p);
             k = (if n = NGX_ERROR then 0 else n)
         in if k < 0 then Ret (Inl None) p1
            else
              (let (ok, p2) = append_read env up b (nat k) (note_read env up (nat k) p1)
               in if ok then Ret (Inr ()) p2
                  else Ret (Inl (Some (Finalize NGX_NSOC_INTERNAL_SERVER_ERROR))) p2)))"

definition relay_read ::
  "('w, 'h, 'k) rl_env \<Rightarrow> bool \<Rightarrow> bool \<Rightarrow> ('w, 'h, 'k) px \<Rightarrow> (call option + unit, ('w, 'h, 'k) px) run" where
  "relay_read env up noise p =
     (case (relay_buf up p, relay_src up p) of
        (Some b, Some src) \<Rightarrow>
          (let sz = relay_room noise b
           in if sz = 0 \<or> \<not> ev_ready (c_read src) \<or> ev_delayed (c_read src) \<or> ev_error (c_read src)
              then Ret (Inl None) p
              else
                (case rate_limit env up sz p of
                   Inl ms \<Rightarrow> Ret (Inl None) (delay_read env up ms p)
                 | Inr sz' \<Rightarrow>
                     bind_run (relay_recv (re_px env) up (cb_region b, if noise then 0 else cb_last b) sz' p)
                       (after_recv env up b)))
      | _ \<Rightarrow> Crash Null_deref)"

fun relay_loop ::
  "nat \<Rightarrow> ('w, 'h, 'k) rl_env \<Rightarrow> bool \<Rightarrow> bool \<Rightarrow> bool \<Rightarrow> ('w, 'h, 'k) px \<Rightarrow> (call option, ('w, 'h, 'k) px) run" where
  "relay_loop 0 env up noise do_write p = Diverge"
| "relay_loop (Suc fuel) env up noise do_write p =
     bind_run (if do_write then relay_write env up p else Ret None p)
       (\<lambda>f p1. case f of
          Some g \<Rightarrow> Ret (Some g) p1
        | None \<Rightarrow> bind_run (relay_read env up noise p1)
            (\<lambda>r p2. case r of Inl f \<Rightarrow> Ret f p2 | Inr _ \<Rightarrow> relay_loop fuel env up noise True p2))"

section \<open>The end of the function\<close>

definition relay_events ::
  "('w, 'h, 'k) rl_env \<Rightarrow> bool \<Rightarrow> ngx_connection \<Rightarrow> ('w, 'h, 'k) px \<Rightarrow> call \<times> ('w, 'h, 'k) px" where
  "relay_events env up src p =
     (let fail = Finalize NGX_NSOC_INTERNAL_SERVER_ERROR;
          (rc, c1, w1) = (if c_shared src then (NGX_OK, src, px_world p)
                          else ngx_handle_read_event (pe_nginx (re_px env)) src (px_world p));
          p1 = upd_conn up (\<lambda>_. c1) (set_world w1 p)
      in if rc \<noteq> NGX_OK then (fail, p1)
         else case relay_dst up p1 of
                None \<Rightarrow> (Done, p1)
              | Some dst \<Rightarrow>
                  (let (rc, c2, w2) = (if c_shared dst then (NGX_OK, dst, px_world p1)
                                       else ngx_handle_write_event (pe_nginx (re_px env)) dst (px_world p1));
                       p2 = upd_conn (\<not> up) (\<lambda>_. c2) (set_world w2 p1)
                   in if rc \<noteq> NGX_OK then (fail, p2)
                      else
                        (Done,
                         if \<not> ev_delayed (c_read (px_sock p2))
                            \<and> (case px_pc p2 of None \<Rightarrow> True | Some c \<Rightarrow> \<not> ev_delayed (c_read c))
                         then upd_conn False (upd_write (\<lambda>e. ngx_add_timer (pe_nginx (re_px env)) e
                                (conf_value (px_timeout (pe_conf (re_px env)))))) p2
                         else if ev_timer_set (c_write (px_sock p2))
                         then upd_conn False (upd_write (ngx_del_timer (pe_nginx (re_px env)))) p2
                         else p2)))"

definition relay_end ::
  "('w, 'h, 'k) rl_env \<Rightarrow> bool \<Rightarrow> ('w, 'h, 'k) px \<Rightarrow> (call, ('w, 'h, 'k) px) run" where
  "relay_end env up p =
     (case relay_src up p of
        None \<Rightarrow> Crash Null_deref
      | Some src \<Rightarrow>
          if ev_eof (c_read src)
             \<and> (case relay_dst up p of None \<Rightarrow> False | Some dst \<Rightarrow> ev_eof (c_read dst) \<or> c_buffered dst = 0)
          then Ret (Finalize NGX_NSOC_OK) p
          else (let (f, p1) = relay_events env up src p in Ret f p1))"

definition ngx_nsoc_proxy_process ::
  "nat \<Rightarrow> ('w, 'h, 'k) rl_env \<Rightarrow> bool \<Rightarrow> bool \<Rightarrow> ('w, 'h, 'k) px \<Rightarrow> (call, ('w, 'h, 'k) px) run" where
  "ngx_nsoc_proxy_process fuel env up do_write p =
     (if \<not> se_stream (px_s p) \<and> re_exiting env then Ret (Finalize NGX_NSOC_OK) p
      else
        bind_run (relay_loop fuel env up (noise_recv_action up p) do_write (reset_buf up p))
          (\<lambda>f p1. case f of Some g \<Rightarrow> Ret g p1 | None \<Rightarrow> relay_end env up p1))"

section \<open>The write filter behind the pointer\<close>

text \<open>
  A link as the filter sees it. The links the filter still has to send are the last of the busy
  chain, and \<open>px_saved\<close> counts them; sending a link moves its position.
\<close>

definition load_link :: "(nat \<Rightarrow> byte list) \<Rightarrow> link \<Rightarrow> ngx_buf" where
  "load_link mem l = (temp_buf (mem (lk_region l)))\<lparr>b_pos := lk_pos l, b_last := lk_last l,
     b_temporary := lk_temporary l, b_flush := lk_flush l, b_last_buf := lk_last_buf l\<rparr>"

definition sent_links :: "link list \<Rightarrow> ngx_buf list \<Rightarrow> link list" where
  "sent_links ls rest =
     map (\<lambda>l. l\<lparr>lk_pos := lk_last l\<rparr>) (take (length ls - length rest) ls)
     @ map2 (\<lambda>l b. l\<lparr>lk_pos := b_pos b\<rparr>) (drop (length ls - length rest) ls) rest"

definition filter_ctx :: "bool \<Rightarrow> ngx_buf list \<Rightarrow> write_filter_ctx" where
  "filter_ctx up old = (if up then \<lparr>from_upstream = old, from_downstream = []\<rparr>
                        else \<lparr>from_upstream = [], from_downstream = old\<rparr>)"

definition top_filter ::
  "(nat \<Rightarrow> bool) \<Rightarrow> ('w, 'h, 'k) chain_pt \<Rightarrow> bool \<Rightarrow> ('w, 'h, 'k) px \<Rightarrow> (int, ('w, 'h, 'k) px) run" where
  "top_filter alloc sc up p =
     (case relay_dst up p of
        None \<Rightarrow> Crash Null_deref
      | Some dst \<Rightarrow>
          (let io = se_io (px_s p); bs = relay_busy up p; out = relay_out up p;
               old = map (load_link (smem io)) (drop (length bs - px_saved p up) bs)
           in case ngx_nsoc_write_filter alloc sc up (map (load_link (smem io)) out)
                     \<lparr>wf_ctx = Some (filter_ctx up old), wf_io = io\<lparr>sock := dst\<rparr>\<rparr> of
                Crash e \<Rightarrow> Crash e
              | Diverge \<Rightarrow> Diverge
              | Ret rc st \<Rightarrow>
                  (let rest = saved up st; ls = sent_links (bs @ out) rest; t = wf_io st;
                       p1 = p\<lparr>px_s := (px_s p)\<lparr>se_io := t\<lparr>sock := px_sock p\<rparr>\<rparr>,
                              px_saved := (px_saved p)(up := length rest)\<rparr>
                   in Ret rc (upd_conn (\<not> up) (\<lambda>_. sock t)
                        (set_chains up (take (length bs) ls) (drop (length bs) ls) p1)))))"

end
