(* ===== verification/Nsoc_Relay_Flow.thy ===== *)
theory Nsoc_Relay_Flow
  imports Nsoc_Relay "HOL-Library.Sublist"
begin

text \<open>
  What the relay of \<open>Nsoc_Relay\<close> does with the bytes: from what nginx promises of its sockets and
  of its plain send chain, over the write filter and the pointer it is called through, to the
  invariant of the relay's loop. The last theorem shows what happens to data that is pending
  when the next call begins.
\<close>

section \<open>Contracts\<close>

text \<open>
  \<open>inp\<close> is what the source has still to deliver, \<open>outp\<close> what has gone out to the destination.
  Reading takes bytes off \<open>inp\<close>; the allocator and the event functions touch neither.
\<close>

definition two_way :: "'w nginx \<Rightarrow> ('w \<Rightarrow> byte list) \<Rightarrow> ('w \<Rightarrow> byte list) \<Rightarrow> bool" where
  "two_way N inp outp \<longleftrightarrow>
     (\<forall>sz c w n bs c' w'. ngx_recv N sz c w = (n, bs, c', w') \<longrightarrow>
        outp w' = outp w \<and> c_recv c' = c_recv c \<and>
        (if n > 0 then int (length bs) = n \<and> length bs \<le> sz \<and> inp w = bs @ inp w' else inp w' = inp w)) \<and>
     (\<forall>n w m w'. ngx_palloc N n w = (m, w') \<longrightarrow> outp w' = outp w \<and> inp w' = inp w) \<and>
     (\<forall>c w rc c' w'. ngx_handle_read_event N c w = (rc, c', w') \<longrightarrow> outp w' = outp w \<and> inp w' = inp w) \<and>
     (\<forall>c w rc c' w'. ngx_handle_write_event N c w = (rc, c', w') \<longrightarrow> outp w' = outp w \<and> inp w' = inp w)"

text \<open>
  nginx's send chain for a plain socket sends the buffers in order: it drops those it has sent
  and moves the position of the first it has not, and it changes no memory.
\<close>

definition buf_bytes :: "ngx_buf \<Rightarrow> byte list" where
  "buf_bytes b = take (b_last b - b_pos b) (drop (b_pos b) (b_mem b))"

definition bufs_bytes :: "ngx_buf list \<Rightarrow> byte list" where
  "bufs_bytes bs = concat (map buf_bytes bs)"

definition buf_ok :: "ngx_buf \<Rightarrow> bool" where
  "buf_ok b \<longleftrightarrow> b_pos b \<le> b_last b \<and> (\<not> b_temporary b \<and> \<not> b_memory b \<longrightarrow> b_pos b = b_last b)"

definition moved :: "ngx_buf \<Rightarrow> ngx_buf \<Rightarrow> bool" where
  "moved b b' \<longleftrightarrow> same_buf b b' \<and> b_mem b' = b_mem b \<and> b_pos b \<le> b_pos b' \<and> b_pos b' \<le> b_last b'"

definition plain_chain :: "('w, 'h, 'k) chain_pt \<Rightarrow> ('w \<Rightarrow> byte list) \<Rightarrow> ('w \<Rightarrow> byte list) \<Rightarrow> bool" where
  "plain_chain sc inp outp \<longleftrightarrow>
     (\<forall>chain lim t r t'. sc chain lim t = Ret r t' \<longrightarrow> (\<forall>b \<in> set chain. buf_ok b) \<longrightarrow>
        smem t' = smem t \<and> ss t' = ss t \<and> inp (net t') = inp (net t) \<and>
        (case r of
           None \<Rightarrow> prefix (outp (net t')) (outp (net t) @ bufs_bytes chain)
         | Some rest \<Rightarrow> (\<exists>k \<le> length chain. list_all2 moved (drop k chain) rest) \<and>
             outp (net t') @ bufs_bytes rest = outp (net t) @ bufs_bytes chain))"

text \<open>\<open>ngx_chain_update_chains\<close>: the links behind the first that is not sent, of both chains.\<close>

definition link_sent :: "link \<Rightarrow> bool" where
  "link_sent l \<longleftrightarrow> lk_last l \<le> lk_pos l"

definition update_contract :: "(link list \<Rightarrow> link list \<Rightarrow> link list \<times> nat) \<Rightarrow> bool" where
  "update_contract upd \<longleftrightarrow> (\<forall>bs out. fst (upd bs out) = dropWhile link_sent (bs @ out))"

section \<open>The write filter passes bytes on\<close>

lemma buf_size_nonneg: "buf_ok b \<Longrightarrow> 0 \<le> ngx_buf_size b"
  by (simp add: buf_ok_def ngx_buf_size_def)

lemma buf_size_zero: "buf_ok b \<Longrightarrow> ngx_buf_size b = 0 \<Longrightarrow> buf_bytes b = []"
  by (auto simp: buf_ok_def ngx_buf_size_def buf_bytes_def split: if_splits)

lemma scan_old_size: "scan_old bs a = Some a' \<Longrightarrow> cs_size a' = cs_size a + sum_list (map ngx_buf_size bs)"
  by (induction bs arbitrary: a) (auto simp: add_buf_def split: if_splits)

lemma scan_new_size:
  "scan_new alloc i bs a = (app, Some a') \<Longrightarrow> cs_size a' = cs_size a + sum_list (map ngx_buf_size bs)"
  by (induction alloc i bs a arbitrary: app rule: scan_new.induct)
    (auto simp: add_buf_def split: if_splits prod.splits)

lemma bufs_bytes_empty:
  assumes "\<forall>b \<in> set bs. buf_ok b" and "sum_list (map ngx_buf_size bs) = 0"
  shows "bufs_bytes bs = []"
proof -
  have "\<forall>x \<in> set (map ngx_buf_size bs). 0 \<le> x" using assms(1) by (auto intro: buf_size_nonneg)
  then have "\<forall>x \<in> set (map ngx_buf_size bs). x = 0"
    using assms(2) sum_list_nonneg_eq_0_iff by blast
  with assms(1) show ?thesis by (auto simp: bufs_bytes_def intro: buf_size_zero)
qed

text \<open>What a call of the filter does with the bytes.\<close>

definition bytes_post ::
  "('w \<Rightarrow> byte list) \<Rightarrow> ('w \<Rightarrow> byte list) \<Rightarrow> bool \<Rightarrow> ngx_buf list \<Rightarrow> ('w, 'h, 'k) wf_state \<Rightarrow> int \<Rightarrow>
   ('w, 'h, 'k) wf_state \<Rightarrow> bool" where
  "bytes_post inp outp up chain s rc s' \<longleftrightarrow>
     smem (wf_io s') = smem (wf_io s) \<and> ss (wf_io s') = ss (wf_io s) \<and> inp (net (wf_io s')) = inp (net (wf_io s)) \<and>
     prefix (outp (net (wf_io s'))) (outp (net (wf_io s)) @ bufs_bytes chain) \<and>
     (rc \<noteq> NGX_ERROR \<longrightarrow> (\<exists>k \<le> length chain. list_all2 moved (drop k chain) (saved up s')) \<and>
        outp (net (wf_io s')) @ bufs_bytes (saved up s') = outp (net (wf_io s)) @ bufs_bytes chain)"

lemma flush_chain_bytes:
  assumes sc: "plain_chain sc inp outp" and run: "flush_chain sc up chain a s = Ret rc s'" and ctx: "wf_ctx s \<noteq> None"
    and size: "cs_size a = sum_list (map ngx_buf_size chain)" and ok: "\<forall>b \<in> set chain. buf_ok b"
  shows "bytes_post inp outp up chain s rc s'"
proof (cases "cs_size a = 0 \<and> c_buffered (sock (wf_io s)) AND NGX_LOWLEVEL_BUFFERED = 0
            \<and> \<not> (cs_last a \<and> c_need_last_buf (sock (wf_io s)))")
  case True
  then have "bufs_bytes chain = []" using bufs_bytes_empty ok size by simp
  with True run ctx show ?thesis
    by (auto simp: flush_chain_def bytes_post_def bufs_bytes_def Let_def split: if_splits)
next
  case False
  with run obtain r t where t: "sc chain 0 (wf_io s) = Ret r t"
    by (auto simp: flush_chain_def Let_def split: run.splits if_splits)
  note post = sc [unfolded plain_chain_def, rule_format, OF t ok [rule_format]]
  show ?thesis
  proof (cases r)
    case None
    with False t run post show ?thesis by (auto simp: flush_chain_def bytes_post_def Let_def)
  next
    case (Some rest)
    with post have eq: "outp (net (wf_io s)) @ bufs_bytes chain = outp (net t) @ bufs_bytes rest" by simp
    then have "prefix (outp (net t)) (outp (net (wf_io s)) @ bufs_bytes chain)" by (rule prefixI)
    with False t run post Some ctx show ?thesis
      by (auto simp: flush_chain_def bytes_post_def Let_def split: if_splits)
  qed
qed

lemma prefix_refl_append: "prefix xs (xs @ ys)"
  by (rule prefixI) (rule refl)

lemma write_filter_bytes:
  assumes sc: "plain_chain sc inp outp" and run: "ngx_nsoc_write_filter alloc sc up new s = Ret rc s'"
    and ctx: "wf_ctx s = Some x" and ok: "\<forall>b \<in> set (get_out up x @ new). buf_ok b"
  shows "bytes_post inp outp up (get_out up x @ new) s rc s'"
proof -
  let ?old = "get_out up x"
  have [simp]: "s\<lparr>wf_ctx := Some x\<rparr> = s" using ctx by (cases s) simp
  have err: "bytes_post inp outp up chain s NGX_ERROR u" if "wf_io u = wf_io s" for chain u
    using that by (simp add: bytes_post_def)
  show ?thesis
  proof (cases "c_err (sock (wf_io s))")
    case True
    with run ctx show ?thesis by (auto simp: ngx_nsoc_write_filter_def Let_def bytes_post_def)
  next
    case no_err: False
    show ?thesis
    proof (cases "scan_old ?old empty_sum")
      case None
      with run ctx no_err show ?thesis by (auto simp: ngx_nsoc_write_filter_def Let_def bytes_post_def)
    next
      case (Some a)
      obtain app r where sn: "scan_new alloc (Suc 0) new a = (app, r)" by (rule prod.exhaust)
      show ?thesis
      proof (cases r)
        case None
        with run ctx no_err Some sn show ?thesis
          by (auto simp: ngx_nsoc_write_filter_def Let_def intro: err)
      next
        case (Some a')
        then have app: "app = new" using sn scan_new_all by blast
        have size: "cs_size a' = sum_list (map ngx_buf_size (?old @ new))"
          using scan_old_size [OF \<open>scan_old ?old empty_sum = Some a\<close>] scan_new_size [of alloc "Suc 0" new a app a'] sn Some
          by (simp add: empty_sum_def)
        have run': "flush_chain sc up (?old @ new) a' (set_out up (?old @ new) s) = Ret rc s'"
          using run ctx no_err \<open>scan_old ?old empty_sum = Some a\<close> sn Some app
          by (simp add: ngx_nsoc_write_filter_def Let_def)
        have "bytes_post inp outp up (?old @ new) (set_out up (?old @ new) s) rc s'"
          by (rule flush_chain_bytes [OF sc run' _ size ok]) (use ctx in simp)
        then show ?thesis by (simp add: bytes_post_def)
      qed
    qed
  qed
qed

section \<open>The filter behind the pointer\<close>

definition link_bytes :: "(nat \<Rightarrow> byte list) \<Rightarrow> link \<Rightarrow> byte list" where
  "link_bytes mem l = take (lk_last l - lk_pos l) (drop (lk_pos l) (mem (lk_region l)))"

definition links_bytes :: "(nat \<Rightarrow> byte list) \<Rightarrow> link list \<Rightarrow> byte list" where
  "links_bytes mem ls = concat (map (link_bytes mem) ls)"

abbreviation px_mem where "px_mem p \<equiv> smem (se_io (px_s p))"

abbreviation relay_links where "relay_links up p \<equiv> relay_busy up p @ relay_out up p"

definition pending :: "bool \<Rightarrow> ('w, 'h, 'k) px \<Rightarrow> byte list" where
  "pending up p = links_bytes (px_mem p) (relay_links up p)"

definition link_ok :: "link \<Rightarrow> bool" where
  "link_ok l \<longleftrightarrow> lk_pos l \<le> lk_last l \<and> (\<not> lk_temporary l \<longrightarrow> lk_pos l = lk_last l)"

text \<open>A link of which a part has been sent.\<close>

definition link_moved :: "link \<Rightarrow> link \<Rightarrow> bool" where
  "link_moved l l' \<longleftrightarrow> lk_region l' = lk_region l \<and> lk_last l' = lk_last l \<and> lk_temporary l' = lk_temporary l
     \<and> lk_pos l \<le> lk_pos l' \<and> lk_pos l' \<le> lk_last l'"

text \<open>What the relay needs of the function behind \<open>ngx_nsoc_top_filter\<close>, whatever filters it chains.\<close>

definition filter_contract ::
  "(bool \<Rightarrow> ('w, 'h, 'k) px \<Rightarrow> (int, ('w, 'h, 'k) px) run) \<Rightarrow> ('w \<Rightarrow> byte list) \<Rightarrow> ('w \<Rightarrow> byte list) \<Rightarrow> bool" where
  "filter_contract flt inp outp \<longleftrightarrow>
     (\<forall>up p rc q. flt up p = Ret rc q \<longrightarrow> list_all link_ok (relay_links up p) \<longrightarrow>
        length (relay_busy up p) \<le> px_saved p up \<longrightarrow>
        px_mem q = px_mem p \<and> inp (px_world q) = inp (px_world p) \<and>
        prefix (outp (px_world q)) (outp (px_world p) @ pending up p) \<and>
        relay_src up q = relay_src up p \<and> relay_buf up q = relay_buf up p \<and> px_ss q = px_ss p \<and>
        (rc \<noteq> NGX_ERROR \<longrightarrow>
           list_all2 link_moved (relay_links up p) (relay_links up q) \<and> length (dropWhile link_sent (relay_links up q)) \<le> px_saved q up \<and>
           outp (px_world q) @ pending up q = outp (px_world p) @ pending up p))"

lemma load_link_simps [simp]:
  "b_pos (load_link mem l) = lk_pos l" "b_last (load_link mem l) = lk_last l" "b_mem (load_link mem l) = mem (lk_region l)"
  "buf_ok (load_link mem l) = link_ok l" "buf_bytes (load_link mem l) = link_bytes mem l"
  by (auto simp: load_link_def temp_buf_def buf_ok_def link_ok_def buf_bytes_def link_bytes_def)

lemma bufs_bytes_load [simp]: "bufs_bytes (map (load_link mem) ls) = links_bytes mem ls"
  by (simp add: bufs_bytes_def links_bytes_def comp_def)

lemma bufs_bytes_append [simp]: "bufs_bytes (as @ bs) = bufs_bytes as @ bufs_bytes bs"
  by (simp add: bufs_bytes_def)

lemma links_bytes_append [simp]: "links_bytes mem (as @ bs) = links_bytes mem as @ links_bytes mem bs"
  by (simp add: links_bytes_def)

lemma chains_simps [simp]:
  "relay_busy up (set_chains up bs out p) = bs" "relay_out up (set_chains up bs out p) = out"
  "px_s (set_chains up bs out p) = px_s p" "relay_src d (set_chains up bs out p) = relay_src d p"
  "relay_buf d (set_chains up bs out p) = relay_buf d p" "px_saved (set_chains up bs out p) = px_saved p"
  "px_free (set_chains up bs out p) = px_free p"
  by (simp_all add: relay_busy_def relay_out_def set_chains_def relay_src_def relay_buf_def)

lemma upd_conn_simps [simp]:
  "relay_busy up (upd_conn d f p) = relay_busy up p" "relay_out up (upd_conn d f p) = relay_out up p"
  "relay_buf up (upd_conn d f p) = relay_buf up p" "px_saved (upd_conn d f p) = px_saved p"
  "px_mem (upd_conn d f p) = px_mem p" "px_world (upd_conn d f p) = px_world p" "px_ss (upd_conn d f p) = px_ss p"
  "se_stream (px_s (upd_conn d f p)) = se_stream (px_s p)" "se_received (px_s (upd_conn d f p)) = se_received (px_s p)"
  by (simp_all add: upd_conn_def relay_busy_def relay_out_def relay_buf_def)

lemma upd_conn_src [simp]:
  "relay_src up (upd_conn (\<not> up) f p) = relay_src up p"
  "relay_src up (upd_conn up f p) = map_option f (relay_src up p)"
  by (auto simp: upd_conn_def relay_src_def)

lemma moved_links:
  assumes "list_all2 moved (map (load_link mem) ls) rest"
  shows "links_bytes mem (map2 (\<lambda>l b. l\<lparr>lk_pos := b_pos b\<rparr>) ls rest) = bufs_bytes rest"
    and "list_all2 link_moved ls (map2 (\<lambda>l b. l\<lparr>lk_pos := b_pos b\<rparr>) ls rest)"
  using assms
proof (induction ls rest rule: list_induct2')
  case (4 l ls b bs)
  {
    case 1
    then have "moved (load_link mem l) b" by simp
    then have "link_bytes mem (l\<lparr>lk_pos := b_pos b\<rparr>) = buf_bytes b"
      by (simp add: moved_def same_buf_def link_bytes_def buf_bytes_def)
    with 1 4(1) show ?case by (simp add: links_bytes_def bufs_bytes_def)
  next
    case 2
    then show ?case using 4(2) by (simp add: moved_def same_buf_def link_moved_def)
  }
qed (simp_all add: links_bytes_def bufs_bytes_def)

lemma sent_links_post:
  assumes "list_all2 moved (drop k (map (load_link mem) ls)) rest" and "k \<le> length ls" and "list_all link_ok ls"
  shows "links_bytes mem (sent_links ls rest) = bufs_bytes rest"
    and "list_all2 link_moved ls (sent_links ls rest)"
    and "length (dropWhile link_sent (sent_links ls rest)) \<le> length rest"
proof -
  have m: "list_all2 moved (map (load_link mem) (drop k ls)) rest" using assms(1) by (simp add: drop_map)
  have k: "length ls - length rest = k" using list_all2_lengthD [OF m] assms(2) by simp
  let ?front = "map (\<lambda>l. l\<lparr>lk_pos := lk_last l\<rparr>) (take k ls)"
  let ?behind = "map2 (\<lambda>l b. l\<lparr>lk_pos := b_pos b\<rparr>) (drop k ls) rest"
  have eq: "sent_links ls rest = ?front @ ?behind" by (simp add: sent_links_def k)
  have "links_bytes mem ?front = []" by (auto simp: links_bytes_def link_bytes_def)
  then show "links_bytes mem (sent_links ls rest) = bufs_bytes rest"
    using moved_links(1) [OF m] by (simp add: eq)
  have "list_all2 link_moved (take k ls) ?front"
    using assms(3) by (auto simp: list_all2_conv_all_nth list_all_length link_moved_def link_ok_def)
  from this moved_links(2) [OF m] have "list_all2 link_moved (take k ls @ drop k ls) (?front @ ?behind)"
    by (rule list_all2_appendI)
  then show "list_all2 link_moved ls (sent_links ls rest)" by (simp add: eq)
  have "dropWhile link_sent (?front @ ?behind) = dropWhile link_sent ?behind"
    by (rule dropWhile_append2) (auto simp: link_sent_def)
  moreover have "length ?behind \<le> length rest" by simp
  ultimately show "length (dropWhile link_sent (sent_links ls rest)) \<le> length rest"
    unfolding eq by (metis length_dropWhile_le order_trans)
qed

lemma top_filter_contract:
  assumes sc: "plain_chain sc inp outp"
  shows "filter_contract (top_filter alloc sc) inp outp"
  unfolding filter_contract_def
proof (intro allI impI)
  fix up and p q :: "('a, 'b, 'c) px" and rc
  assume run: "top_filter alloc sc up p = Ret rc q" and ok: "list_all link_ok (relay_links up p)"
    and sv: "length (relay_busy up p) \<le> px_saved p up"
  let ?mem = "px_mem p" and ?ls = "relay_links up p"
  obtain dst where dst: "relay_dst up p = Some dst" using run by (auto simp: top_filter_def split: option.splits)
  let ?s = "\<lparr>wf_ctx = Some (filter_ctx up (map (load_link ?mem) (relay_busy up p))), wf_io = (se_io (px_s p))\<lparr>sock := dst\<rparr>\<rparr>"
  obtain st where st: "ngx_nsoc_write_filter alloc sc up (map (load_link ?mem) (relay_out up p)) ?s = Ret rc st"
    and q: "q = upd_conn (\<not> up) (\<lambda>_. sock (wf_io st))
      (set_chains up (take (length (relay_busy up p)) (sent_links ?ls (saved up st)))
        (drop (length (relay_busy up p)) (sent_links ?ls (saved up st)))
        (p\<lparr>px_s := (px_s p)\<lparr>se_io := (wf_io st)\<lparr>sock := px_sock p\<rparr>\<rparr>, px_saved := (px_saved p)(up := length (saved up st))\<rparr>))"
    using run dst sv by (auto simp: top_filter_def Let_def split: run.splits)
  have ctx: "wf_ctx ?s = Some (filter_ctx up (map (load_link ?mem) (relay_busy up p)))" by simp
  have "get_out up (filter_ctx up old) = old" for old by (simp add: get_out_def filter_ctx_def)
  moreover have "\<forall>b \<in> set (map (load_link ?mem) (relay_busy up p) @ map (load_link ?mem) (relay_out up p)). buf_ok b"
    using ok by (auto simp: list_all_iff)
  ultimately have "bytes_post inp outp up (map (load_link ?mem) ?ls) ?s rc st"
    using write_filter_bytes [OF sc st ctx] by simp
  note post = this [unfolded bytes_post_def]
  have links: "relay_links up q = sent_links ?ls (saved up st)" by (simp add: q)
  have mem: "px_mem q = ?mem" using post by (simp add: q)
  have more: "list_all2 link_moved ?ls (relay_links up q) \<and> length (dropWhile link_sent (relay_links up q)) \<le> px_saved q up \<and>
           outp (px_world q) @ pending up q = outp (px_world p) @ pending up p" if "rc \<noteq> NGX_ERROR"
  proof -
    from post that obtain k where k: "k \<le> length ?ls"
      and m: "list_all2 moved (drop k (map (load_link ?mem) ?ls)) (saved up st)"
      and eq: "outp (net (wf_io st)) @ bufs_bytes (saved up st) = outp (px_world p) @ links_bytes ?mem ?ls" by auto
    note sl = sent_links_post [OF m k ok]
    have "pending up q = bufs_bytes (saved up st)" using sl(1) by (simp only: pending_def links mem)
    with sl(2,3) eq show ?thesis unfolding links by (simp add: q pending_def)
  qed
  have "relay_src up q = relay_src up p" "relay_buf up q = relay_buf up p" "px_ss q = px_ss p"
    unfolding q upd_conn_src upd_conn_simps chains_simps
    using post by (simp_all add: relay_src_def relay_buf_def)
  with post mem more show "px_mem q = px_mem p \<and> inp (px_world q) = inp (px_world p) \<and>
        prefix (outp (px_world q)) (outp (px_world p) @ pending up p) \<and>
        relay_src up q = relay_src up p \<and> relay_buf up q = relay_buf up p \<and> px_ss q = px_ss p \<and>
        (rc \<noteq> NGX_ERROR \<longrightarrow>
           list_all2 link_moved (relay_links up p) (relay_links up q) \<and> length (dropWhile link_sent (relay_links up q)) \<le> px_saved q up \<and>
           outp (px_world q) @ pending up q = outp (px_world p) @ pending up p)"
    by (simp add: q pending_def)
qed

section \<open>What the relay keeps\<close>

text \<open>
  What has gone out, what is pending and what is still to come make up one stream. The links of
  the direction's own buffer lie below the place where the next read begins.
\<close>

definition relay_inv ::
  "('w \<Rightarrow> byte list) \<Rightarrow> ('w \<Rightarrow> byte list) \<Rightarrow> bool \<Rightarrow> byte list \<Rightarrow> ('w, 'h, 'k) px \<Rightarrow> bool" where
  "relay_inv inp outp up stream p \<longleftrightarrow>
     outp (px_world p) @ pending up p @ inp (px_world p) = stream \<and>
     list_all link_ok (relay_links up p) \<and> length (relay_busy up p) \<le> px_saved p up \<and>
     (\<exists>b. relay_buf up p = Some b \<and> length (px_mem p (cb_region b)) = cb_end b \<and> 4 \<le> cb_last b \<and>
        cb_last b + NOISE_PROTOCOL_MAC_DATA_SIZE \<le> cb_end b \<and> cb_end b < 2 ^ 64 \<and>
        (\<forall>l \<in> set (relay_links up p). lk_region l = cb_region b \<longrightarrow> lk_last l \<le> cb_last b)) \<and>
     map_option c_recv (relay_src up p) = Some Io_os"

text \<open>All that the invariant is about.\<close>

definition relay_view ::
  "('w \<Rightarrow> byte list) \<Rightarrow> ('w \<Rightarrow> byte list) \<Rightarrow> bool \<Rightarrow> ('w, 'h, 'k) px \<Rightarrow>
   byte list \<times> byte list \<times> (nat \<Rightarrow> byte list) \<times> link list \<times> link list \<times> conn_buf option \<times> nat \<times> io_impl option" where
  "relay_view inp outp up p = (outp (px_world p), inp (px_world p), px_mem p, relay_busy up p, relay_out up p,
     relay_buf up p, px_saved p up, map_option c_recv (relay_src up p))"

lemma relay_inv_cong:
  "relay_view inp outp up q = relay_view inp outp up p \<Longrightarrow> relay_inv inp outp up stream q = relay_inv inp outp up stream p"
  by (simp add: relay_inv_def pending_def relay_view_def)

lemma relay_inv_prefix: "relay_inv inp outp up stream p \<Longrightarrow> prefix (outp (px_world p)) stream"
  by (auto simp: relay_inv_def)

lemma relay_view_simps [simp]:
  "relay_view inp outp up (p\<lparr>px_states := x\<rparr>) = relay_view inp outp up p"
  "relay_view inp outp up (p\<lparr>px_responses := y\<rparr>) = relay_view inp outp up p"
  "relay_view inp outp up (p\<lparr>px_free := z\<rparr>) = relay_view inp outp up p"
  by (simp_all add: relay_view_def relay_busy_def relay_out_def relay_buf_def relay_src_def)

lemma relay_view_events [simp]:
  assumes "\<And>c. c_recv (f c) = c_recv c"
  shows "relay_view inp outp up (upd_conn d f p) = relay_view inp outp up p"
proof -
  have "relay_src up (upd_conn d f p) = relay_src up p \<or> relay_src up (upd_conn d f p) = map_option f (relay_src up p)"
    by (cases "d = up") (auto simp: upd_conn_def relay_src_def)
  then have "map_option c_recv (relay_src up (upd_conn d f p)) = map_option c_recv (relay_src up p)"
    using assms by (auto simp: option.map_comp comp_def)
  then show ?thesis by (simp add: relay_view_def)
qed

lemma delay_read_view [simp]: "relay_view inp outp up (delay_read env up ms p) = relay_view inp outp up p"
  by (simp add: delay_read_def)

lemma note_read_view [simp]: "relay_view inp outp up (note_read env up n p) = relay_view inp outp up p"
  by (simp add: note_read_def Let_def)

lemma set_world_view:
  "outp w = outp (px_world p) \<Longrightarrow> inp w = inp (px_world p) \<Longrightarrow> relay_view inp outp up (set_world w p) = relay_view inp outp up p"
  by (simp add: relay_view_def relay_busy_def relay_out_def relay_buf_def relay_src_def)

lemma chain_get_free_view:
  assumes "two_way (pe_nginx env) inp outp" and "chain_get_free env p = (ok, q)"
  shows "relay_view inp outp up q = relay_view inp outp up p"
proof (cases "px_free p > 0")
  case True
  then show ?thesis using assms(2) by (auto simp: chain_get_free_def)
next
  case False
  obtain m w where w: "ngx_palloc (pe_nginx env) 1 (px_world p) = (m, w)" by (rule prod.exhaust)
  then have "outp w = outp (px_world p)" "inp w = inp (px_world p)" using assms(1) by (auto simp: two_way_def)
  then show ?thesis
    using assms(2) False w set_world_view [of outp w p inp up] by (simp add: chain_get_free_def px_alloc_def)
qed

lemma link_moved_ok: "link_moved l l' \<Longrightarrow> link_ok l \<Longrightarrow> link_ok l'"
  by (auto simp: link_moved_def link_ok_def)

lemma links_moved:
  assumes "list_all2 link_moved ls ls'"
  shows "list_all link_ok ls \<Longrightarrow> list_all link_ok ls'"
    and "\<forall>l \<in> set ls. lk_region l = r \<longrightarrow> lk_last l \<le> n \<Longrightarrow> \<forall>l \<in> set ls'. lk_region l = r \<longrightarrow> lk_last l \<le> n"
  using assms by (induction rule: list_all2_induct) (auto simp: link_moved_ok, auto simp: link_moved_def)

lemma unsent_bytes: "links_bytes mem (dropWhile link_sent ls) = links_bytes mem ls"
  by (induction ls) (auto simp: links_bytes_def link_bytes_def link_sent_def)

lemma reset_buf_links [simp]:
  "relay_busy up (reset_buf d p) = relay_busy up p" "relay_out up (reset_buf d p) = relay_out up p"
  "px_s (reset_buf d p) = px_s p" "px_saved (reset_buf d p) = px_saved p" "relay_src up (reset_buf d p) = relay_src up p"
  by (simp_all add: reset_buf_def set_relay_buf_def relay_busy_def relay_out_def relay_src_def split: option.splits)

lemma reset_buf_buf:
  "relay_buf up p = Some b \<Longrightarrow> relay_buf up (reset_buf up p) = Some (b\<lparr>cb_pos := 4, cb_last := 4\<rparr>)"
  by (simp add: reset_buf_def set_relay_buf_def relay_buf_def NGX_NSOC_LEN_FIELD_SIZE_def)

lemma px_free_links [simp]:
  "relay_busy up (p\<lparr>px_free := n\<rparr>) = relay_busy up p" "relay_out up (p\<lparr>px_free := n\<rparr>) = relay_out up p"
  "relay_buf up (p\<lparr>px_free := n\<rparr>) = relay_buf up p" "relay_src up (p\<lparr>px_free := n\<rparr>) = relay_src up p"
  by (simp_all add: relay_busy_def relay_out_def relay_buf_def relay_src_def)

lemma reset_empty_inv:
  assumes "relay_inv inp outp up stream p" and "relay_links up p = []"
  shows "relay_inv inp outp up stream (reset_buf up p)"
  using assms by (auto simp: relay_inv_def pending_def reset_buf_buf)

lemma relay_write_inv:
  assumes flt: "filter_contract (re_filter env) inp outp" and upd: "update_contract (re_update env)"
    and inv: "relay_inv inp outp up stream p" and run: "relay_write env up p = Ret r q"
  shows "if r = None then relay_inv inp outp up stream q else prefix (outp (px_world q)) stream"
proof (cases "q = p")
  case True
  then show ?thesis using inv relay_inv_prefix by auto
next
  case False
  then obtain rc p1 where p1: "re_filter env up p = Ret rc p1"
    and r: "(if rc = NGX_ERROR then r \<noteq> None \<and> q = p1
      else r = None \<and> (let (bs, n) = re_update env (relay_busy up p1) (relay_out up p1);
             p2 = (set_chains up bs [] p1)\<lparr>px_free := px_free p1 + n\<rparr> in q = (if bs = [] then reset_buf up p2 else p2)))"
    using run by (auto simp: relay_write_def bind_run_Ret_iff Let_def split: option.splits if_splits prod.splits)
  from inv have links: "list_all link_ok (relay_links up p)" "length (relay_busy up p) \<le> px_saved p up"
    by (simp_all add: relay_inv_def)
  note post = flt [unfolded filter_contract_def, rule_format, OF p1 links]
  show ?thesis
  proof (cases "rc = NGX_ERROR")
    case True
    then have "q = p1" "r \<noteq> None" using r by auto
    moreover have "prefix (outp (px_world p1)) (outp (px_world p) @ pending up p)" using post by simp
    ultimately show ?thesis using inv by (auto simp: relay_inv_def intro: prefix_order.trans)
  next
    case False
    obtain bs n where bs: "re_update env (relay_busy up p1) (relay_out up p1) = (bs, n)" by (rule prod.exhaust)
    have eq: "bs = dropWhile link_sent (relay_links up p1)"
      using upd [unfolded update_contract_def, rule_format, of "relay_busy up p1" "relay_out up p1"] bs by simp
    let ?p2 = "(set_chains up bs [] p1)\<lparr>px_free := px_free p1 + n\<rparr>"
    from post False have mv: "list_all2 link_moved (relay_links up p) (relay_links up p1)"
      and len: "length bs \<le> px_saved p1 up" and out: "outp (px_world p1) @ pending up p1 = outp (px_world p) @ pending up p"
      by (simp_all add: eq)
    have sub: "set bs \<subseteq> set (relay_links up p1)" unfolding eq by (auto dest: set_dropWhileD)
    have pend: "links_bytes (px_mem p1) bs = pending up p1" unfolding eq unsent_bytes pending_def ..
    obtain b where b: "relay_buf up p = Some b" "length (px_mem p (cb_region b)) = cb_end b" "4 \<le> cb_last b"
        "cb_last b + NOISE_PROTOCOL_MAC_DATA_SIZE \<le> cb_end b" "cb_end b < 2 ^ 64"
        "\<forall>l \<in> set (relay_links up p). lk_region l = cb_region b \<longrightarrow> lk_last l \<le> cb_last b"
      using inv by (auto simp: relay_inv_def)
    have "list_all link_ok bs" using links_moved(1) [OF mv links(1)] sub by (auto simp: list_all_iff)
    moreover have "\<forall>l \<in> set bs. lk_region l = cb_region b \<longrightarrow> lk_last l \<le> cb_last b"
      using links_moved(2) [OF mv b(6)] sub by blast
    moreover have "outp (px_world p1) @ pending up p1 @ inp (px_world p1) = stream"
      using inv post out by (simp add: relay_inv_def flip: append_assoc)
    moreover have "map_option c_recv (relay_src up p1) = Some Io_os" using inv post by (simp add: relay_inv_def)
    ultimately have "relay_inv inp outp up stream ?p2"
      using post b(1-5) len pend by (auto simp: relay_inv_def pending_def)
    then show ?thesis using r False bs reset_empty_inv [of inp outp up stream ?p2] by (auto simp: Let_def)
  qed
qed

lemma relay_recv_plain:
  assumes io: "two_way (pe_nginx env) inp outp" and run: "relay_recv env up (r, off) sz p = Ret n q"
    and src: "map_option c_recv (relay_src up p) = Some Io_os"
  shows "\<exists>bs m. relay_view inp outp up q = (outp (px_world p), inp (px_world q), (px_mem p)(r := m), relay_busy up p,
      relay_out up p, relay_buf up p, px_saved p up, Some Io_os) \<and> inp (px_world p) = bs @ inp (px_world q) \<and>
    length bs \<le> sz \<and> (if n > 0 then int (length bs) = n \<and> mem_write off bs (px_mem p r) = Some m else bs = [] \<and> m = px_mem p r)"
proof -
  obtain c where c: "relay_src up p = Some c" "c_recv c = Io_os" using src by auto
  obtain k bs c' w' where r: "ngx_recv (pe_nginx env) sz c (px_world p) = (k, bs, c', w')" by (rule prod_cases4)
  have post: "outp w' = outp (px_world p)" "c_recv c' = Io_os"
    "if k > 0 then int (length bs) = k \<and> length bs \<le> sz \<and> inp (px_world p) = bs @ inp w' else inp w' = inp (px_world p)"
    using io [unfolded two_way_def, THEN conjunct1, rule_format, OF r] c(2) by simp_all
  have "\<exists>m. n = k \<and> relay_view inp outp up q = (outp w', inp w', (px_mem p)(r := m), relay_busy up p,
      relay_out up p, relay_buf up p, px_saved p up, Some Io_os) \<and> px_world q = w' \<and>
    (if k > 0 then mem_write off bs (px_mem p r) = Some m else m = px_mem p r)"
    using run c r post(2)
    by (auto simp: relay_recv_def conn_recv_def on_pc_def relay_src_def relay_view_def relay_busy_def relay_out_def
        relay_buf_def Let_def split: if_splits option.splits)
  then obtain m where m: "n = k" "relay_view inp outp up q = (outp w', inp w', (px_mem p)(r := m), relay_busy up p,
      relay_out up p, relay_buf up p, px_saved p up, Some Io_os)" "px_world q = w'"
    "if k > 0 then mem_write off bs (px_mem p r) = Some m else m = px_mem p r" by blast
  then show ?thesis
    using post by (intro exI [of _ "if n > 0 then bs else []"] exI [of _ m]) (auto split: if_splits)
qed

lemma link_bytes_below:
  assumes "mem_write off bs (mem r) = Some m" and "lk_region l = r \<Longrightarrow> lk_last l \<le> off"
  shows "link_bytes (mem(r := m)) l = link_bytes mem l"
proof (cases "lk_region l = r")
  case True
  with assms have le: "lk_last l \<le> off" "off + length bs \<le> length (mem r)"
    and m: "m = take off (mem r) @ bs @ drop (off + length bs) (mem r)"
    by (auto simp: mem_write_def split: if_splits)
  have "take (lk_last l) m = take (lk_last l) (mem r)" using le by (simp add: m)
  with True show ?thesis by (simp add: link_bytes_def flip: drop_take)
qed (simp add: link_bytes_def)

lemma links_bytes_below:
  assumes "mem_write off bs (mem r) = Some m" and "\<forall>l \<in> set ls. lk_region l = r \<longrightarrow> lk_last l \<le> off"
  shows "links_bytes (mem(r := m)) ls = links_bytes mem ls"
proof -
  have "map (link_bytes (mem(r := m))) ls = map (link_bytes mem) ls"
    using assms by (intro map_cong refl link_bytes_below) auto
  then show ?thesis unfolding links_bytes_def by (rule arg_cong)
qed

lemma append_read_view:
  assumes "two_way (pe_nginx (re_px env)) inp outp" and "append_read env up b n p = (ok, q)"
  obtains (full) "\<not> ok" "relay_view inp outp up q = relay_view inp outp up p"
  | (linked) eof where "ok" "relay_view inp outp up q = (outp (px_world p), inp (px_world p), px_mem p, relay_busy up p,
      relay_out up p @ [\<lparr>lk_region = cb_region b, lk_pos = cb_last b, lk_last = cb_last b + n, lk_temporary = (n \<noteq> 0),
                         lk_last_buf = eof, lk_flush = True\<rparr>],
      Some (b\<lparr>cb_last := cb_last b + n\<rparr>), px_saved p up, map_option c_recv (relay_src up p))"
proof -
  obtain ok1 p1 where p1: "chain_get_free (re_px env) p = (ok1, p1)" by (rule prod.exhaust)
  note v = chain_get_free_view [OF assms(1) p1, of up]
  have upd: "relay_view inp outp up (add_received up n (set_relay_buf up b' (set_chains up bs out p1))) =
    (outp (px_world p1), inp (px_world p1), px_mem p1, bs, out, Some b', px_saved p1 up, map_option c_recv (relay_src up p1))"
    for b' bs out
    by (simp add: relay_view_def add_received_def set_relay_buf_def set_chains_def relay_busy_def relay_out_def
        relay_buf_def relay_src_def)
  show thesis
  proof (cases ok1)
    case True
    with assms(2) p1 v show thesis
      by (intro linked [of "case relay_src up p1 of None \<Rightarrow> False | Some c \<Rightarrow> ev_eof (c_read c)"])
        (auto simp: append_read_def Let_def upd, auto simp: relay_view_def)
  next
    case False
    with assms(2) p1 v show thesis by (intro full) (auto simp: append_read_def)
  qed
qed

lemma relay_view_eq_inv:
  assumes "relay_inv inp outp up stream p" and "relay_buf up p = Some b" and "relay_view inp outp up q = (outp (px_world p), i, (px_mem p)(cb_region b := m), relay_busy up p,
      relay_out up p @ [l], Some (b\<lparr>cb_last := cb_last b + length bs\<rparr>), px_saved p up, Some Io_os)"
    and "inp (px_world p) = bs @ i" and "mem_write (cb_last b) bs (px_mem p (cb_region b)) = Some m"
    and "cb_last b + length bs + NOISE_PROTOCOL_MAC_DATA_SIZE \<le> cb_end b"
    and "lk_region l = cb_region b" "lk_pos l = cb_last b" "lk_last l = cb_last b + length bs" "lk_temporary l \<longleftrightarrow> bs \<noteq> []"
  shows "relay_inv inp outp up stream q"
proof -
  have b: "length (px_mem p (cb_region b)) = cb_end b" "4 \<le> cb_last b" "cb_end b < 2 ^ 64"
      "\<forall>l \<in> set (relay_links up p). lk_region l = cb_region b \<longrightarrow> lk_last l \<le> cb_last b"
    using assms(1,2) by (simp_all add: relay_inv_def)
  have new: "link_bytes ((px_mem p)(cb_region b := m)) l = bs"
    using mem_write_prefix [OF assms(5), of "cb_last b"] assms(7-9) by (simp add: link_bytes_def)
  have "pending up q = pending up p @ bs"
    using links_bytes_below [where mem = "px_mem p", OF assms(5) b(4)] assms(3) new by (simp add: pending_def relay_view_def) (simp add: links_bytes_def)
  moreover have "link_ok l" using assms(7-10) by (simp add: link_ok_def)
  ultimately show ?thesis
    using assms(1,3,4,6,7,9) b mem_write_length [OF assms(5)]
    by (auto simp: relay_inv_def relay_view_def)
qed

lemma rate_limit_le: "rate_limit env up sz p = Inr sz' \<Longrightarrow> sz' \<le> sz"
  by (auto simp: rate_limit_def Let_def split: if_splits)

lemma relay_read_cases:
  assumes "relay_read env up noise p = Ret r q" and "relay_buf up p = Some b"
  obtains (idle) "r = Inl None" "relay_view inp outp up q = relay_view inp outp up p"
  | (read) sz n p1 where "sz \<le> relay_room noise b"
      "relay_recv (re_px env) up (cb_region b, if noise then 0 else cb_last b) sz p = Ret n p1"
      "after_recv env up b n p1 = Ret r q"
proof -
  obtain src where src: "relay_src up p = Some src"
    using assms by (auto simp: relay_read_def split: option.splits)
  show thesis
  proof (cases "relay_room noise b = 0 \<or> \<not> ev_ready (c_read src) \<or> ev_delayed (c_read src) \<or> ev_error (c_read src)")
    case True
    with assms src show thesis by (intro idle) (auto simp: relay_read_def)
  next
    case False
    show thesis
    proof (cases "rate_limit env up (relay_room noise b) p")
      case (Inl ms)
      with assms src False show thesis by (intro idle) (auto simp: relay_read_def)
    next
      case (Inr sz)
      with assms src False have "bind_run (relay_recv (re_px env) up (cb_region b, if noise then 0 else cb_last b) sz p)
          (after_recv env up b) = Ret r q" by (simp add: relay_read_def)
      then show thesis using read rate_limit_le [OF Inr] by (auto simp only: bind_run_Ret_iff)
    qed
  qed
qed

lemma relay_read_inv:
  assumes io: "two_way (pe_nginx (re_px env)) inp outp" and inv: "relay_inv inp outp up stream p"
    and run: "relay_read env up False p = Ret r q"
  shows "if r \<in> {Inr (), Inl None} then relay_inv inp outp up stream q else prefix (outp (px_world q)) stream"
proof -
  obtain b where b: "relay_buf up p = Some b" "length (px_mem p (cb_region b)) = cb_end b" "4 \<le> cb_last b"
      "cb_last b + NOISE_PROTOCOL_MAC_DATA_SIZE \<le> cb_end b" "cb_end b < 2 ^ 64"
    using inv by (auto simp: relay_inv_def)
  have src: "map_option c_recv (relay_src up p) = Some Io_os" using inv by (simp add: relay_inv_def)
  have room: "relay_room False b = cb_end b - cb_last b - NOISE_PROTOCOL_MAC_DATA_SIZE"
    using b(4,5) by (simp add: relay_room_def nat_diff_distrib')
  from run b(1) show ?thesis
  proof (cases rule: relay_read_cases [where inp = inp and outp = outp])
    case idle
    with inv show ?thesis using relay_inv_cong by fastforce
  next
    case (read sz n p1)
    then have recv: "relay_recv (re_px env) up (cb_region b, cb_last b) sz p = Ret n p1" by simp
    from relay_recv_plain [OF io recv src] obtain bs m where
      v: "relay_view inp outp up p1 = (outp (px_world p), inp (px_world p1), (px_mem p)(cb_region b := m), relay_busy up p,
        relay_out up p, relay_buf up p, px_saved p up, Some Io_os)"
      and bs: "inp (px_world p) = bs @ inp (px_world p1)" "length bs \<le> sz"
      and m: "if n > 0 then int (length bs) = n \<and> mem_write (cb_last b) bs (px_mem p (cb_region b)) = Some m
        else bs = [] \<and> m = px_mem p (cb_region b)" by blast
    have w: "mem_write (cb_last b) bs (px_mem p (cb_region b)) = Some m"
      using m b(2,4) by (auto split: if_splits)
    have fits: "cb_last b + length bs + NOISE_PROTOCOL_MAC_DATA_SIZE \<le> cb_end b"
      using read(1) bs(2) room b(4) by simp
    have idle: "relay_inv inp outp up stream p1" if "n \<le> 0"
      using that m v bs inv relay_inv_cong [of inp outp up p1 p] by (auto simp: relay_view_def src)
    have link: "if r \<in> {Inr (), Inl None} then relay_inv inp outp up stream q else prefix (outp (px_world q)) stream"
      if p2: "relay_view inp outp up p2 = relay_view inp outp up p1" and ap: "append_read env up b (length bs) p2 = (ok, q)"
        and r: "r = (if ok then Inr () else Inl (Some (Finalize NGX_NSOC_INTERNAL_SERVER_ERROR)))" for ok p2
      using io ap
    proof (cases rule: append_read_view)
      case full
      then have "outp (px_world q) = outp (px_world p)" using p2 v by (simp add: relay_view_def)
      then show ?thesis using full r relay_inv_prefix [OF inv] by simp
    next
      case (linked eof)
      have "relay_inv inp outp up stream q"
        by (rule relay_view_eq_inv [OF inv b(1) _ bs(1) w fits]) (use linked p2 v b(1) in \<open>auto simp: relay_view_def\<close>)
      then show ?thesis using linked r by simp
    qed
    let ?p2 = "if n = NGX_ERROR then upd_conn up (upd_read (\<lambda>e. e\<lparr>ev_eof := True\<rparr>)) p1 else p1"
    have v2: "relay_view inp outp up ?p2 = relay_view inp outp up p1" by simp
    have len: "nat (if n = NGX_ERROR then 0 else n) = length bs" if "n \<ge> 0 \<or> n = NGX_ERROR" using m that by (auto split: if_splits)
    consider (again) "n = NGX_AGAIN" | (refused) "n = NGX_ERROR" "r = Inl (Some Next_upstream)" "q = p1"
      | (other) "n < 0" "n \<noteq> NGX_ERROR" "r = Inl None" "q = p1"
      | (got) ok where "n \<ge> 0 \<or> n = NGX_ERROR" "append_read env up b (length bs) (note_read env up (length bs) ?p2) = (ok, q)"
          "r = (if ok then Inr () else Inl (Some (Finalize NGX_NSOC_INTERNAL_SERVER_ERROR)))"
      using read(3) len
      by (cases "n = NGX_ERROR") (auto simp: after_recv_def Let_def split: if_splits prod.splits)
    then show ?thesis
    proof cases
      case again
      then show ?thesis using read(3) idle by (simp add: after_recv_def)
    next
      case refused
      then show ?thesis using idle relay_inv_prefix by auto
    next
      case other
      then show ?thesis using idle by simp
    next
      case (got ok)
      show ?thesis by (rule link [OF _ got(2,3)]) (simp only: note_read_view v2)
    qed
  qed
qed

lemma relay_loop_inv:
  assumes "two_way (pe_nginx (re_px env)) inp outp" and "filter_contract (re_filter env) inp outp"
    and "update_contract (re_update env)"
  shows "relay_loop fuel env up False w p = Ret f q \<Longrightarrow> relay_inv inp outp up stream p \<Longrightarrow>
    if f = None then relay_inv inp outp up stream q else prefix (outp (px_world q)) stream"
proof (induction fuel arbitrary: w p)
  case (Suc fuel)
  obtain g p1 where g: "(if w then relay_write env up p else Ret None p) = Ret g p1"
    and rest: "(case g of Some h \<Rightarrow> Ret (Some h) p1 | None \<Rightarrow> bind_run (relay_read env up False p1)
            (\<lambda>r p2. case r of Inl f \<Rightarrow> Ret f p2 | Inr _ \<Rightarrow> relay_loop fuel env up False True p2)) = Ret f q"
    using Suc.prems(1) by (auto simp: bind_run_Ret_iff)
  have p1: "if g = None then relay_inv inp outp up stream p1 else prefix (outp (px_world p1)) stream"
    using g relay_write_inv [OF assms(2,3) Suc.prems(2), of g p1] Suc.prems(2) by (auto split: if_splits)
  show ?case
  proof (cases g)
    case None
    with rest obtain r p2 where r: "relay_read env up False p1 = Ret r p2"
      and k: "(case r of Inl f \<Rightarrow> Ret f p2 | Inr _ \<Rightarrow> relay_loop fuel env up False True p2) = Ret f q"
      by (auto simp: bind_run_Ret_iff)
    from p1 None have "relay_inv inp outp up stream p1" by simp
    note rd = relay_read_inv [OF assms(1) this r]
    then show ?thesis using k Suc.IH [of True p2] by (cases r) (auto split: if_splits)
  qed (use p1 rest in auto)
qed simp

lemma relay_events_view:
  assumes "two_way (pe_nginx (re_px env)) inp outp" and "relay_events env up src p = (f, q)"
    and "relay_src up p = Some src"
  shows "outp (px_world q) = outp (px_world p) \<and> inp (px_world q) = inp (px_world p) \<and> pending d q = pending d p"
proof -
  have view: "inp (px_world (upd_conn d' g p')) = inp (px_world p')" "outp (px_world (upd_conn d' g p')) = outp (px_world p')"
    "pending d (upd_conn d' g p') = pending d p'" for d' g and p' :: "('a, 'b, 'c) px"
    by (simp_all add: pending_def)
  have world: "inp (px_world (set_world w p')) = inp w" "outp (px_world (set_world w p')) = outp w"
    "pending d (set_world w p') = pending d p'" for w and p' :: "('a, 'b, 'c) px"
    by (simp_all add: pending_def relay_busy_def relay_out_def)
  obtain rc1 c1 w1 where r1: "(if c_shared src then (NGX_OK, src, px_world p)
      else ngx_handle_read_event (pe_nginx (re_px env)) src (px_world p)) = (rc1, c1, w1)" by (rule prod_cases3)
  have w1: "outp w1 = outp (px_world p)" "inp w1 = inp (px_world p)"
    using r1 assms(1) by (auto simp: two_way_def split: if_splits)
  define p1 where "p1 = upd_conn up (\<lambda>_. c1) (set_world w1 p)"
  have p1: "outp (px_world p1) = outp (px_world p)" "inp (px_world p1) = inp (px_world p)" "pending d p1 = pending d p"
    using w1 by (simp_all only: p1_def view world)
  show ?thesis
  proof (cases "rc1 \<noteq> NGX_OK \<or> relay_dst up p1 = None")
    case True
    then have "q = p1" using assms(2) r1 by (auto simp: relay_events_def p1_def [symmetric] Let_def split: if_splits)
    then show ?thesis using p1 by simp
  next
    case False
    then obtain dst where dst: "relay_dst up p1 = Some dst" "rc1 = NGX_OK" by auto
    obtain rc2 c2 w2 where r2: "(if c_shared dst then (NGX_OK, dst, px_world p1)
        else ngx_handle_write_event (pe_nginx (re_px env)) dst (px_world p1)) = (rc2, c2, w2)" by (rule prod_cases3)
    have w2: "outp w2 = outp (px_world p)" "inp w2 = inp (px_world p)"
      using r2 assms(1) p1 by (auto simp: two_way_def split: if_splits)
    define p2 where "p2 = upd_conn (\<not> up) (\<lambda>_. c2) (set_world w2 p1)"
    have p2: "outp (px_world p2) = outp (px_world p)" "inp (px_world p2) = inp (px_world p)" "pending d p2 = pending d p"
      using w2 p1 by (simp_all only: p2_def view world)
    have "q = p2 \<or> (\<exists>g. q = upd_conn False g p2)"
      using assms(2) r1 r2 dst by (auto simp: relay_events_def p1_def [symmetric] p2_def [symmetric] Let_def split: if_splits)
    then show ?thesis using p2 view by auto
  qed
qed

lemma relay_write_call: "relay_write env up p = Ret r q \<Longrightarrow> r \<noteq> Some Done"
  by (auto simp: relay_write_def bind_run_Ret_iff Let_def split: option.splits if_splits prod.splits)

lemma after_recv_call: "after_recv env up b n p = Ret r q \<Longrightarrow> r \<noteq> Inl (Some Done)"
  by (auto simp: after_recv_def Let_def split: if_splits prod.splits)

lemma relay_read_call: "relay_read env up noise p = Ret r q \<Longrightarrow> r \<noteq> Inl (Some Done)"
  by (auto simp: relay_read_def bind_run_Ret_iff Let_def dest!: after_recv_call split: option.splits if_splits sum.splits)

lemma relay_loop_call: "relay_loop fuel env up noise w p = Ret r q \<Longrightarrow> r \<noteq> Some Done"
proof (induction fuel arbitrary: w p)
  case (Suc fuel)
  from Suc.prems obtain g p1 where g: "(if w then relay_write env up p else Ret None p) = Ret g p1"
    and rest: "(case g of Some h \<Rightarrow> Ret (Some h) p1 | None \<Rightarrow> bind_run (relay_read env up noise p1)
            (\<lambda>r p2. case r of Inl f \<Rightarrow> Ret f p2 | Inr _ \<Rightarrow> relay_loop fuel env up noise True p2)) = Ret r q"
    by (auto simp: bind_run_Ret_iff)
  have gd: "g \<noteq> Some Done" using g by (auto dest: relay_write_call split: if_splits)
  show ?case
  proof (cases g)
    case None
    with rest obtain x p2 where x: "relay_read env up noise p1 = Ret x p2"
      and k: "(case x of Inl f \<Rightarrow> Ret f p2 | Inr _ \<Rightarrow> relay_loop fuel env up noise True p2) = Ret r q"
      by (auto simp: bind_run_Ret_iff)
    then show ?thesis using Suc.IH relay_read_call [OF x] by (cases x) auto
  qed (use gd rest in auto)
qed simp

lemma relay_process_flow:
  assumes io: "two_way (pe_nginx (re_px env)) inp outp" and flt: "filter_contract (re_filter env) inp outp"
    and upd: "update_contract (re_update env)"
    and run: "ngx_nsoc_proxy_process fuel env up w p = Ret f q"
    and plain: "\<not> noise_recv_action up p" "map_option c_recv (relay_src up p) = Some Io_os"
    and empty: "relay_links up p = []"
    and buf: "relay_buf up p = Some b" "length (px_mem p (cb_region b)) = cb_end b" "cb_end b < 2 ^ 64"
      "4 + NOISE_PROTOCOL_MAC_DATA_SIZE \<le> cb_end b"
  shows "prefix (outp (px_world q)) (outp (px_world p) @ inp (px_world p)) \<and>
    (f = Done \<longrightarrow> outp (px_world q) @ pending up q @ inp (px_world q) = outp (px_world p) @ inp (px_world p))"
proof (cases "\<not> se_stream (px_s p) \<and> re_exiting env")
  case True
  then show ?thesis using run by (auto simp: ngx_nsoc_proxy_process_def)
next
  case False
  let ?stream = "outp (px_world p) @ inp (px_world p)"
  have start: "relay_inv inp outp up ?stream (reset_buf up p)"
    using plain(2) empty buf by (auto simp: relay_inv_def pending_def links_bytes_def reset_buf_buf)
  obtain g p1 where g: "relay_loop fuel env up False w (reset_buf up p) = Ret g p1"
    and rest: "(case g of Some h \<Rightarrow> Ret h p1 | None \<Rightarrow> relay_end env up p1) = Ret f q"
    using run False plain(1) by (auto simp: ngx_nsoc_proxy_process_def bind_run_Ret_iff)
  note inv = relay_loop_inv [OF io flt upd g start]
  show ?thesis
  proof (cases g)
    case None
    with inv have i: "relay_inv inp outp up ?stream p1" by simp
    have "relay_src up p1 \<noteq> None" using i by (auto simp: relay_inv_def)
    then have "q = p1 \<or> (\<exists>src. relay_events env up src p1 = (f, q) \<and> relay_src up p1 = Some src)"
      using rest None by (auto simp: relay_end_def split: option.splits if_splits prod.splits)
    then have "outp (px_world q) = outp (px_world p1) \<and> inp (px_world q) = inp (px_world p1) \<and> pending up q = pending up p1"
      using relay_events_view [OF io] by blast
    with i relay_inv_prefix [OF i] show ?thesis by (simp add: relay_inv_def)
  next
    case (Some h)
    then show ?thesis using inv rest relay_loop_call [OF g] by auto
  qed
qed

section \<open>A relay to run\<close>

text \<open>A send chain for the script, as nginx's does it for a plain socket.\<close>

fun script_chain :: "(script, 'h, 'k) chain_pt" where
  "script_chain [] lim t = Ret (Some []) t"
| "script_chain (b # bs) lim t =
     (let k = min (sc_room (net t)) (length (buf_bytes b));
          t' = t\<lparr>net := (net t)\<lparr>sc_out := sc_out (net t) @ take k (buf_bytes b), sc_room := sc_room (net t) - k\<rparr>\<rparr>
      in if k = length (buf_bytes b) then script_chain bs lim t'
         else Ret (Some (b\<lparr>b_pos := b_pos b + k\<rparr> # bs)) t')"

abbreviation script_in :: "script \<Rightarrow> byte list" where "script_in w \<equiv> concat (sc_in w)"

lemma script_two_way: "two_way script_nginx script_in sc_out"
  by (auto simp: two_way_def script_nginx_def script_recv_def dest: script_take_prefix split: prod.splits if_splits)

lemma buf_bytes_part:
  assumes "k \<le> length (buf_bytes b)"
  shows "buf_bytes b = take k (buf_bytes b) @ buf_bytes (b\<lparr>b_pos := b_pos b + k\<rparr>)"
proof -
  have "drop k (buf_bytes b) = buf_bytes (b\<lparr>b_pos := b_pos b + k\<rparr>)"
    by (simp add: buf_bytes_def drop_take ac_simps)
  then show ?thesis by (metis append_take_drop_id)
qed

lemma moved_refl: "buf_ok b \<Longrightarrow> moved b b"
  by (simp add: moved_def buf_ok_def)

lemma script_chain_post:
  "script_chain chain lim t = Ret r t' \<Longrightarrow> \<forall>b \<in> set chain. buf_ok b \<Longrightarrow>
   smem t' = smem t \<and> ss t' = ss t \<and> sc_in (net t') = sc_in (net t) \<and>
   (\<exists>rest. r = Some rest \<and> (\<exists>k \<le> length chain. list_all2 moved (drop k chain) rest) \<and>
      sc_out (net t') @ bufs_bytes rest = sc_out (net t) @ bufs_bytes chain)"
proof (induction chain lim t rule: script_chain.induct)
  case (2 b bs lim t)
  define k where "k = min (sc_room (net t)) (length (buf_bytes b))"
  define u where "u = t\<lparr>net := (net t)\<lparr>sc_out := sc_out (net t) @ take k (buf_bytes b), sc_room := sc_room (net t) - k\<rparr>\<rparr>"
  have run: "(if k = length (buf_bytes b) then script_chain bs lim u else Ret (Some (b\<lparr>b_pos := b_pos b + k\<rparr> # bs)) u) = Ret r t'"
    using 2(2) by (simp only: script_chain.simps Let_def k_def u_def)
  have u: "smem u = smem t" "ss u = ss t" "sc_in (net u) = sc_in (net t)" "sc_out (net u) = sc_out (net t) @ take k (buf_bytes b)"
    by (simp_all add: u_def)
  show ?case
  proof (cases "k = length (buf_bytes b)")
    case True
    have "script_chain bs lim u = Ret r t'" using run True by simp
    from 2(1) [OF k_def u_def True this] 2(3) u True obtain rest j where
      "smem t' = smem t \<and> ss t' = ss t \<and> sc_in (net t') = sc_in (net t)" "r = Some rest" "j \<le> length bs"
      "list_all2 moved (drop j bs) rest" "sc_out (net t') @ bufs_bytes rest = (sc_out (net t) @ buf_bytes b) @ bufs_bytes bs"
      by auto
    then show ?thesis by (auto simp: bufs_bytes_def intro!: exI [of _ "Suc j"])
  next
    case False
    then have rt: "r = Some (b\<lparr>b_pos := b_pos b + k\<rparr> # bs)" "t' = u" using run by simp_all
    have k: "k \<le> length (buf_bytes b)" by (simp add: k_def)
    also have "\<dots> \<le> b_last b - b_pos b" by (simp add: buf_bytes_def)
    finally have "moved b (b\<lparr>b_pos := b_pos b + k\<rparr>)" using 2(3) by (auto simp: moved_def same_buf_def buf_ok_def)
    moreover have "list_all2 moved bs bs" using 2(3) by (auto simp: list_all2_same moved_refl)
    moreover have "sc_out (net u) @ bufs_bytes (b\<lparr>b_pos := b_pos b + k\<rparr> # bs) = sc_out (net t) @ bufs_bytes (b # bs)"
      using buf_bytes_part [OF k] u(4) by (simp add: bufs_bytes_def)
    ultimately show ?thesis using u rt by (auto intro!: exI [of _ "0 :: nat"])
  qed
qed (auto simp: bufs_bytes_def)

lemma script_plain_chain: "plain_chain script_chain script_in sc_out"
  unfolding plain_chain_def by (auto dest!: script_chain_post)

definition demo_update :: "link list \<Rightarrow> link list \<Rightarrow> link list \<times> nat" where
  "demo_update bs out = (let ls = dropWhile link_sent (bs @ out) in (ls, length (bs @ out) - length ls))"

definition rl_pscf :: proxy_srv_conf where
  "rl_pscf = \<lparr>connect_timeout = Some 60000, px_timeout = Some 600000, next_upstream_timeout = Some 0,
     buffer_size = Some 8, upload_rate = Some 0, download_rate = Some 0, responses = Some (2 ^ 31 - 1),
     next_upstream_tries = Some 0, next_upstream = Some True, px_local = Some None, noise_enable = Some False,
     px_noise = None, client_private_key_file = Some [], server_public_key_file = Some [], px_upstream = None,
     upstream_value = None\<rparr>"

definition rl_os :: "script px_os" where
  "rl_os = \<lparr>os_connect = (\<lambda>a w. (NGX_OK, Some (plain_connection 9), w)), os_setsockopt = (\<lambda>i w. (True, w)),
     os_so_error = (\<lambda>i w. 0), os_msec = (\<lambda>w. 0), os_time = (\<lambda>w. 0), os_parse_url = (\<lambda>u. None),
     os_parse_addr_port = (\<lambda>a. NGX_OK), os_complex_value = (\<lambda>v w. None), os_resolve = (\<lambda>h w. (NGX_ERROR, w))\<rparr>"

definition demo_rl_env :: "(script, demo_hs, nat) rl_env" where
  "demo_rl_env = \<lparr>re_px = \<lparr>pe_core = demo_env, pe_conf = rl_pscf, pe_os = rl_os, pe_fuel = 1, pe_upstreams = []\<rparr>,
     re_filter = top_filter (\<lambda>_. True) script_chain, re_update = demo_update, re_exiting = False\<rparr>"

definition rl_rr :: rr_state where
  "rl_rr = \<lparr>rr_primary = \<lparr>number = 0, total_weight = 0, single = False, weighted = False, rr_name = [], plist = []\<rparr>,
     rr_backup = None, rr_data = \<lparr>rrp_peers = Primary, rrp_current = None, rrp_tried = []\<rparr>,
     rr_pc = \<lparr>pc_peer = None, pc_name = [], pc_connected = False, pc_stream = True, pc_tries = 1\<rparr>\<rparr>"

text \<open>A client that has sent \<open>segs\<close>, and an upstream socket that takes \<open>room\<close> bytes.\<close>

definition demo_relay :: "byte list list \<Rightarrow> nat \<Rightarrow> (script, demo_hs, nat) px" where
  "demo_relay segs room = \<lparr>px_s = upd_io (\<lambda>t. t\<lparr>smem := (\<lambda>_. replicate 28 0),
       net := (script_world segs)\<lparr>sc_room := room\<rparr>\<rparr>) (demo_sess False), px_has_upstream = True,
     px_rr = rl_rr, px_pc = Some (plain_connection 9),
     px_pc_nodelay = NGX_TCP_NODELAY_UNSET, px_opened = 1, px_closed = 0, px_states = [], px_connected = True,
     px_received = 0, px_start_time = 0, px_local_addr = None, px_resolved = None,
     px_downstream_buf = Some \<lparr>cb_region = 1, cb_pos = 0, cb_last = 0, cb_end = 28\<rparr>,
     px_upstream_buf = Some \<lparr>cb_region = 2, cb_pos = 0, cb_last = 0, cb_end = 28\<rparr>, px_upstream_out = [],
     px_upstream_busy = [], px_downstream_out = [], px_downstream_busy = [], px_free = 0, px_start_sec = 0,
     px_responses = 0, px_saved = (\<lambda>_. 0)\<rparr>"


text \<open>More data from the client, and room at the upstream socket.\<close>

definition more_data :: "byte list list \<Rightarrow> nat \<Rightarrow> (script, demo_hs, nat) px \<Rightarrow> (script, demo_hs, nat) px" where
  "more_data segs room p = upd_conn False (upd_read (\<lambda>e. e\<lparr>ev_ready := True\<rparr>))
     (set_world ((px_world p)\<lparr>sc_in := segs, sc_room := room\<rparr>) p)"

lemmas relay_run_defs =
  demo_rl_env_def demo_relay_def demo_sess_def demo_env_def rl_pscf_def demo_update_def more_data_def
  script_nginx_def script_recv_def script_world_def plain_connection_def idle_event_def
  ngx_nsoc_proxy_process_def relay_read_def relay_write_def relay_end_def relay_events_def after_recv_def
  append_read_def note_read_def chain_get_free_def px_alloc_def add_received_def relay_recv_def conn_recv_def
  relay_src_def relay_dst_def relay_buf_def set_relay_buf_def reset_buf_def relay_busy_def relay_out_def
  set_chains_def upd_conn_def noise_recv_action_def relay_room_def rate_limit_def rate_of_def conf_value_def
  NGX_NSOC_LEN_FIELD_SIZE_def NOISE_PROTOCOL_MAC_DATA_SIZE_def mem_write_def
  top_filter_def sent_links_def filter_ctx_def load_link_def temp_buf_def link_sent_def
  ngx_nsoc_write_filter_def get_out_def set_out_def saved_def zero_buf_def ngx_buf_size_def add_buf_def
  empty_sum_def flush_chain_def ngx_buf_special_def set_buffered_def buf_bytes_def Let_def

section \<open>Properties\<close>

text \<open>
  C39: the relay preserves the stream. For a plain source and nginx's plain send chain, a call that
  finds nothing pending in its direction neither loses, repeats nor reorders a byte, however
  reads and writes are cut: what has gone out, what is pending in the chains and what is still
  to be read make up the same stream afterwards. Whatever else the call ends with, an error
  included, what has gone out is a prefix of the stream.
\<close>

theorem relay_preserves_stream:
  assumes "two_way (ce_nginx (pe_core (re_px env))) inp outp" and "plain_chain sc inp outp"
    and "re_filter env = top_filter alloc sc" and "update_contract (re_update env)"
    and "ngx_nsoc_proxy_process fuel env up do_write p = Ret f q"
    and "\<not> noise_recv_action up p" and "relay_src up p = Some src" and "c_recv src = Io_os"
    and "relay_busy up p = []" and "relay_out up p = []"
    and "relay_buf up p = Some b" and "length (smem (se_io (px_s p)) (cb_region b)) = cb_end b"
    and "20 \<le> cb_end b" and "cb_end b < 2 ^ 64"
  shows "prefix (outp (net (se_io (px_s q)))) (outp (net (se_io (px_s p))) @ inp (net (se_io (px_s p)))) \<and>
    (f = Done \<longrightarrow> outp (net (se_io (px_s q))) @ pending up q @ inp (net (se_io (px_s q)))
       = outp (net (se_io (px_s p))) @ inp (net (se_io (px_s p))))"
  by (rule relay_process_flow [where env = env and fuel = fuel and w = do_write and b = b])
    (use assms top_filter_contract [OF assms(2), of alloc] in \<open>simp_all add: NOISE_PROTOCOL_MAC_DATA_SIZE_def\<close>)

lemma demo_relay_done:
  "\<exists>q. ngx_nsoc_proxy_process 3 demo_rl_env False True (demo_relay [[65, 66]] 100) = Ret Done q \<and>
     sc_out (px_world q) = [65, 66] \<and> relay_links False q = []"
  by (simp add: numeral_3_eq_3 relay_run_defs)

lemma relay_preserves_stream_witness:
  "\<exists>q. ngx_nsoc_proxy_process 3 demo_rl_env False True (demo_relay [[65, 66]] 100) = Ret Done q \<and>
     sc_out (px_world q) @ pending False q @ script_in (px_world q) = [65, 66]"
proof -
  obtain q where q: "ngx_nsoc_proxy_process 3 demo_rl_env False True (demo_relay [[65, 66]] 100) = Ret Done q"
    using demo_relay_done by blast
  have "two_way (ce_nginx (pe_core (re_px demo_rl_env))) script_in sc_out"
    using script_two_way by (simp add: demo_rl_env_def demo_env_def)
  moreover have "re_filter demo_rl_env = top_filter (\<lambda>_. True) script_chain" "update_contract (re_update demo_rl_env)"
    by (simp_all add: demo_rl_env_def update_contract_def demo_update_def Let_def)
  moreover have "\<not> noise_recv_action False (demo_relay [[65, 66]] 100)"
    "relay_src False (demo_relay [[65, 66]] 100) = Some (plain_connection 1)" "c_recv (plain_connection 1) = Io_os"
    "relay_busy False (demo_relay [[65, 66]] 100) = []" "relay_out False (demo_relay [[65, 66]] 100) = []"
    "relay_buf False (demo_relay [[65, 66]] 100) = Some \<lparr>cb_region = 1, cb_pos = 0, cb_last = 0, cb_end = 28\<rparr>"
    "length (px_mem (demo_relay [[65, 66]] 100) 1) = 28"
    "px_world (demo_relay [[65, 66]] 100) = (script_world [[65, 66]])\<lparr>sc_room := 100\<rparr>"
    by (simp_all add: demo_relay_def demo_sess_def noise_recv_action_def relay_src_def relay_busy_def relay_out_def
        relay_buf_def plain_connection_def)
  ultimately have "sc_out (px_world q) @ pending False q @ script_in (px_world q) = [65, 66]"
    using relay_preserves_stream [where inp = script_in and outp = sc_out and sc = script_chain, OF _ script_plain_chain _ _ q]
    by (simp add: script_world_def)
  with q show ?thesis by blast
qed


end
