(* ===== verification/Nsoc_Variables.thy ===== *)
theory Nsoc_Variables
  imports Nsoc_Listen Nsoc_Proxy
begin

text \<open>
  Model of \<open>src/ngx_nsoc_variables.c\<close> and \<open>src/ngx_nsoc_variables.h\<close>: the table of variables the
  modules register while the configuration is read, the indices scripts refer to them by, and
  the evaluation of a variable in a session.

  A handler is a function pointer of the source; here it is a HOL function in the record of the
  variable, and \<open>None\<close> is the null pointer. It gets the address of a value, \<open>Slot i\<close> for
  \<open>&s->variables[i]\<close> and \<open>Val i\<close> for a value allocated by \<open>ngx_nsoc_get_variable\<close>, so that a handler
  that evaluates other variables, or its own, sees and changes the values the code would. The
  length of a value is not cut to the width of the bit field that nginx keeps it in.

  Allocation: \<open>s_pool\<close> and \<open>vc_pool\<close> hold the outcomes of the coming allocations; when the list is
  used up, every further allocation succeeds. Pushing to an array counts as one allocation. The functions of nginx the module calls (case
  folding, hash tables, regular expressions) are fields of the record \<open>var_lib\<close>.
\<close>

section \<open>Values and sessions\<close>

record vval =
  vv_len :: nat
  vv_valid :: bool
  vv_no_cacheable :: bool
  vv_not_found :: bool
  vv_data :: string

datatype vslot = Slot nat | Val nat

datatype vdata = Number nat | Name string

definition ngx_nsoc_variable :: "string \<Rightarrow> vval" where
  "ngx_nsoc_variable v = \<lparr>vv_len = length v, vv_valid = True, vv_no_cacheable = False, vv_not_found = False,
     vv_data = v\<rparr>"

definition ngx_nsoc_variable_null_value :: vval where
  "ngx_nsoc_variable_null_value = ngx_nsoc_variable []"

definition ngx_nsoc_variable_true_value :: vval where
  "ngx_nsoc_variable_true_value = ngx_nsoc_variable ''1''"

text \<open>What the handlers read and never change: the connection, the session, the cycle, the clock.\<close>

record venv =
  c_peer :: "ip \<times> nat"
  c_addr_text :: string
  c_pp_addr :: string
  c_pp_port :: nat
  c_local :: "(ip \<times> nat \<times> string) option"
  c_bytes_sent :: int
  c_number :: nat
  c_sock_type :: sock_type
  s_bytes_received :: int
  s_start :: "int \<times> nat"
  s_status :: nat
  s_states :: "upstream_state list"
  cy_hostname :: string
  cy_prefix :: string
  cy_conf_prefix :: string
  ngx_pid :: int
  ngx_timeofday :: "int \<times> nat"
  log_iso8601 :: string
  log_time :: string
  NGINX_VERSION :: string

text \<open>\<open>s_uninit\<close> is what a fresh, uninitialised value happens to contain.\<close>

record vsess =
  s_variables :: "vval list"
  s_values :: "vval list"
  s_uninit :: vval
  s_ncaptures :: nat
  s_captures :: "int list option"
  s_captures_data :: string
  s_pool :: "bool list"
  var_depth :: nat
  s_env :: venv

type_synonym handler = "vsess \<Rightarrow> vslot \<Rightarrow> vdata \<Rightarrow> (int, vsess) run"

fun pool_take :: "bool list \<Rightarrow> bool \<times> bool list" where
  "pool_take [] = (True, [])"
| "pool_take (b # bs) = (b, bs)"

definition s_alloc :: "vsess \<Rightarrow> bool \<times> vsess" where
  "s_alloc s = (fst (pool_take (s_pool s)), s\<lparr>s_pool := snd (pool_take (s_pool s))\<rparr>)"

fun slot_ok :: "vsess \<Rightarrow> vslot \<Rightarrow> bool" where
  "slot_ok s (Slot i) \<longleftrightarrow> i < length (s_variables s)"
| "slot_ok s (Val i) \<longleftrightarrow> i < length (s_values s)"

fun get_slot :: "vsess \<Rightarrow> vslot \<Rightarrow> vval" where
  "get_slot s (Slot i) = s_variables s ! i"
| "get_slot s (Val i) = s_values s ! i"

fun upd_slot :: "vslot \<Rightarrow> (vval \<Rightarrow> vval) \<Rightarrow> vsess \<Rightarrow> vsess" where
  "upd_slot (Slot i) f s = s\<lparr>s_variables := (s_variables s)[i := f (s_variables s ! i)]\<rparr>"
| "upd_slot (Val i) f s = s\<lparr>s_values := (s_values s)[i := f (s_values s ! i)]\<rparr>"

section \<open>Variables and their table\<close>

abbreviation NGX_NSOC_VAR_CHANGEABLE :: "64 word" where "NGX_NSOC_VAR_CHANGEABLE \<equiv> 1"
abbreviation NGX_NSOC_VAR_NOCACHEABLE :: "64 word" where "NGX_NSOC_VAR_NOCACHEABLE \<equiv> 2"
abbreviation NGX_NSOC_VAR_INDEXED :: "64 word" where "NGX_NSOC_VAR_INDEXED \<equiv> 4"
abbreviation NGX_NSOC_VAR_NOHASH :: "64 word" where "NGX_NSOC_VAR_NOHASH \<equiv> 8"
abbreviation NGX_NSOC_VAR_WEAK :: "64 word" where "NGX_NSOC_VAR_WEAK \<equiv> 16"
abbreviation NGX_NSOC_VAR_PREFIX :: "64 word" where "NGX_NSOC_VAR_PREFIX \<equiv> 32"

definition flag :: "64 word \<Rightarrow> 64 word \<Rightarrow> bool" where
  "flag fs f \<longleftrightarrow> fs AND f \<noteq> 0"

record variable =
  v_name :: string
  v_get :: "handler option"
  v_data :: vdata
  v_flags :: "64 word"
  v_index :: nat

text \<open>
  The part of \<open>ngx_nsoc_core_main_conf_t\<close> for variables. A key of \<open>variables_keys\<close> and the variable
  it points to form a pair; the pointer is null before \<open>ngx_nsoc_variables_add_core_vars\<close> and after
  \<open>ngx_nsoc_variables_init_vars\<close>. \<open>variables_hash\<close> are the pairs \<open>ngx_hash_init\<close> was given.
\<close>

record vconf =
  variables :: "variable list"
  prefix_variables :: "variable list"
  variables_keys :: "(string \<times> variable) list option"
  variables_hash :: "(string \<times> variable) list"
  vc_ncaptures :: nat
  vc_pool :: "bool list"

datatype var_ref = Key nat | Prefix nat

text \<open>
  nginx: \<open>ngx_tolower\<close> on characters, from which \<open>ngx_strlow\<close> and \<open>ngx_strncasecmp\<close> are made; the
  answer of \<open>ngx_hash_add_key\<close> without flags for the keys there are and a new one; whether \<open>ngx_hash_init\<close> succeeds;
  \<open>ngx_hash_find\<close>, the position of the key found among the keys the table was built from.
\<close>

datatype hash_added = Hash_ok | Hash_busy | Hash_error

record var_lib =
  ngx_tolower :: "char \<Rightarrow> char"
  ngx_hash_add_key :: "string list \<Rightarrow> string \<Rightarrow> hash_added"
  ngx_hash_init :: "string list \<Rightarrow> int"
  ngx_hash_find :: "string list \<Rightarrow> nat \<Rightarrow> string \<Rightarrow> nat option"

definition ngx_strlow :: "var_lib \<Rightarrow> string \<Rightarrow> string" where
  "ngx_strlow L s = map (ngx_tolower L) s"

text \<open>\<open>a->len == b->len && ngx_strncasecmp(a->data, b->data, a->len) == 0\<close>\<close>

definition same_name :: "var_lib \<Rightarrow> string \<Rightarrow> string \<Rightarrow> bool" where
  "same_name L a b \<longleftrightarrow> length a = length b \<and> ngx_strlow L a = ngx_strlow L b"

fun find_at :: "('a \<Rightarrow> bool) \<Rightarrow> nat \<Rightarrow> 'a list \<Rightarrow> nat option" where
  "find_at P i [] = None"
| "find_at P i (x # xs) = (if P x then Some i else find_at P (Suc i) xs)"

definition vc_alloc :: "vconf \<Rightarrow> bool \<times> vconf" where
  "vc_alloc c = (fst (pool_take (vc_pool c)), c\<lparr>vc_pool := snd (pool_take (vc_pool c))\<rparr>)"

definition new_variable :: "string \<Rightarrow> 64 word \<Rightarrow> nat \<Rightarrow> variable" where
  "new_variable n fs i = \<lparr>v_name = n, v_get = None, v_data = Number 0, v_flags = fs, v_index = i\<rparr>"

definition weaken :: "64 word \<Rightarrow> variable \<Rightarrow> variable" where
  "weaken fs v = v\<lparr>v_flags := v_flags v AND (fs OR NOT NGX_NSOC_VAR_WEAK)\<rparr>"

text \<open>
  An element that was pushed and whose name could not be allocated stays in the array; the
  configuration is refused then, and what the element holds is never read.
\<close>

definition ngx_nsoc_add_prefix_variable ::
  "var_lib \<Rightarrow> vconf \<Rightarrow> string \<Rightarrow> 64 word \<Rightarrow> (var_ref option, vconf) run" where
  "ngx_nsoc_add_prefix_variable L c name fs =
     (case find_at (\<lambda>v. same_name L name (v_name v)) 0 (prefix_variables c) of
        Some i \<Rightarrow>
          (if \<not> flag (v_flags (prefix_variables c ! i)) NGX_NSOC_VAR_CHANGEABLE then Ret None c
           else Ret (Some (Prefix i))
                  (c\<lparr>prefix_variables := (prefix_variables c)[i := weaken fs (prefix_variables c ! i)]\<rparr>))
      | None \<Rightarrow>
          (let (pushed, c1) = vc_alloc c;
               (named, c2) = vc_alloc c1;
               c3 = c2\<lparr>prefix_variables := prefix_variables c2 @ [new_variable (ngx_strlow L name) fs 0]\<rparr>
           in if \<not> pushed then Ret None c1
              else if \<not> named then Ret None c3
              else Ret (Some (Prefix (length (prefix_variables c)))) c3))"

definition ngx_nsoc_add_variable ::
  "var_lib \<Rightarrow> vconf \<Rightarrow> string \<Rightarrow> 64 word \<Rightarrow> (var_ref option, vconf) run" where
  "ngx_nsoc_add_variable L c name fs =
     (if name = [] then Ret None c
      else if flag fs NGX_NSOC_VAR_PREFIX then ngx_nsoc_add_prefix_variable L c name fs
      else case variables_keys c of
        None \<Rightarrow> Crash Null_deref
      | Some ks \<Rightarrow>
          (case find_at (\<lambda>k. same_name L name (fst k)) 0 ks of
             Some i \<Rightarrow>
               (if \<not> flag (v_flags (snd (ks ! i))) NGX_NSOC_VAR_CHANGEABLE then Ret None c
                else Ret (Some (Key i)) (c\<lparr>variables_keys := Some (ks[i := (fst (ks ! i), weaken fs (snd (ks ! i)))])\<rparr>))
           | None \<Rightarrow>
               (let (made, c1) = vc_alloc c;
                    (named, c2) = vc_alloc c1;
                    low = ngx_strlow L name
                in if \<not> made then Ret None c1
                   else if \<not> named then Ret None c2
                   else case ngx_hash_add_key L (map fst ks) low of
                     Hash_error \<Rightarrow> Ret None c2
                   | Hash_busy \<Rightarrow> Ret None c2
                   | Hash_ok \<Rightarrow> Ret (Some (Key (length ks)))
                       (c2\<lparr>variables_keys := Some (ks @ [(low, new_variable low fs 0)])\<rparr>))))"

definition ngx_nsoc_get_variable_index :: "var_lib \<Rightarrow> vconf \<Rightarrow> string \<Rightarrow> int \<times> vconf" where
  "ngx_nsoc_get_variable_index L c name =
     (if name = [] then (NGX_ERROR, c)
      else case find_at (\<lambda>v. same_name L name (v_name v)) 0 (variables c) of
        Some i \<Rightarrow> (int i, c)
      | None \<Rightarrow>
          (let (inited, c0) = (if variables c = [] then vc_alloc c else (True, c));
               (pushed, c1) = vc_alloc c0;
               (named, c2) = vc_alloc c1;
               c3 = c2\<lparr>variables := variables c2 @ [new_variable (ngx_strlow L name) 0 (length (variables c2))]\<rparr>
           in if \<not> inited then (NGX_ERROR, c0)
              else if \<not> pushed then (NGX_ERROR, c1)
              else if \<not> named then (NGX_ERROR, c3)
              else (int (length (variables c)), c3)))"

section \<open>Evaluation\<close>

text \<open>\<open>ngx_nsoc_variable_depth\<close> is the field \<open>var_depth\<close>; a null pointer result is \<open>None\<close>.\<close>

definition call_handler :: "handler option \<Rightarrow> vsess \<Rightarrow> vslot \<Rightarrow> vdata \<Rightarrow> (int, vsess) run" where
  "call_handler h s v d = (case h of None \<Rightarrow> Crash Null_deref | Some f \<Rightarrow> f s v d)"

definition deeper :: "vsess \<Rightarrow> vsess" where
  "deeper s = s\<lparr>var_depth := var_depth s - 1\<rparr>"

definition shallower :: "vsess \<Rightarrow> vsess" where
  "shallower s = s\<lparr>var_depth := var_depth s + 1\<rparr>"

definition ngx_nsoc_get_indexed_variable :: "vconf \<Rightarrow> vsess \<Rightarrow> nat \<Rightarrow> (vslot option, vsess) run" where
  "ngx_nsoc_get_indexed_variable c s index =
     (if length (variables c) \<le> index then Ret None s
      else if length (s_variables s) \<le> index then Crash Out_of_bounds
      else if vv_not_found (s_variables s ! index) \<or> vv_valid (s_variables s ! index) then Ret (Some (Slot index)) s
      else if var_depth s = 0 then Ret None s
      else let v = variables c ! index
        in bind_run (call_handler (v_get v) (deeper s) (Slot index) (v_data v)) (\<lambda>rc s1.
             let s2 = shallower s1
             in if rc = NGX_OK
                then Ret (Some (Slot index))
                  (if flag (v_flags v) NGX_NSOC_VAR_NOCACHEABLE
                   then upd_slot (Slot index) (\<lambda>x. x\<lparr>vv_no_cacheable := True\<rparr>) s2 else s2)
                else Ret None (upd_slot (Slot index) (\<lambda>x. x\<lparr>vv_valid := False, vv_not_found := True\<rparr>) s2)))"

definition uncache :: "vval \<Rightarrow> vval" where
  "uncache v = v\<lparr>vv_valid := False, vv_not_found := False\<rparr>"

definition ngx_nsoc_get_flushed_variable :: "vconf \<Rightarrow> vsess \<Rightarrow> nat \<Rightarrow> (vslot option, vsess) run" where
  "ngx_nsoc_get_flushed_variable c s index =
     (if length (s_variables s) \<le> index then Crash Out_of_bounds
      else let v = s_variables s ! index
        in if vv_valid v \<or> vv_not_found v
           then if \<not> vv_no_cacheable v then Ret (Some (Slot index)) s
                else ngx_nsoc_get_indexed_variable c (upd_slot (Slot index) uncache s) index
           else ngx_nsoc_get_indexed_variable c s index)"

text \<open>
  The choice among the prefix variables. The length compared with the best one so far is that of
  the name looked up, and not that of the candidate.
\<close>

definition has_prefix :: "string \<Rightarrow> string \<Rightarrow> bool" where
  "has_prefix p name \<longleftrightarrow> length p \<le> length name \<and> take (length p) name = p"

fun pick_prefix :: "string \<Rightarrow> nat \<Rightarrow> nat option \<Rightarrow> nat \<Rightarrow> variable list \<Rightarrow> nat option" where
  "pick_prefix name len n i [] = n"
| "pick_prefix name len n i (v # vs) =
     (if len < length name \<and> has_prefix (v_name v) name
      then pick_prefix name (length (v_name v)) (Some i) (Suc i) vs
      else pick_prefix name len n (Suc i) vs)"

definition new_value :: "vsess \<Rightarrow> vslot option \<times> vsess" where
  "new_value s = (let (ok, s1) = s_alloc s
     in if ok then (Some (Val (length (s_values s))), s1\<lparr>s_values := s_values s1 @ [s_uninit s1]\<rparr>) else (None, s1))"

definition ngx_nsoc_get_variable :: "var_lib \<Rightarrow> vconf \<Rightarrow> vsess \<Rightarrow> string \<Rightarrow> nat \<Rightarrow> (vslot option, vsess) run" where
  "ngx_nsoc_get_variable L c s name key =
     (case ngx_hash_find L (map fst (variables_hash c)) key name of
        Some j \<Rightarrow>
          (let v = snd (variables_hash c ! j)
           in if flag (v_flags v) NGX_NSOC_VAR_INDEXED then ngx_nsoc_get_flushed_variable c s (v_index v)
              else if var_depth s = 0 then Ret None s
              else case new_value (deeper s) of
                (None, s1) \<Rightarrow> Ret None (shallower s1)
              | (Some vv, s1) \<Rightarrow>
                  bind_run (call_handler (v_get v) s1 vv (v_data v)) (\<lambda>rc s2.
                    Ret (if rc = NGX_OK then Some vv else None) (shallower s2)))
      | None \<Rightarrow>
          (case new_value s of
             (None, s1) \<Rightarrow> Ret None s1
           | (Some vv, s1) \<Rightarrow>
               (case pick_prefix name 0 None 0 (prefix_variables c) of
                  Some n \<Rightarrow> bind_run (call_handler (v_get (prefix_variables c ! n)) s1 vv (Name name)) (\<lambda>rc s2.
                    Ret (if rc = NGX_OK then Some vv else None) s2)
                | None \<Rightarrow> Ret (Some vv) (upd_slot vv (\<lambda>x. x\<lparr>vv_not_found := True\<rparr>) s1))))"

section \<open>The handlers of the core variables\<close>

text \<open>Decimal numbers as \<open>ngx_sprintf\<close> prints them for \<open>%ui\<close>, \<open>%O\<close>, \<open>%T\<close>, \<open>%uA\<close>, \<open>%P\<close> and with \<open>%03\<close>.\<close>

definition digit :: "nat \<Rightarrow> char" where
  "digit d = char_of (48 + d mod 10)"

fun print_uint :: "nat \<Rightarrow> string" where
  "print_uint n = (if n < 10 then [digit n] else print_uint (n div 10) @ [digit n])"

declare print_uint.simps [simp del]

definition print_int :: "int \<Rightarrow> string" where
  "print_int i = (if i < 0 then CHR ''-'' # print_uint (nat (- i)) else print_uint (nat i))"

definition pad3 :: "string \<Rightarrow> string" where
  "pad3 t = replicate (3 - length t) (CHR ''0'') @ t"

text \<open>The format \<open>%T.%03M\<close>.\<close>

definition print_time :: "int \<Rightarrow> nat \<Rightarrow> string" where
  "print_time sec msec = print_int sec @ CHR ''.'' # pad3 (print_uint msec)"

abbreviation NGX_OFF_T_LEN :: nat where "NGX_OFF_T_LEN \<equiv> 20"
abbreviation NGX_TIME_T_LEN :: nat where "NGX_TIME_T_LEN \<equiv> 20"
abbreviation NGX_INT_T_LEN :: nat where "NGX_INT_T_LEN \<equiv> 20"
abbreviation NGX_ATOMIC_T_LEN :: nat where "NGX_ATOMIC_T_LEN \<equiv> 20"
abbreviation NGX_INT64_LEN :: nat where "NGX_INT64_LEN \<equiv> 20"

definition fill :: "string \<Rightarrow> vval \<Rightarrow> vval" where
  "fill t v = v\<lparr>vv_len := length t, vv_valid := True, vv_no_cacheable := False, vv_not_found := False, vv_data := t\<rparr>"

text \<open>The four assignments that open a handler which may still fail: the length zero and the flags.\<close>

definition blank :: "vval \<Rightarrow> vval" where
  "blank v = v\<lparr>vv_len := 0, vv_valid := True, vv_no_cacheable := False, vv_not_found := False\<rparr>"

text \<open>A value that points into memory which exists already.\<close>

definition answer :: "string \<Rightarrow> vsess \<Rightarrow> vslot \<Rightarrow> (int, vsess) run" where
  "answer t s v = Ret NGX_OK (upd_slot v (fill t) s)"

text \<open>A value that is allocated with \<open>cap\<close> bytes and printed to; a longer text runs over the end.\<close>

definition print_answer :: "nat \<Rightarrow> string \<Rightarrow> vsess \<Rightarrow> vslot \<Rightarrow> (int, vsess) run" where
  "print_answer cap t s v =
     (let (ok, s1) = s_alloc s
      in if \<not> ok then Ret NGX_ERROR s1
         else if cap < length t then Crash Out_of_bounds
         else answer t s1 v)"

fun addr_bytes :: "ip \<Rightarrow> string" where
  "addr_bytes (Inet a) = map (\<lambda>i. char_of (unat (drop_bit (8 * i) a))) [3, 2, 1, 0]"
| "addr_bytes (Inet6 a) = map (\<lambda>i. char_of (unat (drop_bit (8 * i) a))) (rev [0..<16])"

definition ngx_nsoc_variable_binary_remote_addr :: handler where
  "ngx_nsoc_variable_binary_remote_addr s v data = answer (addr_bytes (fst (c_peer (s_env s)))) s v"

definition ngx_nsoc_variable_remote_addr :: handler where
  "ngx_nsoc_variable_remote_addr s v data = answer (c_addr_text (s_env s)) s v"

definition port_text :: "nat \<Rightarrow> string" where
  "port_text port = (if 0 < port \<and> port < 65536 then print_uint port else [])"

definition print_port :: "nat \<Rightarrow> vsess \<Rightarrow> vslot \<Rightarrow> (int, vsess) run" where
  "print_port port s v = print_answer 5 (port_text port) (upd_slot v blank s) v"

definition ngx_nsoc_variable_remote_port :: handler where
  "ngx_nsoc_variable_remote_port s v data = print_port (snd (c_peer (s_env s))) s v"

definition ngx_nsoc_variable_proxy_protocol_addr :: handler where
  "ngx_nsoc_variable_proxy_protocol_addr s v data = answer (c_pp_addr (s_env s)) s v"

definition ngx_nsoc_variable_proxy_protocol_port :: handler where
  "ngx_nsoc_variable_proxy_protocol_port s v data = print_port (c_pp_port (s_env s)) s v"

definition ngx_nsoc_variable_server_addr :: handler where
  "ngx_nsoc_variable_server_addr s v data =
     (case c_local (s_env s) of
        None \<Rightarrow> Ret NGX_ERROR s
      | Some (a, p, t) \<Rightarrow> print_answer (length t) t s v)"

definition ngx_nsoc_variable_server_port :: handler where
  "ngx_nsoc_variable_server_port s v data =
     (case c_local (s_env s) of
        None \<Rightarrow> Ret NGX_ERROR (upd_slot v blank s)
      | Some (a, p, t) \<Rightarrow> print_port p s v)"

definition ngx_nsoc_variable_bytes :: handler where
  "ngx_nsoc_variable_bytes s v data =
     print_answer NGX_OFF_T_LEN
       (print_int (if data = Number 1 then s_bytes_received (s_env s) else c_bytes_sent (s_env s))) s v"

text \<open>
  The difference is computed with unsigned numbers of 64 bits and read as a signed one
  (\<open>ngx_msec_int_t\<close>).
\<close>

definition session_ms :: "venv \<Rightarrow> int" where
  "session_ms e = signed_take_bit 63
     ((fst (ngx_timeofday e) - fst (s_start e)) * 1000 + (int (snd (ngx_timeofday e)) - int (snd (s_start e))))"

definition ms_text :: "int \<Rightarrow> string" where
  "ms_text ms = print_time (max ms 0 div 1000) (nat (max ms 0 mod 1000))"

definition ngx_nsoc_variable_session_time :: handler where
  "ngx_nsoc_variable_session_time s v data =
     print_answer (NGX_TIME_T_LEN + 4) (ms_text (session_ms (s_env s))) s v"

definition ngx_nsoc_variable_status :: handler where
  "ngx_nsoc_variable_status s v data = print_answer NGX_INT_T_LEN (pad3 (print_uint (s_status (s_env s)))) s v"

definition ngx_nsoc_variable_connection :: handler where
  "ngx_nsoc_variable_connection s v data = print_answer NGX_ATOMIC_T_LEN (print_uint (c_number (s_env s))) s v"

definition ngx_nsoc_variable_nginx_version :: handler where
  "ngx_nsoc_variable_nginx_version s v data = answer (NGINX_VERSION (s_env s)) s v"

definition ngx_nsoc_variable_hostname :: handler where
  "ngx_nsoc_variable_hostname s v data = answer (cy_hostname (s_env s)) s v"

definition ngx_nsoc_variable_pid :: handler where
  "ngx_nsoc_variable_pid s v data = print_answer NGX_INT64_LEN (print_int (ngx_pid (s_env s))) s v"

definition ngx_nsoc_variable_msec :: handler where
  "ngx_nsoc_variable_msec s v data =
     print_answer (NGX_TIME_T_LEN + 4)
       (print_time (fst (ngx_timeofday (s_env s))) (snd (ngx_timeofday (s_env s)))) s v"

definition ngx_nsoc_variable_time_iso8601 :: handler where
  "ngx_nsoc_variable_time_iso8601 s v data =
     print_answer (length (log_iso8601 (s_env s))) (log_iso8601 (s_env s)) s v"

definition ngx_nsoc_variable_time_local :: handler where
  "ngx_nsoc_variable_time_local s v data = print_answer (length (log_time (s_env s))) (log_time (s_env s)) s v"

definition ngx_nsoc_variable_protocol :: handler where
  "ngx_nsoc_variable_protocol s v data =
     answer (if c_sock_type (s_env s) = SOCK_DGRAM then ''UDP'' else ''TCP'') s v"

definition core_variable :: "string \<Rightarrow> handler \<Rightarrow> nat \<Rightarrow> 64 word \<Rightarrow> variable" where
  "core_variable n h d fs = \<lparr>v_name = n, v_get = Some h, v_data = Number d, v_flags = fs, v_index = 0\<rparr>"

definition ngx_nsoc_core_variables :: "variable list" where
  "ngx_nsoc_core_variables =
    [core_variable ''binary_remote_addr'' ngx_nsoc_variable_binary_remote_addr 0 0,
     core_variable ''remote_addr'' ngx_nsoc_variable_remote_addr 0 0,
     core_variable ''remote_port'' ngx_nsoc_variable_remote_port 0 0,
     core_variable ''proxy_protocol_addr'' ngx_nsoc_variable_proxy_protocol_addr 0 0,
     core_variable ''proxy_protocol_port'' ngx_nsoc_variable_proxy_protocol_port 0 0,
     core_variable ''server_addr'' ngx_nsoc_variable_server_addr 0 0,
     core_variable ''server_port'' ngx_nsoc_variable_server_port 0 0,
     core_variable ''bytes_sent'' ngx_nsoc_variable_bytes 0 0,
     core_variable ''bytes_received'' ngx_nsoc_variable_bytes 1 0,
     core_variable ''session_time'' ngx_nsoc_variable_session_time 0 NGX_NSOC_VAR_NOCACHEABLE,
     core_variable ''status'' ngx_nsoc_variable_status 0 NGX_NSOC_VAR_NOCACHEABLE,
     core_variable ''connection'' ngx_nsoc_variable_connection 0 0,
     core_variable ''nginx_version'' ngx_nsoc_variable_nginx_version 0 0,
     core_variable ''hostname'' ngx_nsoc_variable_hostname 0 0,
     core_variable ''pid'' ngx_nsoc_variable_pid 0 0,
     core_variable ''msec'' ngx_nsoc_variable_msec 0 NGX_NSOC_VAR_NOCACHEABLE,
     core_variable ''time_iso8601'' ngx_nsoc_variable_time_iso8601 0 NGX_NSOC_VAR_NOCACHEABLE,
     core_variable ''time_local'' ngx_nsoc_variable_time_local 0 NGX_NSOC_VAR_NOCACHEABLE,
     core_variable ''protocol'' ngx_nsoc_variable_protocol 0 0]"

section \<open>Set-up of the table\<close>

definition set_ref :: "var_ref \<Rightarrow> (variable \<Rightarrow> variable) \<Rightarrow> vconf \<Rightarrow> vconf" where
  "set_ref r f c = (case r of
      Key i \<Rightarrow> c\<lparr>variables_keys := map_option (\<lambda>ks. ks[i := (fst (ks ! i), f (snd (ks ! i)))]) (variables_keys c)\<rparr>
    | Prefix i \<Rightarrow> c\<lparr>prefix_variables := (prefix_variables c)[i := f (prefix_variables c ! i)]\<rparr>)"

text \<open>The loop over a table of variables; \<open>g\<close> is what is copied from the entry to the new variable.\<close>

fun add_table ::
  "var_lib \<Rightarrow> (variable \<Rightarrow> variable \<Rightarrow> variable) \<Rightarrow> variable list \<Rightarrow> vconf \<Rightarrow> (int, vconf) run" where
  "add_table L g [] c = Ret NGX_OK c"
| "add_table L g (cv # cvs) c =
     bind_run (ngx_nsoc_add_variable L c (v_name cv) (v_flags cv)) (\<lambda>r c1.
       case r of None \<Rightarrow> Ret NGX_ERROR c1 | Some ref \<Rightarrow> add_table L g cvs (set_ref ref (g cv) c1))"

definition ngx_nsoc_variables_add_core_vars :: "var_lib \<Rightarrow> vconf \<Rightarrow> (int, vconf) run" where
  "ngx_nsoc_variables_add_core_vars L c =
     (let (made, c1) = vc_alloc c;
          (keys, c2) = vc_alloc c1;
          (prefixes, c3) = vc_alloc c2
      in if \<not> made then Ret NGX_ERROR (c1\<lparr>variables_keys := None\<rparr>)
         else if \<not> keys then Ret NGX_ERROR (c2\<lparr>variables_keys := Some []\<rparr>)
         else if \<not> prefixes then Ret NGX_ERROR (c3\<lparr>variables_keys := Some []\<rparr>)
         else add_table L (\<lambda>cv v. cv) ngx_nsoc_core_variables (c3\<lparr>variables_keys := Some [], prefix_variables := []\<rparr>))"

text \<open>
  The handlers of the indexed variables. The first key with the name of the variable is linked
  with it; if it has no handler or is weak, a prefix variable may take its place.
\<close>

definition link_key :: "nat \<Rightarrow> variable \<Rightarrow> variable" where
  "link_key i av = av\<lparr>v_flags := v_flags av OR NGX_NSOC_VAR_INDEXED, v_index := i\<rparr>"

definition take_handler :: "variable \<Rightarrow> variable \<Rightarrow> variable" where
  "take_handler av v = v\<lparr>v_get := v_get av, v_data := v_data av, v_flags := v_flags av\<rparr>"

definition link_prefix :: "variable list \<Rightarrow> variable \<Rightarrow> variable option" where
  "link_prefix pvs v =
     (case pick_prefix (v_name v) 0 None 0 pvs of
        Some n \<Rightarrow> Some (v\<lparr>v_get := v_get (pvs ! n), v_data := Name (v_name v), v_flags := v_flags (pvs ! n)\<rparr>)
      | None \<Rightarrow> (case v_get v of None \<Rightarrow> None | Some h \<Rightarrow> Some v))"

definition link_variable ::
  "variable list \<Rightarrow> nat \<Rightarrow> variable \<Rightarrow> (string \<times> variable) list \<Rightarrow> (variable \<times> (string \<times> variable) list) option" where
  "link_variable pvs i v ks =
     (case find_at (\<lambda>k. fst k = v_name v) 0 ks of
        Some n \<Rightarrow>
          (let av = link_key i (snd (ks ! n)); v1 = take_handler av v; ks1 = ks[n := (fst (ks ! n), av)]
           in if v_get av = None \<or> flag (v_flags av) NGX_NSOC_VAR_WEAK
              then map_option (\<lambda>v2. (v2, ks1)) (link_prefix pvs v1)
              else Some (v1, ks1))
      | None \<Rightarrow> map_option (\<lambda>v2. (v2, ks)) (link_prefix pvs v))"

fun link_variables ::
  "variable list \<Rightarrow> nat \<Rightarrow> variable list \<Rightarrow> (string \<times> variable) list
    \<Rightarrow> (variable list \<times> (string \<times> variable) list) option" where
  "link_variables pvs i [] ks = Some ([], ks)"
| "link_variables pvs i (v # vs) ks =
     (case link_variable pvs i v ks of
        None \<Rightarrow> None
      | Some (v1, ks1) \<Rightarrow> map_option (\<lambda>(vs1, ks2). (v1 # vs1, ks2)) (link_variables pvs (Suc i) vs ks1))"

text \<open>
  A refused configuration is given up, and the state it leaves is the one before. Keys of
  variables with \<open>NGX_NSOC_VAR_NOHASH\<close> get a null pointer for the name, which \<open>ngx_hash_init\<close> skips.
\<close>

definition ngx_nsoc_variables_init_vars :: "var_lib \<Rightarrow> vconf \<Rightarrow> (int, vconf) run" where
  "ngx_nsoc_variables_init_vars L c =
     (case variables_keys c of
        None \<Rightarrow> Crash Null_deref
      | Some ks \<Rightarrow>
          (case link_variables (prefix_variables c) 0 (variables c) ks of
             None \<Rightarrow> Ret NGX_ERROR c
           | Some (vs, ks1) \<Rightarrow>
               (let hashed = filter (\<lambda>k. \<not> flag (v_flags (snd k)) NGX_NSOC_VAR_NOHASH) ks1
                in if ngx_hash_init L (map fst hashed) \<noteq> NGX_OK then Ret NGX_ERROR c
                   else Ret NGX_OK (c\<lparr>variables := vs, variables_keys := None, variables_hash := hashed\<rparr>))))"

section \<open>Regular expressions and maps\<close>

text \<open>
  \<open>rc_names\<close> is the name table of a compiled expression: two bytes with the number of the group
  and its name. A regular expression of the library is a function from the subject and the
  size of the vector to the return code and the contents of the vector.
\<close>

record regex_compiled =
  rc_exec :: "string \<Rightarrow> int list \<Rightarrow> int \<times> int list"
  rc_captures :: nat
  rc_names :: "(byte \<times> byte \<times> string) list"

record nsoc_regex =
  re_exec :: "string \<Rightarrow> int list \<Rightarrow> int \<times> int list"
  re_ncaptures :: nat
  re_variables :: "(nat \<times> nat) list"

abbreviation NGX_REGEX_NO_MATCHED :: int where "NGX_REGEX_NO_MATCHED \<equiv> - 1"

definition ngx_nsoc_variable_not_found :: handler where
  "ngx_nsoc_variable_not_found s v data = Ret NGX_OK (upd_slot v (\<lambda>x. x\<lparr>vv_not_found := True\<rparr>) s)"

fun regex_names ::
  "var_lib \<Rightarrow> (byte \<times> byte \<times> string) list \<Rightarrow> vconf \<Rightarrow> ((nat \<times> nat) list option, vconf) run" where
  "regex_names L [] c = Ret (Some []) c"
| "regex_names L ((p0, p1, name) # ns) c =
     bind_run (ngx_nsoc_add_variable L c name NGX_NSOC_VAR_CHANGEABLE) (\<lambda>r c1.
       case r of None \<Rightarrow> Ret None c1 | Some ref \<Rightarrow>
         (let (index, c2) = ngx_nsoc_get_variable_index L c1 name
          in if index = NGX_ERROR then Ret None c2
             else bind_run (regex_names L ns (set_ref ref (\<lambda>v. v\<lparr>v_get := Some ngx_nsoc_variable_not_found\<rparr>) c2))
               (\<lambda>rest c3. Ret (map_option ((#) (2 * rd16 p0 p1, nat index)) rest) c3)))"

text \<open>The argument is the outcome of \<open>ngx_regex_compile\<close>.\<close>

definition ngx_nsoc_regex_compile ::
  "var_lib \<Rightarrow> regex_compiled option \<Rightarrow> vconf \<Rightarrow> (nsoc_regex option, vconf) run" where
  "ngx_nsoc_regex_compile L rc c =
     (case rc of None \<Rightarrow> Ret None c | Some rc \<Rightarrow>
       (let (made, c1) = vc_alloc c;
            re = \<lparr>re_exec = rc_exec rc, re_ncaptures = rc_captures rc, re_variables = []\<rparr>;
            c2 = c1\<lparr>vc_ncaptures := max (vc_ncaptures c1) (rc_captures rc)\<rparr>;
            (rv, c3) = vc_alloc c2
        in if \<not> made then Ret None c1
           else if rc_names rc = [] then Ret (Some re) c2
           else if \<not> rv then Ret None c3
           else bind_run (regex_names L (rc_names rc) c3) (\<lambda>vs c4.
             Ret (map_option (\<lambda>vs. re\<lparr>re_variables := vs\<rparr>) vs) c4)))"

definition capture_vector :: "vsess \<Rightarrow> int list" where
  "capture_vector s = (case s_captures s of None \<Rightarrow> [] | Some cap \<Rightarrow> cap)"

fun set_captures :: "int list \<Rightarrow> string \<Rightarrow> (nat \<times> nat) list \<Rightarrow> vsess \<Rightarrow> (unit, vsess) run" where
  "set_captures cap str [] s = Ret () s"
| "set_captures cap str ((n, index) # vs) s =
     (if length cap \<le> n + 1 \<or> length (s_variables s) \<le> index then Crash Out_of_bounds
      else set_captures cap str vs (upd_slot (Slot index) (fill
             (take (nat (cap ! (n + 1) - cap ! n)) (drop (nat (cap ! n)) str))) s))"

definition ngx_nsoc_regex_exec :: "vconf \<Rightarrow> vsess \<Rightarrow> nsoc_regex \<Rightarrow> string \<Rightarrow> (int, vsess) run" where
  "ngx_nsoc_regex_exec c s re str =
     (let need = re_ncaptures re \<noteq> 0 \<and> s_captures s = None;
          (ok, s0) = (if need then s_alloc s else (True, s));
          s1 = (if need then s0\<lparr>s_captures := Some (replicate (vc_ncaptures c) 0)\<rparr> else s0);
          vec = (if re_ncaptures re \<noteq> 0 then capture_vector s1 else []);
          (rc, cap) = re_exec re str vec;
          s2 = (if re_ncaptures re \<noteq> 0 then s1\<lparr>s_captures := Some cap\<rparr> else s1)
      in if \<not> ok then Ret NGX_ERROR s0
         else if rc = NGX_REGEX_NO_MATCHED then Ret NGX_DECLINED s2
         else if rc < 0 then Ret NGX_ERROR s2
         else bind_run (set_captures (capture_vector s2) str (re_variables re) s2) (\<lambda>_ s3.
           Ret NGX_OK (s3\<lparr>s_ncaptures := nat (rc * 2), s_captures_data := str\<rparr>)))"

text \<open>\<open>map_hash\<close> is \<open>ngx_hash_find_combined\<close> on the table of the map, for a name in lower case.\<close>

record 'v nsoc_map =
  map_hash :: "string \<Rightarrow> 'v option"
  map_regex :: "(nsoc_regex \<times> 'v) list"

fun map_find_regex :: "vconf \<Rightarrow> vsess \<Rightarrow> (nsoc_regex \<times> 'v) list \<Rightarrow> string \<Rightarrow> ('v option, vsess) run" where
  "map_find_regex c s [] match = Ret None s"
| "map_find_regex c s ((re, value) # regs) match =
     bind_run (ngx_nsoc_regex_exec c s re match) (\<lambda>n s1.
       if n = NGX_OK then Ret (Some value) s1
       else if n = NGX_DECLINED then map_find_regex c s1 regs match
       else Ret None s1)"

definition ngx_nsoc_map_find ::
  "var_lib \<Rightarrow> vconf \<Rightarrow> vsess \<Rightarrow> 'v nsoc_map \<Rightarrow> string \<Rightarrow> ('v option, vsess) run" where
  "ngx_nsoc_map_find L c s mp match =
     (let (ok, s1) = (if match = [] then (True, s) else s_alloc s)
      in if \<not> ok then Ret None s1
         else case map_hash mp (ngx_strlow L match) of
           Some value \<Rightarrow> Ret (Some value) s1
         | None \<Rightarrow> if match = [] then Ret None s1 else map_find_regex c s1 (map_regex mp) match)"

end
