(* ===== verification/Nsoc_Var_Laws.thy ===== *)
theory Nsoc_Var_Laws
  imports Nsoc_Variables
begin

text \<open>
  Laws of the variables of \<open>Nsoc_Variables\<close>: the handlers stay inside what they allocate and change
  nothing but their value (the locale \<open>leaf_handlers\<close>, interpreted on the core handlers), the
  evaluation of a variable of a sound session returns, indices are stable while the configuration
  is read, and a configuration that was accepted has a handler for every index.
\<close>

section \<open>Well-formed values\<close>

text \<open>
  A value is settled when the code will not evaluate it again: it is marked as not found, or it
  is valid and its length is that of its data.
\<close>

definition settled :: "vval \<Rightarrow> bool" where
  "settled x \<longleftrightarrow> vv_not_found x \<or> vv_valid x \<and> vv_len x = length (vv_data x)"

definition i64 :: "int \<Rightarrow> bool" where
  "i64 i \<longleftrightarrow> - (2 ^ 63) \<le> i \<and> i < 2 ^ 63"

text \<open>The ranges of the C types of what the handlers print; \<open>msec\<close> of the clock is below 1000.\<close>

definition venv_ok :: "venv \<Rightarrow> bool" where
  "venv_ok e \<longleftrightarrow> i64 (c_bytes_sent e) \<and> i64 (s_bytes_received e) \<and> i64 (ngx_pid e) \<and> c_number e < 2 ^ 64
     \<and> s_status e < 2 ^ 64 \<and> i64 (fst (ngx_timeofday e)) \<and> snd (ngx_timeofday e) < 1000
     \<and> (\<forall>st \<in> set (s_states e). i64 (ust_bytes_sent st) \<and> i64 (ust_bytes_received st))"

definition leaf_run :: "vsess \<Rightarrow> vslot \<Rightarrow> (int, vsess) run \<Rightarrow> bool" where
  "leaf_run s v r \<longleftrightarrow> (\<exists>rc f pool. r = Ret rc (upd_slot v f (s\<lparr>s_pool := pool\<rparr>))
     \<and> (rc = NGX_OK \<longrightarrow> settled (f (get_slot s v))))"

text \<open>
  A leaf handler returns, changes nothing but the value it was given and the pool, and leaves a
  settled value when it reports success.
\<close>

definition leaf_handler :: "handler \<Rightarrow> bool" where
  "leaf_handler h \<longleftrightarrow> (\<forall>s v d. venv_ok (s_env s) \<longrightarrow> slot_ok s v \<longrightarrow> leaf_run s v (h s v d))"

lemma upd_slot_simps [simp]:
  "s_env (upd_slot v f s) = s_env s" "s_pool (upd_slot v f s) = s_pool s" "var_depth (upd_slot v f s) = var_depth s"
  "s_ncaptures (upd_slot v f s) = s_ncaptures s" "s_captures (upd_slot v f s) = s_captures s"
  "s_captures_data (upd_slot v f s) = s_captures_data s" "s_uninit (upd_slot v f s) = s_uninit s"
  "slot_ok (upd_slot v f s) w = slot_ok s w" "upd_slot v f s\<lparr>s_pool := p\<rparr> = upd_slot v f (s\<lparr>s_pool := p\<rparr>)"
  "length (s_variables (upd_slot v f s)) = length (s_variables s)"
  by (cases v; cases w; simp)+

lemma upd_slot_twice [simp]:
  "slot_ok s v \<Longrightarrow> upd_slot v g (upd_slot v f s) = upd_slot v (g \<circ> f) s"
  by (cases v) (simp_all add: comp_def)

lemma get_upd_slot [simp]: "slot_ok s v \<Longrightarrow> get_slot (upd_slot v f s) v = f (get_slot s v)"
  by (cases v) simp_all

lemma slot_ok_pool [simp]: "slot_ok (s\<lparr>s_pool := p\<rparr>) v = slot_ok s v"
  by (cases v) simp_all

lemma get_slot_pool [simp]: "get_slot (s\<lparr>s_pool := p\<rparr>) v = get_slot s v"
  by (cases v) simp_all

lemma settled_fill [simp]: "settled (fill t x)"
  by (simp add: settled_def fill_def)

lemma leaf_answer: "slot_ok s v \<Longrightarrow> leaf_run s v (answer t (s\<lparr>s_pool := p\<rparr>) v)"
  unfolding leaf_run_def answer_def by (intro exI [of _ NGX_OK] exI [of _ "fill t"] exI [of _ p]) simp

lemma leaf_answer_here: "slot_ok s v \<Longrightarrow> leaf_run s v (answer t s v)"
  using leaf_answer [of s v t "s_pool s"] by simp

lemma leaf_print_answer:
  assumes "slot_ok s v" and "length t \<le> cap"
  shows "leaf_run s v (print_answer cap t s v)"
proof -
  obtain ok p where sa: "s_alloc s = (ok, s\<lparr>s_pool := p\<rparr>)" by (simp add: s_alloc_def)
  show ?thesis
  proof (cases ok)
    case True
    then show ?thesis using leaf_answer [OF assms(1)] assms(2) sa by (simp add: print_answer_def)
  next
    case False
    have "s\<lparr>s_pool := p\<rparr> = upd_slot v id (s\<lparr>s_pool := p\<rparr>)" by (cases v) simp_all
    then show ?thesis using False sa unfolding leaf_run_def print_answer_def
      by (intro exI [of _ NGX_ERROR] exI [of _ id] exI [of _ p]) simp
  qed
qed

text \<open>Preparing the value before the rest of the handler does not matter.\<close>

lemma leaf_run_prepared:
  assumes "slot_ok s v" and "leaf_run (upd_slot v g s) v r"
  shows "leaf_run s v r"
proof -
  obtain rc f pool where "r = Ret rc (upd_slot v f (upd_slot v g s\<lparr>s_pool := pool\<rparr>))"
    "rc = NGX_OK \<longrightarrow> settled (f (g (get_slot s v)))"
    using assms by (auto simp: leaf_run_def)
  then show ?thesis using assms(1) unfolding leaf_run_def
    by (intro exI [of _ rc] exI [of _ "f \<circ> g"] exI [of _ pool]) simp
qed

section \<open>The width of printed numbers\<close>

lemma length_print_uint: "n < 10 ^ k \<Longrightarrow> length (print_uint n) \<le> max 1 k"
proof (induction k arbitrary: n)
  case (Suc k)
  show ?case
  proof (cases "n < 10")
    case False
    then have "length (print_uint (n div 10)) \<le> max 1 k" using Suc.IH [of "n div 10"] Suc.prems by (simp add: div_less_iff_less_mult mult.commute)
    moreover have "k \<noteq> 0" using False Suc.prems by (cases k) simp_all
    ultimately show ?thesis using False by (simp add: print_uint.simps [of n])
  qed (simp add: print_uint.simps)
qed (simp add: print_uint.simps)

lemma length_print_int: "i64 i \<Longrightarrow> length (print_int i) \<le> 20"
proof -
  assume "i64 i"
  then have "nat (- i) < 10 ^ 19" "nat i < 10 ^ 19" by (simp_all add: i64_def) arith+
  then show ?thesis using length_print_uint [of "nat (- i)" 19] length_print_uint [of "nat i" 19]
    by (simp add: print_int_def)
qed

lemma length_pad3: "length (pad3 t) = max 3 (length t)"
  by (simp add: pad3_def)

lemma length_print_time: "i64 sec \<Longrightarrow> msec < 1000 \<Longrightarrow> length (print_time sec msec) \<le> 24"
  using length_print_int [of sec] length_print_uint [of msec 3] by (simp add: print_time_def length_pad3)

lemma length_ms_text: "i64 ms \<Longrightarrow> length (ms_text ms) \<le> 24"
proof -
  assume "i64 ms"
  then have "i64 (max ms 0 div 1000)" by (auto simp: i64_def max_def)
  moreover have "nat (max ms 0 mod 1000) < 1000" by simp
  ultimately show ?thesis unfolding ms_text_def by (rule length_print_time)
qed

lemma i64_signed: "i64 (signed_take_bit 63 i)"
  unfolding i64_def
  by (rule conjI) (use signed_take_bit_int_greater_eq_minus_exp [of 63 i] signed_take_bit_int_less_exp [of 63 i] in simp_all)

lemma i64_session_ms: "i64 (session_ms e)"
  unfolding session_ms_def by (rule i64_signed)

lemma length_port_text: "length (port_text p) \<le> 5"
  using length_print_uint [of p 5] by (simp add: port_text_def)

section \<open>The core handlers are leaf handlers\<close>

lemma leaf_print_port: "slot_ok s v \<Longrightarrow> leaf_run s v (print_port port s v)"
  unfolding print_port_def
  by (rule leaf_run_prepared, assumption, rule leaf_print_answer) (simp_all add: length_port_text)

lemma leaf_error: "leaf_run s v (Ret NGX_ERROR (upd_slot v f s))"
  unfolding leaf_run_def by (intro exI [of _ NGX_ERROR] exI [of _ f] exI [of _ "s_pool s"]) simp

lemma leaf_error_untouched: "leaf_run s v (Ret NGX_ERROR s)"
  using leaf_error [of s v id] by (cases v) simp_all

lemmas leaf_intros = leaf_print_answer leaf_print_port leaf_error leaf_error_untouched leaf_answer_here

lemmas print_bounds = length_print_int length_print_time length_ms_text length_pad3 i64_session_ms

lemma leaf_not_found: "leaf_run s v (Ret NGX_OK (upd_slot v (\<lambda>x. x\<lparr>vv_not_found := True\<rparr>) s))"
  unfolding leaf_run_def
  by (intro exI [of _ NGX_OK] exI [of _ "\<lambda>x. x\<lparr>vv_not_found := True\<rparr>"] exI [of _ "s_pool s"]) (simp add: settled_def)

lemma length_status: "n < 2 ^ 64 \<Longrightarrow> length (pad3 (print_uint n)) \<le> 20"
  using length_print_uint [of n 20] by (simp add: length_pad3)

lemma length_number: "n < 2 ^ 64 \<Longrightarrow> length (print_uint n) \<le> 20"
  using length_print_uint [of n 20] by simp

lemmas handler_defs =
  ngx_nsoc_variable_binary_remote_addr_def
  ngx_nsoc_variable_remote_addr_def
  ngx_nsoc_variable_remote_port_def
  ngx_nsoc_variable_proxy_protocol_addr_def
  ngx_nsoc_variable_proxy_protocol_port_def
  ngx_nsoc_variable_server_addr_def
  ngx_nsoc_variable_server_port_def
  ngx_nsoc_variable_bytes_def
  ngx_nsoc_variable_session_time_def
  ngx_nsoc_variable_status_def
  ngx_nsoc_variable_connection_def
  ngx_nsoc_variable_nginx_version_def
  ngx_nsoc_variable_hostname_def
  ngx_nsoc_variable_pid_def
  ngx_nsoc_variable_msec_def
  ngx_nsoc_variable_time_iso8601_def
  ngx_nsoc_variable_time_local_def
  ngx_nsoc_variable_protocol_def
  ngx_nsoc_variable_not_found_def

lemma leaf_handlers [simp]:
  "leaf_handler ngx_nsoc_variable_binary_remote_addr"
  "leaf_handler ngx_nsoc_variable_remote_addr"
  "leaf_handler ngx_nsoc_variable_remote_port"
  "leaf_handler ngx_nsoc_variable_proxy_protocol_addr"
  "leaf_handler ngx_nsoc_variable_proxy_protocol_port"
  "leaf_handler ngx_nsoc_variable_server_addr"
  "leaf_handler ngx_nsoc_variable_server_port"
  "leaf_handler ngx_nsoc_variable_bytes"
  "leaf_handler ngx_nsoc_variable_session_time"
  "leaf_handler ngx_nsoc_variable_status"
  "leaf_handler ngx_nsoc_variable_connection"
  "leaf_handler ngx_nsoc_variable_nginx_version"
  "leaf_handler ngx_nsoc_variable_hostname"
  "leaf_handler ngx_nsoc_variable_pid"
  "leaf_handler ngx_nsoc_variable_msec"
  "leaf_handler ngx_nsoc_variable_time_iso8601"
  "leaf_handler ngx_nsoc_variable_time_local"
  "leaf_handler ngx_nsoc_variable_protocol"
  "leaf_handler ngx_nsoc_variable_not_found"
  by (simp_all add: leaf_handler_def venv_ok_def handler_defs leaf_intros leaf_not_found length_status length_number
        print_bounds split: option.split prod.split)

lemma core_handler_leaf:
  "v \<in> set ngx_nsoc_core_variables \<Longrightarrow> \<exists>h. v_get v = Some h \<and> leaf_handler h"
  by (auto simp: ngx_nsoc_core_variables_def core_variable_def)

section \<open>Sets of leaf handlers\<close>

text \<open>
  What the evaluation of a variable relies on: the handlers of the table belong to a set of leaf
  handlers. A session is sound for a table when it has a value for every variable, and every
  value that is marked as valid has the length of its data.
\<close>

definition value_ok :: "vval \<Rightarrow> bool" where
  "value_ok x \<longleftrightarrow> (vv_valid x \<longrightarrow> settled x)"

definition sound_session :: "vconf \<Rightarrow> vsess \<Rightarrow> bool" where
  "sound_session c s \<longleftrightarrow> venv_ok (s_env s) \<and> length (s_variables s) = length (variables c)
     \<and> (\<forall>x \<in> set (s_variables s). value_ok x)"

definition handled_by :: "handler set \<Rightarrow> vconf \<Rightarrow> bool" where
  "handled_by hs c \<longleftrightarrow> (\<forall>v \<in> set (variables c). \<exists>h \<in> hs. v_get v = Some h)"

text \<open>
  A variable is resolved when asking for it again changes nothing, and \<open>seen\<close> is what a script
  gets then.
\<close>

definition resolved :: "vsess \<Rightarrow> nat \<Rightarrow> bool" where
  "resolved s i \<longleftrightarrow> vv_not_found (s_variables s ! i) \<or> vv_valid (s_variables s ! i) \<or> var_depth s = 0"

definition seen :: "vsess \<Rightarrow> nat \<Rightarrow> string" where
  "seen s i = (let x = s_variables s ! i in if vv_not_found x \<or> \<not> vv_valid x then [] else vv_data x)"

definition shown :: "vslot option \<Rightarrow> vsess \<Rightarrow> string" where
  "shown r s = (case r of None \<Rightarrow> [] | Some v \<Rightarrow> if vv_not_found (get_slot s v) then [] else vv_data (get_slot s v))"

text \<open>\<open>evaluated i s s'\<close>: the step from \<open>s\<close> to \<open>s'\<close> resolves the variable \<open>i\<close> and touches no other.\<close>

definition evaluated :: "nat \<Rightarrow> vsess \<Rightarrow> vsess \<Rightarrow> bool" where
  "evaluated i s s' \<longleftrightarrow> (\<exists>x pool. s' = s\<lparr>s_variables := (s_variables s)[i := x], s_pool := pool\<rparr> \<and> value_ok x)
     \<and> resolved s' i \<and> (resolved s i \<longrightarrow> s' = s)"

lemma value_ok_simps [simp]:
  "value_ok (x\<lparr>vv_no_cacheable := b\<rparr>) = value_ok x"
  "value_ok (x\<lparr>vv_valid := False, vv_not_found := True\<rparr>)" "value_ok (uncache x)"
  by (simp_all add: value_ok_def settled_def uncache_def)

lemma sound_sessionD: "sound_session c s \<Longrightarrow> i < length (variables c) \<Longrightarrow> value_ok (s_variables s ! i)"
  by (simp add: sound_session_def)

lemma evaluated_sound:
  assumes "evaluated i s s'" and "sound_session c s"
  shows "sound_session c s'"
proof -
  obtain x pool where s': "s' = s\<lparr>s_variables := (s_variables s)[i := x], s_pool := pool\<rparr>" and "value_ok x"
    using assms(1) by (auto simp: evaluated_def)
  moreover have "set ((s_variables s)[i := x]) \<subseteq> insert x (set (s_variables s))" by (rule set_update_subset_insert)
  ultimately show ?thesis using assms(2) by (auto simp: sound_session_def)
qed

lemma evaluated_keeps:
  assumes "evaluated i s s'" and "resolved s j"
  shows "resolved s' j" and "seen s' j = seen s j"
proof -
  have "resolved s' j \<and> seen s' j = seen s j"
  proof (cases "i = j")
    case True
    then show ?thesis using assms by (simp add: evaluated_def)
  next
    case False
    then show ?thesis using assms by (auto simp: evaluated_def resolved_def seen_def)
  qed
  then show "resolved s' j" and "seen s' j = seen s j" by simp_all
qed

lemma evaluated_frame:
  assumes "evaluated i s s'"
  shows "s_env s' = s_env s" "s_ncaptures s' = s_ncaptures s" "s_captures s' = s_captures s"
    "s_captures_data s' = s_captures_data s" "var_depth s' = var_depth s"
  using assms by (auto simp: evaluated_def)

lemma leaf_run_Slot:
  assumes "leaf_run s (Slot i) r"
  shows "\<exists>rc x pool. r = Ret rc (s\<lparr>s_variables := (s_variables s)[i := x], s_pool := pool\<rparr>)
    \<and> (rc = NGX_OK \<longrightarrow> settled x)"
proof -
  obtain rc f pool where "r = Ret rc (upd_slot (Slot i) f (s\<lparr>s_pool := pool\<rparr>))" "rc = NGX_OK \<longrightarrow> settled (f (s_variables s ! i))"
    using assms by (auto simp: leaf_run_def)
  then show ?thesis by (intro exI [of _ rc] exI [of _ "f (s_variables s ! i)"] exI [of _ pool]) simp
qed

lemma shallower_deeper:
  "s_variables (deeper s) = s_variables s"
  "var_depth s \<noteq> 0 \<Longrightarrow> shallower (deeper s\<lparr>s_variables := a, s_pool := p\<rparr>) = s\<lparr>s_variables := a, s_pool := p\<rparr>"
  by (simp_all add: deeper_def shallower_def)

lemma evaluated_refl:
  assumes "resolved s i" and "value_ok (s_variables s ! i)"
  shows "evaluated i s s"
proof -
  have "s = s\<lparr>s_variables := (s_variables s)[i := s_variables s ! i], s_pool := s_pool s\<rparr>" by simp
  then show ?thesis unfolding evaluated_def using assms by blast
qed

locale leaf_handlers =
  fixes hs :: "handler set"
  assumes leaf: "h \<in> hs \<Longrightarrow> leaf_handler h"
begin

text \<open>Asking for a variable of a sound session returns, evaluates it and shows its value.\<close>

lemma get_indexed_evaluates:
  assumes "handled_by hs c" and "sound_session c s" and "i < length (variables c)"
  shows "\<exists>r s'. ngx_nsoc_get_indexed_variable c s i = Ret r s' \<and> evaluated i s s' \<and> shown r s' = seen s' i
    \<and> (\<forall>v. r = Some v \<longrightarrow> v = Slot i \<and> settled (get_slot s' v))"
proof -
  let ?x = "s_variables s ! i" and ?v = "variables c ! i"
  have i: "i < length (s_variables s)" and ok: "value_ok ?x" and env: "venv_ok (s_env (deeper s))"
    using assms(2,3) by (simp_all add: sound_session_def deeper_def)
  consider "vv_not_found ?x \<or> vv_valid ?x" | "\<not> (vv_not_found ?x \<or> vv_valid ?x)" "var_depth s = 0"
    | "\<not> (vv_not_found ?x \<or> vv_valid ?x)" "var_depth s \<noteq> 0" by blast
  then show ?thesis
  proof cases
    case 1
    then have "evaluated i s s" using ok by (intro evaluated_refl) (auto simp: resolved_def)
    then show ?thesis using 1 i ok assms(3)
      by (auto simp: ngx_nsoc_get_indexed_variable_def shown_def seen_def value_ok_def settled_def Let_def)
  next
    case 2
    then have "evaluated i s s" using ok by (intro evaluated_refl) (auto simp: resolved_def)
    then show ?thesis using 2 i assms(3)
      by (auto simp: ngx_nsoc_get_indexed_variable_def shown_def seen_def Let_def)
  next
    case 3
    obtain h where h: "v_get ?v = Some h" "leaf_handler h"
      using assms(1,3) leaf by (force simp: handled_by_def)
    have "slot_ok (deeper s) (Slot i)" using i by (simp add: deeper_def)
    then have "leaf_run (deeper s) (Slot i) (h (deeper s) (Slot i) (v_data ?v))"
      using h(2) env by (simp add: leaf_handler_def)
    then obtain rc x pool where r: "h (deeper s) (Slot i) (v_data ?v)
        = Ret rc (deeper s\<lparr>s_variables := (s_variables (deeper s))[i := x], s_pool := pool\<rparr>)"
      and x: "rc = NGX_OK \<longrightarrow> settled x" using leaf_run_Slot by blast
    define y where "y = (if rc \<noteq> NGX_OK then x\<lparr>vv_valid := False, vv_not_found := True\<rparr>
      else if flag (v_flags ?v) NGX_NSOC_VAR_NOCACHEABLE then x\<lparr>vv_no_cacheable := True\<rparr> else x)"
    have run: "ngx_nsoc_get_indexed_variable c s i = Ret (if rc = NGX_OK then Some (Slot i) else None)
        (s\<lparr>s_variables := (s_variables s)[i := y], s_pool := pool\<rparr>)"
      using 3 i assms(3)
      by (simp add: ngx_nsoc_get_indexed_variable_def Let_def call_handler_def h(1) r y_def shallower_deeper)
    have y: "settled y" "rc \<noteq> NGX_OK \<longrightarrow> vv_not_found y" using x by (auto simp: y_def settled_def)
    then have "evaluated i s (s\<lparr>s_variables := (s_variables s)[i := y], s_pool := pool\<rparr>)"
      using 3 i by (auto simp: evaluated_def resolved_def value_ok_def settled_def)
    then show ?thesis using run y i
      by (auto simp: shown_def seen_def Let_def settled_def)
  qed
qed

end

text \<open>The handlers of the core variables, and the one of the named captures of a regular expression.\<close>

definition core_handlers :: "handler set" where
  "core_handlers = {h. \<exists>v \<in> set ngx_nsoc_core_variables. v_get v = Some h} \<union> {ngx_nsoc_variable_not_found}"

interpretation core: leaf_handlers core_handlers
  by unfold_locales (use core_handler_leaf in \<open>force simp: core_handlers_def\<close>)

section \<open>Indices\<close>

text \<open>The index of a name, and the case folding of nginx: folding twice is folding once.\<close>

definition index_of :: "var_lib \<Rightarrow> vconf \<Rightarrow> string \<Rightarrow> nat option" where
  "index_of L c name = find_at (\<lambda>v. same_name L name (v_name v)) 0 (variables c)"

definition fold_contract :: "var_lib \<Rightarrow> bool" where
  "fold_contract L \<longleftrightarrow> (\<forall>ch. ngx_tolower L (ngx_tolower L ch) = ngx_tolower L ch)"

definition names_extend :: "vconf \<Rightarrow> vconf \<Rightarrow> bool" where
  "names_extend c c' \<longleftrightarrow> (\<exists>more. map v_name (variables c') = map v_name (variables c) @ more)"

lemma find_at_map: "find_at P i (map f xs) = find_at (P \<circ> f) i xs"
  by (induction xs arbitrary: i) simp_all

lemma find_at_append:
  "find_at P i (xs @ ys) = (case find_at P i xs of Some k \<Rightarrow> Some k | None \<Rightarrow> find_at P (i + length xs) ys)"
  by (induction xs arbitrary: i) (simp_all split: option.split)

lemma find_at_SomeD: "find_at P i xs = Some k \<Longrightarrow> i \<le> k \<and> k < i + length xs \<and> P (xs ! (k - i))"
  by (induction xs arbitrary: i) (fastforce split: if_splits simp: nth_Cons' not_le less_Suc_eq_le)+

lemma find_at_unique: "find_at P i xs = Some k \<Longrightarrow> i \<le> j \<Longrightarrow> j < k \<Longrightarrow> \<not> P (xs ! (j - i))"
proof (induction xs arbitrary: i)
  case (Cons x xs)
  then show ?case by (cases "j = i") (auto split: if_splits simp: nth_Cons')
qed simp

lemma index_of_names: "index_of L c name = find_at (same_name L name) 0 (map v_name (variables c))"
  by (simp add: index_of_def find_at_map comp_def)

lemma index_of_less: "index_of L c name = Some i \<Longrightarrow> i < length (variables c)"
  using find_at_SomeD unfolding index_of_def by fastforce

lemma index_of_extend: "names_extend c c' \<Longrightarrow> index_of L c name = Some i \<Longrightarrow> index_of L c' name = Some i"
  by (auto simp: names_extend_def index_of_names find_at_append)

lemma names_extend_refl [simp]: "names_extend c c"
  by (simp add: names_extend_def)

lemma names_extend_trans: "names_extend a b \<Longrightarrow> names_extend b c \<Longrightarrow> names_extend a c"
  by (auto simp: names_extend_def)

lemma vc_alloc_simps [simp]:
  "variables (snd (vc_alloc c)) = variables c" "prefix_variables (snd (vc_alloc c)) = prefix_variables c"
  "variables_keys (snd (vc_alloc c)) = variables_keys c"
  by (simp_all add: vc_alloc_def)

lemma vc_alloc_eq [simp]: "vc_alloc c = (fst (pool_take (vc_pool c)), c\<lparr>vc_pool := snd (pool_take (vc_pool c))\<rparr>)"
  by (simp add: vc_alloc_def)

lemma same_name_low: "fold_contract L \<Longrightarrow> same_name L name (ngx_strlow L name)"
  by (simp add: same_name_def ngx_strlow_def fold_contract_def comp_def)

text \<open>Reading a name changes the table only by appending variables without a handler.\<close>

definition grown :: "vconf \<Rightarrow> vconf \<Rightarrow> bool" where
  "grown c c' \<longleftrightarrow> (\<exists>more p. c' = c\<lparr>variables := variables c @ more, vc_pool := p\<rparr> \<and> (\<forall>v \<in> set more. v_get v = None))"

lemma grown_pool [simp]: "grown c (c\<lparr>vc_pool := p\<rparr>)"
  unfolding grown_def by (intro exI [of _ "[]"] exI [of _ p]) simp

lemma grown_refl [simp]: "grown c c"
  using grown_pool [of c "vc_pool c"] by simp

lemma grown_push [simp]: "v_get v = None \<Longrightarrow> grown c (c\<lparr>vc_pool := p, variables := variables c @ [v]\<rparr>)"
  unfolding grown_def by (intro exI [of _ "[v]"] exI [of _ p]) simp

lemma grown_first [simp]: "variables c = [] \<Longrightarrow> v_get v = None \<Longrightarrow> grown c (c\<lparr>vc_pool := p, variables := [v]\<rparr>)"
  using grown_push [of v c p] by simp

lemma grown_trans: "grown a b \<Longrightarrow> grown b c \<Longrightarrow> grown a c"
  unfolding grown_def by clarsimp (metis Un_iff append.assoc set_append)

lemma grown_extends: "grown c c' \<Longrightarrow> names_extend c c'"
  by (auto simp: grown_def names_extend_def)

lemma get_variable_index_grown: "grown c (snd (ngx_nsoc_get_variable_index L c name))"
  by (simp add: ngx_nsoc_get_variable_index_def Let_def new_variable_def split: option.split)

lemma get_variable_index_ok:
  assumes "ngx_nsoc_get_variable_index L c name = (i, c')" and "i \<noteq> NGX_ERROR" and "fold_contract L"
  shows "index_of L c' name = Some (nat i)" and "0 \<le> i"
  using assms(1,2) same_name_low [OF assms(3)]
  by (auto simp: ngx_nsoc_get_variable_index_def index_of_def find_at_append Let_def new_variable_def
      split: if_splits option.splits)

section \<open>From the tables of the modules to the handlers of a session\<close>

text \<open>
  While the configuration is read, every handler in the table is missing or belongs to \<open>hs\<close>, and
  prefix variables have one.
\<close>

definition table_in :: "handler set \<Rightarrow> vconf \<Rightarrow> bool" where
  "table_in hs c \<longleftrightarrow> (\<forall>v \<in> set (variables c). set_option (v_get v) \<subseteq> hs)
     \<and> (\<forall>v \<in> set (prefix_variables c). \<exists>h \<in> hs. v_get v = Some h)
     \<and> (\<forall>ks. variables_keys c = Some ks \<longrightarrow> (\<forall>k \<in> set ks. set_option (v_get (snd k)) \<subseteq> hs))"

lemma table_in_pool [simp]: "table_in hs (c\<lparr>vc_pool := p\<rparr>) = table_in hs c"
  by (simp add: table_in_def)

lemma table_in_grown: "table_in hs c \<Longrightarrow> grown c c' \<Longrightarrow> table_in hs c'"
  by (fastforce simp: table_in_def grown_def)

lemma keys_update:
  assumes "\<forall>k \<in> set ks. P (snd k)" and "i < length ks \<Longrightarrow> P v"
  shows "\<forall>k \<in> set (ks[i := (n, v)]). P (snd k)"
proof (cases "i < length ks")
  case True
  then show ?thesis using assms set_update_subset_insert [of ks i "(n, v)"] by auto
qed (use assms(1) in \<open>simp add: list_update_beyond\<close>)

lemma add_variable_table:
  assumes "ngx_nsoc_add_variable L c name fs = Ret r c'" and "table_in hs c" and "\<not> flag fs NGX_NSOC_VAR_PREFIX"
  shows "table_in hs c' \<and> variables c' = variables c \<and> (\<forall>ref. r = Some ref \<longrightarrow> (\<exists>i. ref = Key i))"
proof (cases "variables_keys c")
  case None
  then show ?thesis using assms by (auto simp: ngx_nsoc_add_variable_def split: if_splits)
next
  case (Some ks)
  then have ks: "\<forall>k \<in> set ks. set_option (v_get (snd k)) \<subseteq> hs" using assms(2) by (auto simp: table_in_def)
  have new: "table_in hs (c\<lparr>vc_pool := p, variables_keys := Some (ks @ [(n, new_variable n fs 0)])\<rparr>)" for p n
    using assms(2) ks by (auto simp: table_in_def new_variable_def)
  have old: "table_in hs (c\<lparr>variables_keys := Some (ks[i := (fst (ks ! i), weaken fs (snd (ks ! i)))])\<rparr>)" for i
    using assms(2) keys_update [OF ks, of i "weaken fs (snd (ks ! i))"] ks
    by (auto simp: table_in_def weaken_def)
  show ?thesis
  proof (cases "find_at (\<lambda>k. same_name L name (fst k)) 0 ks")
    case (Some i)
    then show ?thesis using assms \<open>variables_keys c = Some ks\<close> old [of i]
      by (auto simp: ngx_nsoc_add_variable_def split: if_splits)
  next
    case None
    then show ?thesis using assms \<open>variables_keys c = Some ks\<close> new
      by (auto simp: ngx_nsoc_add_variable_def Let_def split: if_splits hash_added.splits)
  qed
qed

lemma set_ref_table:
  assumes "table_in hs c" and "\<And>v. set_option (v_get v) \<subseteq> hs \<Longrightarrow> set_option (v_get (f v)) \<subseteq> hs"
  shows "table_in hs (set_ref (Key i) f c)" and "variables (set_ref (Key i) f c) = variables c"
proof -
  have "\<forall>k \<in> set (ks[i := (fst (ks ! i), f (snd (ks ! i)))]). set_option (v_get (snd k)) \<subseteq> hs"
    if "variables_keys c = Some ks" for ks
    using assms that by (intro keys_update) (auto simp: table_in_def)
  then show "table_in hs (set_ref (Key i) f c)" using assms(1) by (auto simp: table_in_def set_ref_def)
qed (simp add: set_ref_def)

lemma add_table_in:
  assumes "add_table L g cvs c = Ret rc c'" and "table_in hs c"
    and "\<forall>cv \<in> set cvs. \<not> flag (v_flags cv) NGX_NSOC_VAR_PREFIX
      \<and> (\<forall>v. set_option (v_get v) \<subseteq> hs \<longrightarrow> set_option (v_get (g cv v)) \<subseteq> hs)"
  shows "table_in hs c' \<and> variables c' = variables c"
  using assms
proof (induction cvs arbitrary: c)
  case (Cons cv cvs)
  obtain r c1 where r: "ngx_nsoc_add_variable L c (v_name cv) (v_flags cv) = Ret r c1"
    using Cons.prems(1) by (auto simp: bind_run_Ret_iff)
  have c1: "table_in hs c1" "variables c1 = variables c" "\<forall>ref. r = Some ref \<longrightarrow> (\<exists>i. ref = Key i)"
    using add_variable_table [OF r Cons.prems(2)] Cons.prems(3) by simp_all
  show ?case
  proof (cases r)
    case None
    then show ?thesis using r c1 Cons.prems(1) by simp
  next
    case (Some ref)
    then obtain i where ref: "r = Some (Key i)" using c1(3) by blast
    have "table_in hs (set_ref (Key i) (g cv) c1)" and "variables (set_ref (Key i) (g cv) c1) = variables c"
      using set_ref_table [OF c1(1)] c1(2) Cons.prems(3) by simp_all
    then show ?thesis using Cons.IH [of "set_ref (Key i) (g cv) c1"] Cons.prems(1,3) r ref by simp
  qed
qed simp

lemma pick_prefix_less: "pick_prefix name len n i vs = Some k \<Longrightarrow> n = Some k \<or> i \<le> k \<and> k < i + length vs"
proof (induction vs arbitrary: len n i)
  case (Cons v vs)
  then show ?case by (cases "len < length name \<and> has_prefix (v_name v) name") (fastforce dest!: Cons.IH)+
qed simp

lemma link_prefix_ok:
  assumes "link_prefix pvs v = Some v'" and "\<forall>p \<in> set pvs. \<exists>h \<in> hs. v_get p = Some h" and "set_option (v_get v) \<subseteq> hs"
  shows "(\<exists>h \<in> hs. v_get v' = Some h) \<and> v_name v' = v_name v"
proof (cases "pick_prefix (v_name v) 0 None 0 pvs")
  case None
  then show ?thesis using assms(1,3) by (auto simp: link_prefix_def split: option.splits)
next
  case (Some k)
  then have "k < length pvs" using pick_prefix_less [OF Some] by simp
  then have "\<exists>h \<in> hs. v_get (pvs ! k) = Some h" using assms(2) by simp
  then show ?thesis using assms(1) Some by (auto simp: link_prefix_def)
qed

lemma link_variable_ok:
  assumes "link_variable pvs i v ks = Some (v', ks')" and "\<forall>p \<in> set pvs. \<exists>h \<in> hs. v_get p = Some h"
    and "set_option (v_get v) \<subseteq> hs" and "\<forall>k \<in> set ks. set_option (v_get (snd k)) \<subseteq> hs"
  shows "(\<exists>h \<in> hs. v_get v' = Some h) \<and> v_name v' = v_name v \<and> (\<forall>k \<in> set ks'. set_option (v_get (snd k)) \<subseteq> hs)"
proof (cases "find_at (\<lambda>k. fst k = v_name v) 0 ks")
  case None
  then have "link_prefix pvs v = Some v'" and "ks' = ks" using assms(1) by (auto simp: link_variable_def)
  then show ?thesis using link_prefix_ok [OF _ assms(2,3)] assms(4) by simp
next
  case (Some n)
  let ?av = "link_key i (snd (ks ! n))"
  have n: "n < length ks" using find_at_SomeD [OF Some] by simp
  then have av: "set_option (v_get ?av) \<subseteq> hs" using assms(4) by (simp add: link_key_def)
  then have ks': "\<forall>k \<in> set (ks[n := (fst (ks ! n), ?av)]). set_option (v_get (snd k)) \<subseteq> hs"
    using assms(4) by (intro keys_update) auto
  have v1: "set_option (v_get (take_handler ?av v)) \<subseteq> hs" "v_name (take_handler ?av v) = v_name v"
    using av by (simp_all add: take_handler_def)
  show ?thesis
  proof (cases "v_get ?av = None \<or> flag (v_flags ?av) NGX_NSOC_VAR_WEAK")
    case True
    then have "link_prefix pvs (take_handler ?av v) = Some v'" and "ks' = ks[n := (fst (ks ! n), ?av)]"
      using assms(1) Some by (auto simp: link_variable_def Let_def)
    then show ?thesis using link_prefix_ok [OF _ assms(2) v1(1)] v1(2) ks' by simp
  next
    case False
    then have "v' = take_handler ?av v" and "ks' = ks[n := (fst (ks ! n), ?av)]"
      using assms(1) Some by (auto simp: link_variable_def Let_def)
    then show ?thesis using False av v1(2) ks' by (auto simp: take_handler_def)
  qed
qed

lemma link_variables_ok:
  assumes "link_variables pvs i vs ks = Some (vs', ks')" and "\<forall>p \<in> set pvs. \<exists>h \<in> hs. v_get p = Some h"
    and "\<forall>v \<in> set vs. set_option (v_get v) \<subseteq> hs" and "\<forall>k \<in> set ks. set_option (v_get (snd k)) \<subseteq> hs"
  shows "(\<forall>v \<in> set vs'. \<exists>h \<in> hs. v_get v = Some h) \<and> map v_name vs' = map v_name vs"
  using assms
proof (induction vs arbitrary: i ks vs')
  case (Cons v vs)
  obtain v1 ks1 vs1 where 1: "link_variable pvs i v ks = Some (v1, ks1)"
    "link_variables pvs (Suc i) vs ks1 = Some (vs1, ks')" "vs' = v1 # vs1"
    using Cons.prems(1) by (auto split: option.splits)
  then show ?case
    using link_variable_ok [OF 1(1) Cons.prems(2) _ Cons.prems(4)] Cons.IH [OF 1(2) Cons.prems(2)] Cons.prems(3) by simp
qed simp

lemma init_vars_ok:
  assumes "ngx_nsoc_variables_init_vars L c = Ret NGX_OK c'" and "table_in hs c"
  shows "handled_by hs c'" and "map v_name (variables c') = map v_name (variables c)"
proof -
  obtain ks vs ks1 where ks: "variables_keys c = Some ks"
    and link: "link_variables (prefix_variables c) 0 (variables c) ks = Some (vs, ks1)" and vs: "variables c' = vs"
    using assms(1) by (auto simp: ngx_nsoc_variables_init_vars_def Let_def split: option.splits if_splits)
  show "handled_by hs c'" and "map v_name (variables c') = map v_name (variables c)"
    using link_variables_ok [OF link, of hs] assms(2) ks vs by (auto simp: table_in_def handled_by_def)
qed

text \<open>Steps of a configuration after the core variables were added, for tables with handlers of \<open>hs\<close>.\<close>

definition copy_handler :: "variable \<Rightarrow> variable \<Rightarrow> variable" where
  "copy_handler cv v = v\<lparr>v_get := v_get cv, v_data := v_data cv\<rparr>"

inductive conf_step :: "handler set \<Rightarrow> var_lib \<Rightarrow> vconf \<Rightarrow> vconf \<Rightarrow> bool" for hs L where
  conf_index: "conf_step hs L c (snd (ngx_nsoc_get_variable_index L c name))"
| conf_pool: "conf_step hs L c (c\<lparr>vc_pool := p\<rparr>)"
| conf_regex: "ngx_nsoc_regex_compile L rc c = Ret re c' \<Longrightarrow> conf_step hs L c c'"
| conf_module: "add_table L copy_handler cvs c = Ret rc c'
    \<Longrightarrow> \<forall>cv \<in> set cvs. \<not> flag (v_flags cv) NGX_NSOC_VAR_PREFIX \<and> set_option (v_get cv) \<subseteq> hs
    \<Longrightarrow> conf_step hs L c c'"

lemma flag_changeable [simp]: "\<not> flag NGX_NSOC_VAR_CHANGEABLE NGX_NSOC_VAR_PREFIX"
  by (simp add: flag_def)

lemma regex_names_table:
  assumes "regex_names L ns c = Ret r c'" and "table_in hs c" and "ngx_nsoc_variable_not_found \<in> hs"
  shows "table_in hs c' \<and> names_extend c c'"
  using assms(1,2)
proof (induction ns arbitrary: c r)
  case (Cons n ns)
  obtain p0 p1 name where n: "n = (p0, p1, name)" by (cases n)
  obtain r1 c1 where add: "ngx_nsoc_add_variable L c name NGX_NSOC_VAR_CHANGEABLE = Ret r1 c1"
    using Cons.prems(1) by (auto simp: n bind_run_Ret_iff)
  have c1: "table_in hs c1" "variables c1 = variables c" "\<forall>ref. r1 = Some ref \<longrightarrow> (\<exists>i. ref = Key i)"
    using add_variable_table [OF add Cons.prems(2)] by simp_all
  have ext: "names_extend c d" if "names_extend c1 d" for d using that c1(2) by (simp add: names_extend_def)
  obtain index c2 where get: "ngx_nsoc_get_variable_index L c1 name = (index, c2)" by fastforce
  have g: "grown c1 c2" using get_variable_index_grown [of c1 L name] get by simp
  have c2: "table_in hs c2" "names_extend c1 c2" using table_in_grown [OF c1(1) g] grown_extends [OF g] by simp_all
  show ?case
  proof (cases "r1 = None \<or> index = NGX_ERROR")
    case True
    then show ?thesis using Cons.prems(1) add get c1 c2 ext by (auto simp: n split: option.splits)
  next
    case False
    then obtain i where r1: "r1 = Some (Key i)" using c1(3) by auto
    let ?d = "set_ref (Key i) (\<lambda>v. v\<lparr>v_get := Some ngx_nsoc_variable_not_found\<rparr>) c2"
    have d: "table_in hs ?d" "variables ?d = variables c2"
      using set_ref_table [OF c2(1)] assms(3) by simp_all
    obtain rest where "regex_names L ns ?d = Ret rest c'"
      using Cons.prems(1) False r1 add get by (auto simp: n bind_run_Ret_iff)
    then have "table_in hs c'" "names_extend ?d c'" using Cons.IH d(1) by blast+
    then show ?thesis using ext [of c'] names_extend_trans [OF c2(2)] d(2) by (simp add: names_extend_def)
  qed
qed simp

lemma regex_compile_table:
  assumes "ngx_nsoc_regex_compile L rc c = Ret re c'" and "table_in hs c" and "ngx_nsoc_variable_not_found \<in> hs"
  shows "table_in hs c' \<and> names_extend c c'"
proof (cases rc)
  case None
  then show ?thesis using assms(1,2) by (simp add: ngx_nsoc_regex_compile_def)
next
  case (Some r)
  have pool: "table_in hs (c\<lparr>vc_ncaptures := n, vc_pool := p\<rparr>)" for p n using assms(2) by (simp add: table_in_def)
  consider p n where "c' = c\<lparr>vc_ncaptures := n, vc_pool := p\<rparr>"
    | p n vs where "regex_names L (rc_names r) (c\<lparr>vc_ncaptures := n, vc_pool := p\<rparr>) = Ret vs c'"
  proof (cases "fst (pool_take (vc_pool c)) \<and> rc_names r \<noteq> [] \<and> fst (pool_take (snd (pool_take (vc_pool c))))")
    case True
    then show thesis using assms(1) Some that(2) by (auto simp: ngx_nsoc_regex_compile_def Let_def bind_run_Ret_iff)
  next
    case False
    have "\<exists>p n. c\<lparr>vc_pool := q\<rparr> = c\<lparr>vc_ncaptures := n, vc_pool := p\<rparr>" for q
      by (intro exI [of _ q] exI [of _ "vc_ncaptures c"]) simp
    moreover have "\<exists>p n. c\<lparr>vc_pool := q, vc_ncaptures := m\<rparr> = c\<lparr>vc_ncaptures := n, vc_pool := p\<rparr>" for q m
      by (intro exI [of _ q] exI [of _ m]) simp
    ultimately have "\<exists>p n. c' = c\<lparr>vc_ncaptures := n, vc_pool := p\<rparr>"
      using assms(1) Some False by (auto simp: ngx_nsoc_regex_compile_def Let_def split: if_splits)
    then show thesis using that(1) by blast
  qed
  then show ?thesis
  proof cases
    case 1
    then show ?thesis using pool by (simp add: names_extend_def)
  next
    case 2
    then show ?thesis using regex_names_table [OF 2 pool assms(3)] by (simp add: names_extend_def)
  qed
qed

lemma conf_step_table:
  assumes "conf_step hs L c c'" and "table_in hs c" and "ngx_nsoc_variable_not_found \<in> hs"
  shows "table_in hs c' \<and> names_extend c c'"
  using assms(1)
proof cases
  case (conf_index name)
  then show ?thesis using table_in_grown [OF assms(2)] get_variable_index_grown grown_extends by blast
next
  case (conf_pool p)
  then show ?thesis using assms(2) by (simp add: names_extend_def)
next
  case (conf_regex rc re)
  then show ?thesis using regex_compile_table [OF _ assms(2,3)] by blast
next
  case (conf_module cvs rc)
  then have "table_in hs c' \<and> variables c' = variables c"
    using add_table_in [OF conf_module(1) assms(2)] by (simp add: copy_handler_def)
  then show ?thesis by (simp add: names_extend_def)
qed

lemma conf_steps_table:
  assumes "(conf_step hs L)\<^sup>*\<^sup>* c c'" and "table_in hs c" and "ngx_nsoc_variable_not_found \<in> hs"
  shows "table_in hs c' \<and> names_extend c c'"
  using assms(1)
proof (induction rule: rtranclp_induct)
  case (step d e)
  then show ?case using conf_step_table [OF step.hyps(2) _ assms(3)] names_extend_trans by blast
qed (simp add: assms(2))

lemma core_flags: "cv \<in> set ngx_nsoc_core_variables \<Longrightarrow> \<not> flag (v_flags cv) NGX_NSOC_VAR_PREFIX"
  by (auto simp: ngx_nsoc_core_variables_def core_variable_def flag_def)

lemma add_core_vars_table:
  assumes "ngx_nsoc_variables_add_core_vars L c = Ret NGX_OK c'" and "variables c = []" and "core_handlers \<subseteq> hs"
  shows "table_in hs c'"
proof -
  obtain p where p: "add_table L (\<lambda>cv v. cv) ngx_nsoc_core_variables
      (c\<lparr>vc_pool := p, variables_keys := Some [], prefix_variables := []\<rparr>) = Ret NGX_OK c'"
    using assms(1) by (auto simp: ngx_nsoc_variables_add_core_vars_def Let_def split: if_splits)
  have "table_in hs (c\<lparr>vc_pool := p, variables_keys := Some [], prefix_variables := []\<rparr>)"
    using assms(2) by (simp add: table_in_def)
  moreover have "set_option (v_get cv) \<subseteq> hs" if "cv \<in> set ngx_nsoc_core_variables" for cv
    using assms(3) that by (auto simp: core_handlers_def)
  ultimately show ?thesis using add_table_in [OF p] core_flags by blast
qed

section \<open>Indices are stable\<close>

lemma same_name_trans: "same_name L a x \<Longrightarrow> same_name L b x \<Longrightarrow> same_name L a b"
  by (simp add: same_name_def)

lemma index_of_same: "index_of L c a = Some i \<Longrightarrow> index_of L c b = Some i \<Longrightarrow> same_name L a b"
  unfolding index_of_def by (drule find_at_SomeD, drule find_at_SomeD) (auto intro: same_name_trans)

lemma index_of_cong: "same_name L a b \<Longrightarrow> index_of L c a = index_of L c b"
proof -
  assume "same_name L a b"
  then have "same_name L a = same_name L b" by (auto simp: same_name_def fun_eq_iff)
  then show ?thesis by (simp add: index_of_def)
qed

text \<open>
  C22: Asking for the index of a variable while the configuration is read
  (\<open>ngx_nsoc_get_variable_index\<close>) either fails or gives the name an index of its own: later lookups of
  the name find this index, no name loses the index it had, and two names share an index
  exactly when they are equal up to case.
\<close>

theorem variable_index_stable:
  assumes "ngx_nsoc_get_variable_index L c name = (i, c')" and "i \<noteq> NGX_ERROR" and "fold_contract L"
  shows "index_of L c' name = Some (nat i) \<and> nat i < length (variables c')
    \<and> (\<forall>m j. index_of L c m = Some j \<longrightarrow> index_of L c' m = Some j)
    \<and> (\<forall>m. index_of L c' m = Some (nat i) \<longleftrightarrow> same_name L m name)"
proof (intro conjI allI impI)
  have g: "grown c c'" using get_variable_index_grown [of c L name] assms(1) by simp
  show i: "index_of L c' name = Some (nat i)" by (rule get_variable_index_ok(1) [OF assms])
  then show "nat i < length (variables c')" by (rule index_of_less)
  show "index_of L c' m = Some j" if "index_of L c m = Some j" for m j
    using index_of_extend [OF grown_extends [OF g] that] .
  show "index_of L c' m = Some (nat i) \<longleftrightarrow> same_name L m name" for m
    using i index_of_same index_of_cong by metis
qed

text \<open>A library for concrete runs: ASCII case folding and tables that are lists.\<close>

definition ascii_low :: "char \<Rightarrow> char" where
  "ascii_low ch = (let n = of_char ch :: nat in if 65 \<le> n \<and> n \<le> 90 then char_of (n + 32) else ch)"

definition demo_var_lib :: var_lib where
  "demo_var_lib = \<lparr>ngx_tolower = ascii_low,
     ngx_hash_add_key = (\<lambda>ks k. if k \<in> set ks then Hash_busy else Hash_ok),
     ngx_hash_init = (\<lambda>ks. NGX_OK), ngx_hash_find = (\<lambda>ks key n. find_at ((=) n) 0 ks)\<rparr>"

definition empty_vconf :: vconf where
  "empty_vconf = \<lparr>variables = [], prefix_variables = [], variables_keys = None, variables_hash = [],
     vc_ncaptures = 0, vc_pool = []\<rparr>"

lemma demo_fold: "fold_contract demo_var_lib"
proof -
  have "ascii_low (ascii_low ch) = ascii_low ch" for ch
    by (simp add: ascii_low_def Let_def)
  then show ?thesis by (simp add: fold_contract_def demo_var_lib_def)
qed

theorem variable_index_stable_witness:
  "index_of demo_var_lib (snd (ngx_nsoc_get_variable_index demo_var_lib empty_vconf ''Pid'')) ''PID'' = Some 0"
proof -
  let ?r = "ngx_nsoc_get_variable_index demo_var_lib empty_vconf ''Pid''"
  have r: "ngx_nsoc_get_variable_index demo_var_lib empty_vconf ''Pid'' = (0, snd ?r)"
    by (simp add: ngx_nsoc_get_variable_index_def empty_vconf_def)
  have "same_name demo_var_lib ''PID'' ''Pid''" by code_simp
  then show ?thesis using variable_index_stable [OF r _ demo_fold] by simp
qed

text \<open>
  The choice of a prefix variable compares the length of the name looked up with the length of
  the best prefix so far, so that a later, shorter prefix displaces a longer one.
\<close>

lemma prefix_not_longest:
  "pick_prefix ''arg_name'' 0 None 0 [new_variable ''arg_n'' 0 0, new_variable ''arg_'' 0 0] = Some 1"
  by (simp add: has_prefix_def new_variable_def)

end
