(* ===== verification/Nsoc_Script.thy ===== *)
theory Nsoc_Script
  imports Nsoc_Var_Laws
begin

text \<open>
  Model of \<open>src/ngx_nsoc_script.c\<close> and \<open>src/ngx_nsoc_script.h\<close>: a string with variables is compiled
  into two code arrays, one that computes the length of the result and one that writes it; a
  session evaluates it with two passes over the arrays.

  A code array is a list of cells of the size of a pointer, and an instruction pointer is an
  index into it: a function pointer, a number, eight characters of a literal, or the null
  pointer that ends the array. An access outside the array or to a cell of another kind is
  a crash, as is writing more than was allocated for the result.
\<close>

section \<open>Code arrays\<close>

datatype code_pt = Copy_len_code | Copy_code | Var_len_code | Var_code | Capture_len_code | Capture_code
  | Full_name_len_code | Full_name_code

datatype cell = Code code_pt | Num nat | Chars string | Null

fun num_of :: "cell \<Rightarrow> nat option" where
  "num_of (Num n) = Some n"
| "num_of _ = None"

fun chars_of :: "cell \<Rightarrow> string" where
  "chars_of (Chars t) = t"
| "chars_of _ = []"

text \<open>The number that follows the function pointer at \<open>ip\<close>.\<close>

definition operand :: "cell list \<Rightarrow> nat \<Rightarrow> nat option" where
  "operand code ip = (if ip + 1 < length code then num_of (code ! (ip + 1)) else None)"

text \<open>\<open>(n + sizeof(uintptr_t) - 1) & ~(sizeof(uintptr_t) - 1)\<close>\<close>

definition round_up :: "nat \<Rightarrow> nat" where
  "round_up n = nat ((int n + 8 - 1) AND NOT (8 - 1))"

text \<open>The characters of a literal in cells; the first \<open>n\<close> cells of the text.\<close>

definition text_cells :: "nat \<Rightarrow> string \<Rightarrow> cell list" where
  "text_cells n t = map (\<lambda>k. Chars (take 8 (drop (8 * k) t))) [0..<n]"

definition cells_text :: "cell list \<Rightarrow> string" where
  "cells_text cs = concat (map chars_of cs)"

section \<open>Compilation\<close>

record complex_value =
  cv_value :: string
  cv_flushes :: "nat list option"
  cv_lengths :: "cell list option"
  cv_values :: "cell list option"

text \<open>
  The field \<open>main\<close>, an address that is moved with the array and not read in this module, is left
  out, and so is the configuration's log; \<open>sc_conf\<close> is the table of variables, with the pool.
\<close>

record script_compile =
  sc_source :: string
  sc_flushes :: "nat list option option"
  sc_lengths :: "cell list option"
  sc_values :: "cell list option"
  sc_variables :: nat
  sc_ncaptures :: nat
  sc_size :: nat
  sc_complete_lengths :: bool
  sc_complete_values :: bool
  sc_zero :: bool
  sc_conf_prefix :: bool
  sc_root_prefix :: bool
  sc_conf :: vconf

text \<open>
  nginx: \<open>ngx_conf_full_name\<close>, which makes a name of the configuration absolute, and
  \<open>ngx_get_full_name\<close>, which does so with the given prefix and takes memory from a pool.
\<close>

record script_lib =
  sl_vars :: var_lib
  ngx_conf_full_name :: "bool \<Rightarrow> string \<Rightarrow> string option"
  ngx_get_full_name :: "string \<Rightarrow> string \<Rightarrow> bool list \<Rightarrow> string option \<times> bool list"

definition sc_alloc :: "script_compile \<Rightarrow> bool \<times> script_compile" where
  "sc_alloc sc = (let (ok, c) = vc_alloc (sc_conf sc) in (ok, sc\<lparr>sc_conf := c\<rparr>))"

text \<open>An array that is still missing is created.\<close>

definition create_array :: "'a list option \<Rightarrow> script_compile \<Rightarrow> ('a list option \<times> script_compile) option" where
  "create_array a sc = (case a of
      Some xs \<Rightarrow> Some (Some xs, sc)
    | None \<Rightarrow> (let (ok, sc1) = sc_alloc sc in if ok then Some (Some [], sc1) else None))"

definition ngx_nsoc_script_init_arrays :: "script_compile \<Rightarrow> script_compile option" where
  "ngx_nsoc_script_init_arrays sc =
     Option.bind (case sc_flushes sc of
                    None \<Rightarrow> Some sc
                  | Some a \<Rightarrow> map_option (\<lambda>(a, sc). sc\<lparr>sc_flushes := Some a\<rparr>) (create_array a sc)) (\<lambda>sc1.
     Option.bind (map_option (\<lambda>(a, sc). sc\<lparr>sc_lengths := a\<rparr>) (create_array (sc_lengths sc1) sc1)) (\<lambda>sc2.
     map_option (\<lambda>(a, sc). sc\<lparr>sc_values := a, sc_variables := 0\<rparr>) (create_array (sc_values sc2) sc2)))"

text \<open>\<open>ngx_nsoc_script_add_code\<close> on each of the two arrays; the cells are what the caller then stores.\<close>

definition add_length_code :: "cell list \<Rightarrow> script_compile \<Rightarrow> script_compile option" where
  "add_length_code cs sc = (let (ok, sc1) = sc_alloc sc
     in if ok then Some (sc1\<lparr>sc_lengths := map_option (\<lambda>a. a @ cs) (sc_lengths sc1)\<rparr>) else None)"

definition add_value_code :: "cell list \<Rightarrow> script_compile \<Rightarrow> script_compile option" where
  "add_value_code cs sc = (let (ok, sc1) = sc_alloc sc
     in if ok then Some (sc1\<lparr>sc_values := map_option (\<lambda>a. a @ cs) (sc_values sc1)\<rparr>) else None)"

text \<open>The size of the code and its text is rounded up together here; the code that runs it rounds the text alone.\<close>

definition ngx_nsoc_script_add_copy_code :: "script_compile \<Rightarrow> string \<Rightarrow> bool \<Rightarrow> script_compile option" where
  "ngx_nsoc_script_add_copy_code sc value is_last =
     (let zero = sc_zero sc \<and> is_last;
          text = value @ (if zero then [CHR 0x00] else []);
          len = length value + (if zero then 1 else 0);
          size = round_up (16 + len)
      in Option.bind (add_length_code [Code Copy_len_code, Num len] sc) (\<lambda>sc1.
         map_option (\<lambda>sc2. if zero then sc2\<lparr>sc_zero := False\<rparr> else sc2)
           (add_value_code ([Code Copy_code, Num len] @ text_cells (size div 8 - 2) text) sc1)))"

definition ngx_nsoc_script_add_var_code :: "script_lib \<Rightarrow> script_compile \<Rightarrow> string \<Rightarrow> script_compile option" where
  "ngx_nsoc_script_add_var_code S sc name =
     (let (index, c) = ngx_nsoc_get_variable_index (sl_vars S) (sc_conf sc) name;
          sc1 = sc\<lparr>sc_conf := c\<rparr>;
          i = nat index
      in if index = NGX_ERROR then None
         else Option.bind (case sc_flushes sc1 of
                 None \<Rightarrow> Some sc1
               | Some a \<Rightarrow> (let (ok, sc2) = sc_alloc sc1
                   in if ok then Some (sc2\<lparr>sc_flushes := Some (map_option (\<lambda>xs. xs @ [i]) a)\<rparr>) else None)) (\<lambda>sc2.
              Option.bind (add_length_code [Code Var_len_code, Num i] sc2) (\<lambda>sc3.
              add_value_code [Code Var_code, Num i] sc3)))"

definition ngx_nsoc_script_add_capture_code :: "script_compile \<Rightarrow> nat \<Rightarrow> script_compile option" where
  "ngx_nsoc_script_add_capture_code sc n =
     Option.bind (add_length_code [Code Capture_len_code, Num (2 * n)] sc) (\<lambda>sc1.
     map_option (\<lambda>sc2. if sc_ncaptures sc2 < n then sc2\<lparr>sc_ncaptures := n\<rparr> else sc2)
       (add_value_code [Code Capture_code, Num (2 * n)] sc1))"

definition of_flag :: "bool \<Rightarrow> nat" where
  "of_flag b = (if b then 1 else 0)"

definition ngx_nsoc_script_add_full_name_code :: "script_compile \<Rightarrow> script_compile option" where
  "ngx_nsoc_script_add_full_name_code sc =
     Option.bind (add_length_code [Code Full_name_len_code, Num (of_flag (sc_conf_prefix sc))] sc) (\<lambda>sc1.
     add_value_code [Code Full_name_code, Num (of_flag (sc_conf_prefix sc1))] sc1)"

definition ngx_nsoc_script_done :: "script_compile \<Rightarrow> script_compile option" where
  "ngx_nsoc_script_done sc =
     Option.bind (if sc_zero sc then ngx_nsoc_script_add_copy_code sc [CHR 0x00] False else Some sc) (\<lambda>sc1.
     Option.bind (if sc_conf_prefix sc1 \<or> sc_root_prefix sc1 then ngx_nsoc_script_add_full_name_code sc1 else Some sc1) (\<lambda>sc2.
     Option.bind (if sc_complete_lengths sc2 then add_length_code [Null] sc2 else Some sc2) (\<lambda>sc3.
     if sc_complete_values sc3 then add_value_code [Null] sc3 else Some sc3)))"

definition name_char :: "char \<Rightarrow> bool" where
  "name_char ch \<longleftrightarrow> (let n = of_char ch :: nat
     in 65 \<le> n \<and> n \<le> 90 \<or> 97 \<le> n \<and> n \<le> 122 \<or> 48 \<le> n \<and> n \<le> 57 \<or> ch = CHR ''_'')"

definition capture_char :: "char \<Rightarrow> bool" where
  "capture_char ch \<longleftrightarrow> (let n = of_char ch :: nat in 49 \<le> n \<and> n \<le> 57)"

text \<open>The loop over a name: position, length of the name, and whether a bracket is still open.\<close>

function scan_name :: "string \<Rightarrow> nat \<Rightarrow> nat \<Rightarrow> bool \<Rightarrow> nat \<times> nat \<times> bool" where
  "scan_name src i n br =
     (if length src \<le> i then (i, n, br)
      else if src ! i = CHR ''}'' \<and> br then (i + 1, n, False)
      else if name_char (src ! i) then scan_name src (i + 1) (n + 1) br
      else (i, n, br))"
  by pat_completeness auto
termination by (relation "measure (\<lambda>(src, i, n, br). length src - i)") auto

declare scan_name.simps [simp del]

lemma scan_name_ge: "scan_name src i n br = (i', n', br') \<Longrightarrow> i \<le> i'"
  by (induction src i n br rule: scan_name.induct)
    (subst (asm) (2) scan_name.simps, fastforce split: if_splits)

text \<open>
  The loop of \<open>ngx_nsoc_script_compile\<close> from the position \<open>i\<close>; \<open>None\<close> is \<open>NGX_ERROR\<close>, after which the
  configuration is given up. The library is built with PCRE.
\<close>

function compile_loop :: "script_lib \<Rightarrow> nat \<Rightarrow> script_compile \<Rightarrow> string \<Rightarrow> script_compile option" where
  "compile_loop S i sc src =
     (if length src \<le> i then ngx_nsoc_script_done sc
      else if src ! i = CHR ''$'' then
        if i + 1 = length src then None
        else if capture_char (src ! (i + 1)) then
          (case ngx_nsoc_script_add_capture_code sc (of_char (src ! (i + 1)) - 48) of
             None \<Rightarrow> None | Some sc1 \<Rightarrow> compile_loop S (i + 2) sc1 src)
        else
          (let br = (src ! (i + 1) = CHR ''{''); start = (if br then i + 2 else i + 1)
           in if br \<and> start = length src then None
              else case scan_name src start 0 br of (i', n, br') \<Rightarrow>
                if br' then None
                else if n = 0 then None
                else (case ngx_nsoc_script_add_var_code S (sc\<lparr>sc_variables := sc_variables sc + 1\<rparr>)
                             (take n (drop start src)) of
                        None \<Rightarrow> None | Some sc1 \<Rightarrow> compile_loop S i' sc1 src))
      else
        (let lit = takeWhile (\<lambda>ch. ch \<noteq> CHR ''$'') (drop i src); i' = i + length lit
         in case ngx_nsoc_script_add_copy_code (sc\<lparr>sc_size := sc_size sc + length lit\<rparr>) lit (i' = length src) of
              None \<Rightarrow> None | Some sc1 \<Rightarrow> compile_loop S i' sc1 src))"
  by pat_completeness auto
termination
proof (relation "measure (\<lambda>(S, i, sc, src). length src - i)", goal_cases)
  case (3 S i sc src br start i' y n br' sc1)
  then have "start \<le> i'" using scan_name_ge [of src start 0 br i' n br'] by simp
  then show ?case using 3 by (auto split: if_splits)
next
  case (4 S i sc src lit i' sc1)
  then have "lit \<noteq> []" by (simp add: Cons_nth_drop_Suc [symmetric])
  then have "0 < length lit" by simp
  then show ?case using 4(1,4) by (simp del: length_greater_0_conv)
qed simp_all

declare compile_loop.simps [simp del]

definition ngx_nsoc_script_compile :: "script_lib \<Rightarrow> script_compile \<Rightarrow> script_compile option" where
  "ngx_nsoc_script_compile S sc =
     (case ngx_nsoc_script_init_arrays sc of
        None \<Rightarrow> None | Some sc1 \<Rightarrow> compile_loop S 0 sc1 (sc_source sc1))"

definition ngx_nsoc_script_variables_count :: "string \<Rightarrow> nat" where
  "ngx_nsoc_script_variables_count value = length (filter (\<lambda>ch. ch = CHR ''$'') value)"

text \<open>
  The two counters of \<open>ngx_nsoc_compile_complex_value\<close>: captures and other variables. The character
  behind the last one is the null character that ends every string of the configuration.
\<close>

fun count_dollars :: "string \<Rightarrow> nat \<times> nat" where
  "count_dollars [] = (0, 0)"
| "count_dollars (ch # rest) =
     (let (nv, nc) = count_dollars rest
      in if ch = CHR ''$''
         then if rest \<noteq> [] \<and> capture_char (hd rest) then (nv, nc + 1) else (nv + 1, nc)
         else (nv, nc))"

text \<open>
  \<open>fl_room\<close> is the number of elements allocated for the flushes, \<open>nv + 1\<close>; the mark \<open>-1\<close> that ends
  the list is stored behind the last element without a push, a crash if there is no room for it.
  An array grows when it is full, so its room is never below the number of its elements.
\<close>

definition finish_flushes :: "nat \<Rightarrow> nat list \<Rightarrow> nat list option option" where
  "finish_flushes room fl =
     (if fl = [] then Some None else if length fl < max room (length fl) then Some (Some fl) else None)"

definition ngx_nsoc_compile_complex_value ::
  "script_lib \<Rightarrow> string \<Rightarrow> bool \<Rightarrow> bool \<Rightarrow> bool \<Rightarrow> vconf \<Rightarrow> (complex_value option, vconf) run" where
  "ngx_nsoc_compile_complex_value S v zero conf_prefix root_prefix c =
     (let (nv, nc) = count_dollars v;
          named = (v = [] \<or> hd v \<noteq> CHR ''$'') \<and> (conf_prefix \<or> root_prefix);
          full = (if named then ngx_conf_full_name S conf_prefix v else Some v)
      in case full of None \<Rightarrow> Ret None c | Some v1 \<Rightarrow>
        if nv = 0 \<and> nc = 0
        then Ret (Some \<lparr>cv_value = v1, cv_flushes = None, cv_lengths = None, cv_values = None\<rparr>) c
        else
          (let (ok1, c1) = vc_alloc c; (ok2, c2) = vc_alloc c1; (ok3, c3) = vc_alloc c2;
               sc = \<lparr>sc_source = v1, sc_flushes = Some (Some []), sc_lengths = Some [], sc_values = Some [],
                 sc_variables = 0, sc_ncaptures = 0, sc_size = 0, sc_complete_lengths = True,
                 sc_complete_values = True, sc_zero = zero, sc_conf_prefix = conf_prefix \<and> \<not> named,
                 sc_root_prefix = root_prefix \<and> \<not> named, sc_conf = c3\<rparr>
           in if \<not> ok1 then Ret None c1 else if \<not> ok2 then Ret None c2 else if \<not> ok3 then Ret None c3
              else case ngx_nsoc_script_compile S sc of
                None \<Rightarrow> Ret None c3
              | Some sc1 \<Rightarrow>
                  (case finish_flushes (nv + 1) (case sc_flushes sc1 of Some (Some fl) \<Rightarrow> fl | _ \<Rightarrow> []) of
                     None \<Rightarrow> Crash Out_of_bounds
                   | Some fl \<Rightarrow> Ret (Some \<lparr>cv_value = v1, cv_flushes = fl, cv_lengths = sc_lengths sc1,
                                        cv_values = sc_values sc1\<rparr>) (sc_conf sc1))))"

text \<open>The field of the module's configuration is set at most once.\<close>

definition ngx_nsoc_set_complex_value_slot ::
  "script_lib \<Rightarrow> string \<Rightarrow> complex_value option \<Rightarrow> vconf \<Rightarrow> (complex_value option \<times> bool, vconf) run" where
  "ngx_nsoc_set_complex_value_slot S arg field c =
     (case field of Some cv \<Rightarrow> Ret (Some cv, False) c | None \<Rightarrow>
       (let (ok, c1) = vc_alloc c
        in if \<not> ok then Ret (None, False) c1
           else bind_run (ngx_nsoc_compile_complex_value S arg False False False c1) (\<lambda>cv c2.
             Ret (cv, cv \<noteq> None) c2)))"

section \<open>Evaluation\<close>

text \<open>
  \<open>e_out\<close> is what was written from \<open>value->data\<close> to \<open>e->pos\<close> and \<open>e_room\<close> what was allocated;
  \<open>e_buf\<close> is the string \<open>e->buf\<close> once \<open>ngx_nsoc_script_full_name_code\<close> replaced it. The flag \<open>skip\<close>
  and the field \<open>line\<close> are zero throughout.
\<close>

record engine =
  e_ip :: nat
  e_out :: string
  e_room :: nat
  e_buf :: "string option"
  e_flushed :: bool

definition get_for_code :: "vconf \<Rightarrow> bool \<Rightarrow> vsess \<Rightarrow> nat \<Rightarrow> (vslot option, vsess) run" where
  "get_for_code c flushed s i =
     (if flushed then ngx_nsoc_get_indexed_variable c s i else ngx_nsoc_get_flushed_variable c s i)"

definition found :: "vslot option \<Rightarrow> vsess \<Rightarrow> vval option" where
  "found r s = (case r of None \<Rightarrow> None
     | Some v \<Rightarrow> if vv_not_found (get_slot s v) then None else Some (get_slot s v))"

text \<open>\<open>cap[n + 1] - cap[n]\<close> as a \<open>size_t\<close>, and the bytes of the capture.\<close>

definition capture_pair :: "vsess \<Rightarrow> nat \<Rightarrow> (int \<times> int) option" where
  "capture_pair s n = (case s_captures s of
      Some cap \<Rightarrow> if n + 1 < length cap then Some (cap ! n, cap ! (n + 1)) else None
    | None \<Rightarrow> None)"

definition capture_len :: "int \<Rightarrow> int \<Rightarrow> nat" where
  "capture_len a b = nat ((b - a) mod 2 ^ 64)"

definition copy_from :: "string \<Rightarrow> int \<Rightarrow> nat \<Rightarrow> string option" where
  "copy_from t a n = (if n = 0 then Some []
     else if 0 \<le> a \<and> nat a + n \<le> length t then Some (take n (drop (nat a) t)) else None)"

text \<open>The code of the first array at \<open>ip\<close>: the length it adds, and the next position.\<close>

definition length_code :: "vconf \<Rightarrow> bool \<Rightarrow> code_pt \<Rightarrow> nat \<Rightarrow> vsess \<Rightarrow> (nat, vsess) run" where
  "length_code c flushed code arg s =
     (case code of
        Copy_len_code \<Rightarrow> Ret arg s
      | Var_len_code \<Rightarrow>
          bind_run (get_for_code c flushed s arg) (\<lambda>r s1.
            Ret (case found r s1 of Some x \<Rightarrow> vv_len x | None \<Rightarrow> 0) s1)
      | Capture_len_code \<Rightarrow>
          (if arg < s_ncaptures s
           then case capture_pair s arg of None \<Rightarrow> Crash Out_of_bounds | Some (a, b) \<Rightarrow> Ret (capture_len a b) s
           else Ret 0 s)
      | Full_name_len_code \<Rightarrow>
          Ret (length (if arg \<noteq> 0 then cy_conf_prefix (s_env s) else cy_prefix (s_env s))) s
      | _ \<Rightarrow> Crash Uninitialised)"

function run_lengths :: "vconf \<Rightarrow> bool \<Rightarrow> cell list \<Rightarrow> nat \<Rightarrow> nat \<Rightarrow> vsess \<Rightarrow> (nat, vsess) run" where
  "run_lengths c flushed code ip len s =
     (if length code \<le> ip then Crash Out_of_bounds
      else case code ! ip of
        Null \<Rightarrow> Ret len s
      | Code f \<Rightarrow>
          (case operand code ip of
             None \<Rightarrow> Crash Out_of_bounds
           | Some arg \<Rightarrow> bind_run (length_code c flushed f arg s) (\<lambda>n s1.
               run_lengths c flushed code (ip + 2) (len + n) s1))
      | _ \<Rightarrow> Crash Uninitialised)"
  by pat_completeness auto
termination by (relation "measure (\<lambda>(c, flushed, code, ip, len, s). length code - ip)") auto

declare run_lengths.simps [simp del]

text \<open>Writing at \<open>e->pos\<close>.\<close>

definition emit :: "string \<Rightarrow> engine \<Rightarrow> vsess \<Rightarrow> (engine, vsess) run" where
  "emit t e s = (if e_room e < length (e_out e) + length t then Crash Out_of_bounds
     else Ret (e\<lparr>e_out := e_out e @ t\<rparr>) s)"

definition ngx_nsoc_script_copy_code :: "cell list \<Rightarrow> nat \<Rightarrow> engine \<Rightarrow> vsess \<Rightarrow> (engine, vsess) run" where
  "ngx_nsoc_script_copy_code code len e s =
     (let text = cells_text (take (round_up len div 8) (drop (e_ip e + 2) code))
      in if length text < len then Crash Out_of_bounds
         else bind_run (emit (take len text) e s) (\<lambda>e1 s1.
           Ret (e1\<lparr>e_ip := e_ip e + 2 + round_up len div 8\<rparr>) s1))"

definition ngx_nsoc_script_copy_var_code :: "vconf \<Rightarrow> nat \<Rightarrow> engine \<Rightarrow> vsess \<Rightarrow> (engine, vsess) run" where
  "ngx_nsoc_script_copy_var_code c index e s =
     (let e1 = e\<lparr>e_ip := e_ip e + 2\<rparr>
      in bind_run (get_for_code c (e_flushed e) s index) (\<lambda>r s1.
           case found r s1 of
             None \<Rightarrow> Ret e1 s1
           | Some x \<Rightarrow> if length (vv_data x) < vv_len x then Crash Out_of_bounds
                       else emit (take (vv_len x) (vv_data x)) e1 s1))"

definition ngx_nsoc_script_copy_capture_code :: "nat \<Rightarrow> engine \<Rightarrow> vsess \<Rightarrow> (engine, vsess) run" where
  "ngx_nsoc_script_copy_capture_code n e s =
     (let e1 = e\<lparr>e_ip := e_ip e + 2\<rparr>
      in if n < s_ncaptures s
         then case capture_pair s n of
                None \<Rightarrow> Crash Out_of_bounds
              | Some (a, b) \<Rightarrow> (case copy_from (s_captures_data s) a (capture_len a b) of
                  None \<Rightarrow> Crash Out_of_bounds | Some t \<Rightarrow> emit t e1 s)
         else Ret e1 s)"

text \<open>On failure the pointer is set to \<open>ngx_nsoc_script_exit\<close>, here the end of the array.\<close>

definition ngx_nsoc_script_full_name_code ::
  "script_lib \<Rightarrow> nat \<Rightarrow> nat \<Rightarrow> engine \<Rightarrow> vsess \<Rightarrow> (engine \<times> bool, vsess) run" where
  "ngx_nsoc_script_full_name_code S conf_prefix stop e s =
     (let prefix = (if conf_prefix \<noteq> 0 then cy_conf_prefix (s_env s) else cy_prefix (s_env s));
          (r, pool) = ngx_get_full_name S prefix (e_out e) (s_pool s);
          s1 = s\<lparr>s_pool := pool\<rparr>
      in case r of
           None \<Rightarrow> Ret (e\<lparr>e_ip := stop\<rparr>, True) s1
         | Some t \<Rightarrow> Ret (e\<lparr>e_buf := Some t, e_ip := e_ip e + 2\<rparr>, False) s1)"

definition value_code ::
  "script_lib \<Rightarrow> vconf \<Rightarrow> cell list \<Rightarrow> code_pt \<Rightarrow> nat \<Rightarrow> engine \<Rightarrow> vsess \<Rightarrow> (engine \<times> bool, vsess) run" where
  "value_code S c code f arg e s =
     (case f of
        Copy_code \<Rightarrow> bind_run (ngx_nsoc_script_copy_code code arg e s) (\<lambda>e1 s1. Ret (e1, False) s1)
      | Var_code \<Rightarrow> bind_run (ngx_nsoc_script_copy_var_code c arg e s) (\<lambda>e1 s1. Ret (e1, False) s1)
      | Capture_code \<Rightarrow> bind_run (ngx_nsoc_script_copy_capture_code arg e s) (\<lambda>e1 s1. Ret (e1, False) s1)
      | Full_name_code \<Rightarrow> ngx_nsoc_script_full_name_code S arg (length code) e s
      | _ \<Rightarrow> Crash Uninitialised)"

text \<open>
  The second loop. Every code moves the pointer forward; the fuel is the length of the array.
\<close>

fun run_values :: "nat \<Rightarrow> script_lib \<Rightarrow> vconf \<Rightarrow> cell list \<Rightarrow> engine \<Rightarrow> vsess \<Rightarrow> (engine, vsess) run" where
  "run_values 0 S c code e s = Diverge"
| "run_values (Suc fuel) S c code e s =
     (if length code \<le> e_ip e then Crash Out_of_bounds
      else case code ! e_ip e of
        Null \<Rightarrow> Ret e s
      | Code f \<Rightarrow>
          (case operand code (e_ip e) of
             None \<Rightarrow> Crash Out_of_bounds
           | Some arg \<Rightarrow> bind_run (value_code S c code f arg e s) (\<lambda>(e1, stop) s1.
               if stop then Ret e1 s1 else run_values fuel S c code e1 s1))
      | _ \<Rightarrow> Crash Uninitialised)"

definition flush_index :: "nat \<Rightarrow> vsess \<Rightarrow> vsess" where
  "flush_index i s = (if vv_no_cacheable (s_variables s ! i) then upd_slot (Slot i) uncache s else s)"

text \<open>\<open>None\<close> is an index outside the values of the session.\<close>

fun flush_indices :: "nat list \<Rightarrow> vsess \<Rightarrow> (unit, vsess) run" where
  "flush_indices [] s = Ret () s"
| "flush_indices (i # is) s =
     (if length (s_variables s) \<le> i then Crash Out_of_bounds else flush_indices is (flush_index i s))"

definition ngx_nsoc_script_flush_complex_value :: "vsess \<Rightarrow> complex_value \<Rightarrow> (unit, vsess) run" where
  "ngx_nsoc_script_flush_complex_value s val =
     (case cv_flushes val of None \<Rightarrow> Ret () s | Some fl \<Rightarrow> flush_indices fl s)"

definition ngx_nsoc_script_flush_no_cacheable_variables :: "vsess \<Rightarrow> nat list option \<Rightarrow> (unit, vsess) run" where
  "ngx_nsoc_script_flush_no_cacheable_variables s indices =
     (case indices of None \<Rightarrow> Ret () s | Some fl \<Rightarrow> flush_indices fl s)"

text \<open>
  The result is the return code with the string: its length and the bytes from its start that
  were written.
\<close>

definition ngx_nsoc_complex_value ::
  "script_lib \<Rightarrow> vconf \<Rightarrow> vsess \<Rightarrow> complex_value \<Rightarrow> (int \<times> nat \<times> string, vsess) run" where
  "ngx_nsoc_complex_value S c s val =
     (case cv_lengths val of
        None \<Rightarrow> Ret (NGX_OK, length (cv_value val), cv_value val) s
      | Some lengths \<Rightarrow>
          bind_run (ngx_nsoc_script_flush_complex_value s val) (\<lambda>_ s1.
          bind_run (run_lengths c True lengths 0 0 s1) (\<lambda>len s2.
          let (ok, s3) = s_alloc s2
          in if \<not> ok then Ret (NGX_ERROR, len, []) s3
             else case cv_values val of None \<Rightarrow> Crash Null_deref | Some vals \<Rightarrow>
               bind_run (run_values (length vals) S c vals
                   \<lparr>e_ip = 0, e_out = [], e_room = len, e_buf = None, e_flushed = True\<rparr> s3) (\<lambda>e s4.
                 Ret (NGX_OK, case e_buf e of None \<Rightarrow> (len, e_out e) | Some t \<Rightarrow> (length t, t)) s4))))"

text \<open>The older interface: every variable is flushed, \<open>len\<close> bytes are reserved, the end of the text is returned.\<close>

definition ngx_nsoc_script_run ::
  "script_lib \<Rightarrow> vconf \<Rightarrow> vsess \<Rightarrow> cell list \<Rightarrow> nat \<Rightarrow> cell list \<Rightarrow> (nat \<times> string option, vsess) run" where
  "ngx_nsoc_script_run S c s code_lengths len code_values =
     bind_run (flush_indices [0..<length (variables c)] s) (\<lambda>_ s1.
     bind_run (run_lengths c True code_lengths 0 len s1) (\<lambda>len1 s2.
     let (ok, s3) = s_alloc s2
     in if \<not> ok then Ret (len1, None) s3
        else bind_run (run_values (length code_values) S c code_values
                 \<lparr>e_ip = 0, e_out = [], e_room = len1, e_buf = None, e_flushed = True\<rparr> s3) (\<lambda>e s4.
               Ret (len1, Some (e_out e)) s4)))"

end
