(* ===== verification/Nsoc_Script_Eval.thy ===== *)
theory Nsoc_Script_Eval
  imports Nsoc_Script
begin

text \<open>
  The two passes over the code of \<open>Nsoc_Script\<close> against a reference that needs neither code arrays
  nor a second pass: the template is parsed into literals, variables and captures, and these are
  replaced by their values from left to right.
\<close>

section \<open>Cells\<close>

lemma round_up_eq: "round_up n = (n + 7) div 8 * 8"
proof -
  have "x AND NOT 7 = push_bit 3 (drop_bit 3 x)" for x :: int
  proof (rule bit_eqI)
    fix k
    have "bit (7 :: int) k \<longleftrightarrow> k < 3" using bit_mask_iff [of 3 k, where 'a = int] by (simp add: mask_eq_exp_minus_1)
    then show "bit (x AND NOT 7) k \<longleftrightarrow> bit (push_bit 3 (drop_bit 3 x)) k" by (auto simp: bit_simps)
  qed
  then have "round_up n = nat (push_bit 3 (drop_bit 3 (int n + 7)))" by (simp add: round_up_def add.commute)
  then show ?thesis by (simp add: push_bit_eq_mult drop_bit_eq_div nat_mult_distrib nat_div_distrib nat_add_distrib)
qed

text \<open>The size that is reserved for a literal and the size by which the code is left agree.\<close>

lemma copy_size: "round_up (16 + len) div 8 - 2 = round_up len div 8"
  by (simp add: round_up_eq)

lemma cells_text_prefix: "cells_text (text_cells n t) = take (8 * n) t"
proof (induction n)
  case (Suc n)
  have "take (8 * n + 8) t = take (8 * n) t @ take 8 (drop (8 * n) t)" by (rule take_add)
  then show ?case using Suc by (simp add: text_cells_def cells_text_def add.commute)
qed (simp add: text_cells_def cells_text_def)

lemma length_text_cells [simp]: "length (text_cells n t) = n"
  by (simp add: text_cells_def)

lemma cells_text_all: "length t = len \<Longrightarrow> cells_text (text_cells (round_up len div 8) t) = t"
  by (simp add: cells_text_prefix round_up_eq)

section \<open>Instructions\<close>

datatype instr = Write string | Write_var nat | Write_capture nat | Full_name nat

fun length_cells :: "instr \<Rightarrow> cell list" where
  "length_cells (Write t) = [Code Copy_len_code, Num (length t)]"
| "length_cells (Write_var i) = [Code Var_len_code, Num i]"
| "length_cells (Write_capture n) = [Code Capture_len_code, Num n]"
| "length_cells (Full_name b) = [Code Full_name_len_code, Num b]"

fun value_cells :: "instr \<Rightarrow> cell list" where
  "value_cells (Write t) = [Code Copy_code, Num (length t)] @ text_cells (round_up (length t) div 8) t"
| "value_cells (Write_var i) = [Code Var_code, Num i]"
| "value_cells (Write_capture n) = [Code Capture_code, Num n]"
| "value_cells (Full_name b) = [Code Full_name_code, Num b]"

definition lengths_of :: "instr list \<Rightarrow> cell list" where
  "lengths_of is = concat (map length_cells is) @ [Null]"

definition values_of :: "instr list \<Rightarrow> cell list" where
  "values_of is = concat (map value_cells is) @ [Null]"

text \<open>What an instruction writes when its variable is resolved.\<close>

definition capture_text :: "vsess \<Rightarrow> nat \<Rightarrow> string" where
  "capture_text s n = (if n < s_ncaptures s
     then case capture_pair s n of
            None \<Rightarrow> [] | Some (a, b) \<Rightarrow> (case copy_from (s_captures_data s) a (capture_len a b) of None \<Rightarrow> [] | Some t \<Rightarrow> t)
     else [])"

fun instr_text :: "vsess \<Rightarrow> instr \<Rightarrow> string" where
  "instr_text s (Write t) = t"
| "instr_text s (Write_var i) = seen s i"
| "instr_text s (Write_capture n) = capture_text s n"
| "instr_text s (Full_name b) = []"

text \<open>The captures of a session are what a successful match leaves: every pair lies in the subject or is empty.\<close>

definition captures_ok :: "vsess \<Rightarrow> bool" where
  "captures_ok s \<longleftrightarrow> (\<forall>n. even n \<longrightarrow> n < s_ncaptures s \<longrightarrow> (\<exists>a b t. capture_pair s n = Some (a, b)
     \<and> copy_from (s_captures_data s) a (capture_len a b) = Some t))"

fun instr_ok :: "vconf \<Rightarrow> instr \<Rightarrow> bool" where
  "instr_ok c (Write_var i) \<longleftrightarrow> i < length (variables c)"
| "instr_ok c (Full_name b) \<longleftrightarrow> False"
| "instr_ok c (Write_capture n) \<longleftrightarrow> even n"
| "instr_ok c (Write t) \<longleftrightarrow> True"

fun instr_resolved :: "vsess \<Rightarrow> instr \<Rightarrow> bool" where
  "instr_resolved s (Write_var i) \<longleftrightarrow> resolved s i"
| "instr_resolved s _ \<longleftrightarrow> True"

lemma copy_from_length: "copy_from t a n = Some u \<Longrightarrow> length u = n"
  by (auto simp: copy_from_def split: if_splits)

section \<open>One pass\<close>

text \<open>The reference on instructions: each is replaced by its text, once and from left to right.\<close>

fun subst_instr :: "vconf \<Rightarrow> instr \<Rightarrow> vsess \<Rightarrow> (string, vsess) run" where
  "subst_instr c (Write t) s = Ret t s"
| "subst_instr c (Write_var i) s = bind_run (ngx_nsoc_get_indexed_variable c s i) (\<lambda>r s1. Ret (shown r s1) s1)"
| "subst_instr c (Write_capture n) s = Ret (capture_text s n) s"
| "subst_instr c (Full_name b) s = Ret [] s"

fun subst_instrs :: "vconf \<Rightarrow> instr list \<Rightarrow> vsess \<Rightarrow> (string, vsess) run" where
  "subst_instrs c [] s = Ret [] s"
| "subst_instrs c (i # is) s =
     bind_run (subst_instr c i s) (\<lambda>t s1. bind_run (subst_instrs c is s1) (\<lambda>u s2. Ret (t @ u) s2))"

text \<open>Later states keep what was resolved, and the captures.\<close>

definition advanced :: "vsess \<Rightarrow> vsess \<Rightarrow> bool" where
  "advanced s s' \<longleftrightarrow> (\<forall>j. resolved s j \<longrightarrow> resolved s' j \<and> seen s' j = seen s j)
     \<and> s_ncaptures s' = s_ncaptures s \<and> s_captures s' = s_captures s \<and> s_captures_data s' = s_captures_data s"

lemma advanced_refl [simp]: "advanced s s"
  by (simp add: advanced_def)

lemma advanced_trans: "advanced a b \<Longrightarrow> advanced b c \<Longrightarrow> advanced a c"
  by (simp add: advanced_def)

lemma evaluated_advanced: "evaluated i s s' \<Longrightarrow> advanced s s'"
  by (simp add: advanced_def evaluated_keeps evaluated_frame)

lemma advanced_captures: "advanced s s' \<Longrightarrow> captures_ok s' = captures_ok s" "advanced s s' \<Longrightarrow> capture_text s' n = capture_text s n"
proof -
  have "capture_pair s' = capture_pair s" if "advanced s s'" using that by (auto simp: advanced_def capture_pair_def)
  then show "advanced s s' \<Longrightarrow> captures_ok s' = captures_ok s" "advanced s s' \<Longrightarrow> capture_text s' n = capture_text s n"
    by (simp_all add: advanced_def captures_ok_def capture_text_def split: option.split)
qed

lemma advanced_text: "advanced s s' \<Longrightarrow> instr_resolved s i \<Longrightarrow> instr_text s' i = instr_text s i"
  by (cases i) (simp_all add: advanced_captures, simp add: advanced_def)

lemma advanced_resolved: "advanced s s' \<Longrightarrow> instr_resolved s i \<Longrightarrow> instr_resolved s' i"
  by (cases i) (simp_all add: advanced_def)

lemma found_shown:
  assumes "\<forall>v. r = Some v \<longrightarrow> settled (get_slot s v)"
  shows "(case found r s of Some x \<Rightarrow> vv_len x | None \<Rightarrow> 0) = length (shown r s)"
    and "found r s = None \<Longrightarrow> shown r s = []" and "found r s = Some x \<Longrightarrow> shown r s = vv_data x \<and> vv_len x = length (vv_data x)"
  using assms by (auto simp: found_def shown_def settled_def split: option.splits if_splits)

lemma capture_text_length:
  assumes "captures_ok s" and "even n" and "n < s_ncaptures s"
  shows "\<exists>a b. capture_pair s n = Some (a, b) \<and> copy_from (s_captures_data s) a (capture_len a b) = Some (capture_text s n)
    \<and> length (capture_text s n) = capture_len a b"
proof -
  obtain a b t where 1: "capture_pair s n = Some (a, b)" "copy_from (s_captures_data s) a (capture_len a b) = Some t"
    using assms unfolding captures_ok_def by blast
  then have "capture_text s n = t" using assms(3) by (simp add: capture_text_def)
  then show ?thesis using 1 copy_from_length by blast
qed

lemma run_lengths_step:
  assumes "length_cells i = [Code f, Num a]"
  shows "run_lengths c fl (pre @ lengths_of (i # is)) (length pre) len s
    = bind_run (length_code c fl f a s) (\<lambda>n s1.
        run_lengths c fl ((pre @ length_cells i) @ lengths_of is) (length (pre @ length_cells i)) (len + n) s1)"
  by (subst run_lengths.simps) (simp add: lengths_of_def assms operand_def nth_append)

lemma run_lengths_end: "run_lengths c fl (pre @ lengths_of []) (length pre) len s = Ret len s"
  by (subst run_lengths.simps) (simp add: lengths_of_def)

lemma same_but_pool:
  "seen (s\<lparr>s_pool := p\<rparr>) = seen s" "resolved (s\<lparr>s_pool := p\<rparr>) = resolved s" "capture_pair (s\<lparr>s_pool := p\<rparr>) = capture_pair s"
  "capture_text (s\<lparr>s_pool := p\<rparr>) = capture_text s"
proof -
  show "capture_pair (s\<lparr>s_pool := p\<rparr>) = capture_pair s" by (rule ext) (simp add: capture_pair_def)
  then show "capture_text (s\<lparr>s_pool := p\<rparr>) = capture_text s" by (intro ext) (simp add: capture_text_def split: option.split)
qed (rule ext, simp add: seen_def resolved_def)+

context leaf_handlers
begin

lemma instr_step:
  assumes "handled_by hs c" and "sound_session c s" and "captures_ok s" and "instr_ok c i"
  shows "\<exists>f a s'. length_cells i = [Code f, Num a] \<and> length_code c True f a s = Ret (length (instr_text s' i)) s'
    \<and> subst_instr c i s = Ret (instr_text s' i) s' \<and> sound_session c s' \<and> advanced s s' \<and> instr_resolved s' i"
proof (cases i)
  case (Write_var k)
  then obtain r s' where get: "ngx_nsoc_get_indexed_variable c s k = Ret r s'" and ev: "evaluated k s s'"
    and seen: "shown r s' = seen s' k" and r: "\<forall>v. r = Some v \<longrightarrow> v = Slot k \<and> settled (get_slot s' v)"
    using get_indexed_evaluates [OF assms(1,2), of k] assms(4) by auto
  have "resolved s' k" using ev by (simp add: evaluated_def)
  then show ?thesis
    using Write_var get seen r found_shown(1) [of r s'] evaluated_sound [OF ev assms(2)] evaluated_advanced [OF ev]
    by (simp add: length_code_def get_for_code_def)
next
  case (Write_capture n)
  then show ?thesis using assms capture_text_length [OF assms(3), of n]
    by (cases "n < s_ncaptures s") (auto simp: length_code_def capture_text_def)
qed (use assms in \<open>auto simp: length_code_def\<close>)

lemma lengths_pass:
  assumes "handled_by hs c" and "sound_session c s" and "captures_ok s" and "\<forall>i \<in> set is. instr_ok c i"
  shows "\<exists>s'. run_lengths c True (pre @ lengths_of is) (length pre) len s
        = Ret (len + length (concat (map (instr_text s') is))) s'
    \<and> subst_instrs c is s = Ret (concat (map (instr_text s') is)) s'
    \<and> sound_session c s' \<and> advanced s s' \<and> (\<forall>i \<in> set is. instr_resolved s' i)"
  using assms(2-)
proof (induction "is" arbitrary: pre len s)
  case Nil
  then show ?case by (simp add: run_lengths_end)
next
  case (Cons i "is")
  obtain f a s1 where 1: "length_cells i = [Code f, Num a]"
      "length_code c True f a s = Ret (length (instr_text s1 i)) s1"
      "subst_instr c i s = Ret (instr_text s1 i) s1" "sound_session c s1" "advanced s s1" "instr_resolved s1 i"
    using instr_step [OF assms(1) Cons.prems(1,2)] Cons.prems(3) by fastforce
  have "captures_ok s1" using Cons.prems(2) 1(5) by (simp add: advanced_captures)
  then obtain s2 where 2: "run_lengths c True ((pre @ length_cells i) @ lengths_of is) (length (pre @ length_cells i))
        (len + length (instr_text s1 i)) s1
      = Ret (len + length (instr_text s1 i) + length (concat (map (instr_text s2) is))) s2"
      "subst_instrs c is s1 = Ret (concat (map (instr_text s2) is)) s2"
      "sound_session c s2" "advanced s1 s2" "\<forall>i \<in> set is. instr_resolved s2 i"
    using Cons.IH [OF 1(4), of "pre @ length_cells i" "len + length (instr_text s1 i)"] Cons.prems(3) by fastforce
  then show ?case
    using run_lengths_step [OF 1(1), of c True pre "is" len s] 1 advanced_text [OF 2(4) 1(6)] advanced_resolved [OF 2(4) 1(6)]
      advanced_trans [OF 1(5) 2(4)]
    by (intro exI [of _ s2]) (simp add: add.assoc)
qed

text \<open>A resolved instruction writes its text, if there is room for it, and changes nothing else.\<close>

lemma value_step:
  assumes "handled_by hs c" and "sound_session c s" and "captures_ok s" and "instr_ok c i" and "instr_resolved s i"
    and "e_ip e = length pre" and "e_flushed e" and "length (e_out e) + length (instr_text s i) \<le> e_room e"
  shows "\<exists>f a. value_cells i ! 0 = Code f \<and> value_cells i ! 1 = Num a \<and> 2 \<le> length (value_cells i)
    \<and> value_code S c (pre @ value_cells i @ post) f a e s
      = Ret (e\<lparr>e_ip := length (pre @ value_cells i), e_out := e_out e @ instr_text s i\<rparr>, False) s"
proof (cases i)
  case (Write t)
  have "take (round_up (length t) div 8) (drop (length pre + 2) (pre @ value_cells i @ post))
      = text_cells (round_up (length t) div 8) t"
    by (simp add: Write)
  then show ?thesis using assms Write
    by (simp add: value_code_def ngx_nsoc_script_copy_code_def emit_def cells_text_all)
next
  case (Write_var k)
  then obtain r s' where get: "ngx_nsoc_get_indexed_variable c s k = Ret r s'" and ev: "evaluated k s s'"
    and seen: "shown r s' = seen s' k" and r: "\<forall>v. r = Some v \<longrightarrow> v = Slot k \<and> settled (get_slot s' v)"
    using get_indexed_evaluates [OF assms(1,2), of k] assms(4) by auto
  have s': "s' = s" using ev assms(5) Write_var by (simp add: evaluated_def)
  then have f: "\<forall>v. r = Some v \<longrightarrow> settled (get_slot s v)" using r by simp
  show ?thesis
  proof (cases "found r s")
    case None
    then show ?thesis using assms Write_var get seen s' found_shown(2) [OF f]
      by (simp add: value_code_def ngx_nsoc_script_copy_var_code_def get_for_code_def)
  next
    case (Some x)
    then show ?thesis using assms Write_var get seen s' found_shown(3) [OF f]
      by (simp add: value_code_def ngx_nsoc_script_copy_var_code_def get_for_code_def emit_def)
  qed
next
  case (Write_capture n)
  show ?thesis
  proof (cases "n < s_ncaptures s")
    case True
    then show ?thesis using assms Write_capture capture_text_length [OF assms(3), of n]
      by (auto simp: value_code_def ngx_nsoc_script_copy_capture_code_def emit_def)
  next
    case False
    then show ?thesis using assms Write_capture
      by (simp add: value_code_def ngx_nsoc_script_copy_capture_code_def capture_text_def)
  qed
qed (use assms(4) in simp)

lemma values_pass:
  assumes "handled_by hs c" and "sound_session c s" and "captures_ok s"
    and "\<forall>i \<in> set is. instr_ok c i \<and> instr_resolved s i" and "e_ip e = length pre" and "e_flushed e"
    and "length (e_out e) + length (concat (map (instr_text s) is)) \<le> e_room e" and "length is < fuel"
  shows "\<exists>ip. run_values fuel S c (pre @ values_of is) e s
    = Ret (e\<lparr>e_ip := ip, e_out := e_out e @ concat (map (instr_text s) is)\<rparr>) s"
  using assms(4-)
proof (induction "is" arbitrary: pre e fuel)
  case Nil
  then obtain n where "fuel = Suc n" by (cases fuel) auto
  then show ?case using Nil by (intro exI [of _ "length pre"]) (simp add: values_of_def)
next
  case (Cons i "is")
  obtain n where n: "fuel = Suc n" "length is < n" using Cons.prems(5) by (cases fuel) auto
  let ?post = "values_of is"
  have eq: "values_of (i # is) = value_cells i @ ?post" by (simp add: values_of_def)
  let ?e = "e\<lparr>e_ip := length (pre @ value_cells i), e_out := e_out e @ instr_text s i\<rparr>"
  obtain f a where f: "value_cells i ! 0 = Code f" "value_cells i ! 1 = Num a" "2 \<le> length (value_cells i)"
    and step: "value_code S c (pre @ value_cells i @ ?post) f a e s = Ret (?e, False) s"
    using value_step [OF assms(1-3), of i e pre S ?post] Cons.prems by auto
  have "(pre @ values_of (i # is)) ! length pre = Code f"
    and "operand (pre @ values_of (i # is)) (length pre) = Some a"
    using f by (auto simp: eq nth_append operand_def)
  then have "run_values fuel S c (pre @ values_of (i # is)) e s
      = run_values n S c ((pre @ value_cells i) @ ?post) ?e s"
    using step Cons.prems(2) f(3) by (auto simp: n(1) eq)
  moreover have "\<exists>ip. run_values n S c ((pre @ value_cells i) @ ?post) ?e s
      = Ret (?e\<lparr>e_ip := ip, e_out := e_out ?e @ concat (map (instr_text s) is)\<rparr>) s"
    using Cons.prems n(2) by (intro Cons.IH) auto
  ultimately show ?case by auto
qed

text \<open>
  The two passes together: the first computes the length of what the second writes, and the
  result is that of the single pass of the reference.
\<close>

lemma two_passes:
  assumes "handled_by hs c" and "sound_session c s" and "captures_ok s" and "\<forall>i \<in> set is. instr_ok c i"
  shows "\<exists>s' t. subst_instrs c is s = Ret t s' \<and> run_lengths c True (lengths_of is) 0 0 s = Ret (length t) s'
    \<and> (\<forall>p. \<exists>ip. run_values (length (values_of is)) S c (values_of is)
          \<lparr>e_ip = 0, e_out = [], e_room = length t, e_buf = None, e_flushed = True\<rparr> (s'\<lparr>s_pool := p\<rparr>)
        = Ret \<lparr>e_ip = ip, e_out = t, e_room = length t, e_buf = None, e_flushed = True\<rparr> (s'\<lparr>s_pool := p\<rparr>))"
proof -
  obtain s' where s': "run_lengths c True (lengths_of is) 0 0 s = Ret (length (concat (map (instr_text s') is))) s'"
      "subst_instrs c is s = Ret (concat (map (instr_text s') is)) s'" "sound_session c s'" "advanced s s'"
      "\<forall>i \<in> set is. instr_resolved s' i"
    using lengths_pass [OF assms, of "[]" 0] by auto
  let ?t = "concat (map (instr_text s') is)"
  have len: "length is < length (values_of is)"
  proof -
    have "length is \<le> length (concat (map value_cells is))"
      by (induction "is") (simp, case_tac a, simp_all)
    then show ?thesis by (simp add: values_of_def)
  qed
  have "\<exists>ip. run_values (length (values_of is)) S c (values_of is)
      \<lparr>e_ip = 0, e_out = [], e_room = length ?t, e_buf = None, e_flushed = True\<rparr> (s'\<lparr>s_pool := p\<rparr>)
    = Ret \<lparr>e_ip = ip, e_out = ?t, e_room = length ?t, e_buf = None, e_flushed = True\<rparr> (s'\<lparr>s_pool := p\<rparr>)" for p
  proof -
    let ?s = "s'\<lparr>s_pool := p\<rparr>"
    have pool: "instr_text ?s = instr_text s'" "instr_resolved ?s = instr_resolved s'"
      by (rule ext, case_tac x; simp add: same_but_pool)+
    have "sound_session c ?s" "captures_ok ?s"
      using s'(3) assms(3) advanced_captures(1) [OF s'(4)]
      by (simp_all add: sound_session_def captures_ok_def same_but_pool)
    then show ?thesis
      using values_pass [OF assms(1), of ?s "is" "\<lparr>e_ip = 0, e_out = [], e_room = length ?t, e_buf = None, e_flushed = True\<rparr>"
          "[]" "length (values_of is)" S] assms(4) s'(5) pool len by auto
  qed
  then show ?thesis using s'(1,2) by auto
qed

end

end
