(* ===== verification/Nsoc_Upstream_Vars.thy ===== *)
theory Nsoc_Upstream_Vars
  imports Nsoc_Var_Laws
begin

text \<open>
  The variables of the upstream module (\<open>src/ngx_nsoc_upstream.c\<close>, first half): addresses, byte counts
  and times of every peer a session turned to, printed into one block of memory that is sized
  in advance. Together with the core handlers they are the handlers of the program.
\<close>

section \<open>Handlers\<close>

definition upstream_flags :: "vval \<Rightarrow> vval" where
  "upstream_flags v = v\<lparr>vv_valid := True, vv_no_cacheable := False, vv_not_found := False\<rparr>"

text \<open>The entries with a comma and a blank between them.\<close>

fun comma_list :: "string list \<Rightarrow> string" where
  "comma_list [] = []"
| "comma_list [t] = t"
| "comma_list (t # ts) = t @ '', '' @ comma_list ts"

text \<open>The common course of the three handlers, for the room allocated and the entries written.\<close>

definition print_states :: "nat \<Rightarrow> (upstream_state \<Rightarrow> string) \<Rightarrow> vsess \<Rightarrow> vslot \<Rightarrow> (int, vsess) run" where
  "print_states room entry s v =
     (let s1 = upd_slot v upstream_flags s; states = s_states (s_env s)
      in if states = [] then Ret NGX_OK (upd_slot v (\<lambda>x. x\<lparr>vv_not_found := True\<rparr>) s1)
         else print_answer room (comma_list (map entry states)) s1 v)"

text \<open>A state whose peer is not set yet has the empty name.\<close>

definition ngx_nsoc_upstream_addr_variable :: handler where
  "ngx_nsoc_upstream_addr_variable s v data =
     print_states (sum_list (map (\<lambda>st. length (ust_peer st) + 2) (s_states (s_env s)))) ust_peer s v"

definition ngx_nsoc_upstream_bytes_variable :: handler where
  "ngx_nsoc_upstream_bytes_variable s v data =
     print_states (length (s_states (s_env s)) * (NGX_OFF_T_LEN + 2))
       (\<lambda>st. print_int (if data = Number 1 then ust_bytes_received st else ust_bytes_sent st)) s v"

text \<open>Unsigned milliseconds read as a signed number.\<close>

definition msec_text :: "nat \<Rightarrow> string" where
  "msec_text ms = ms_text (signed_take_bit 63 (int ms))"

definition time_entry :: "vdata \<Rightarrow> upstream_state \<Rightarrow> string" where
  "time_entry data st =
     (if data = Number 1
      then (case ust_first_byte_time st of None \<Rightarrow> ''-'' | Some ms \<Rightarrow> msec_text ms)
      else case ust_connect_time st of
        Some ms \<Rightarrow> msec_text (if data = Number 2 then ms else ust_response_time st)
      | None \<Rightarrow> msec_text (ust_response_time st))"

definition ngx_nsoc_upstream_response_time_variable :: handler where
  "ngx_nsoc_upstream_response_time_variable s v data =
     print_states (length (s_states (s_env s)) * (NGX_TIME_T_LEN + 4 + 2)) (time_entry data) s v"

definition ngx_nsoc_upstream_vars :: "variable list" where
  "ngx_nsoc_upstream_vars =
    [core_variable ''upstream_addr'' ngx_nsoc_upstream_addr_variable 0 NGX_NSOC_VAR_NOCACHEABLE,
     core_variable ''upstream_bytes_sent'' ngx_nsoc_upstream_bytes_variable 0 NGX_NSOC_VAR_NOCACHEABLE,
     core_variable ''upstream_connect_time'' ngx_nsoc_upstream_response_time_variable 2 NGX_NSOC_VAR_NOCACHEABLE,
     core_variable ''upstream_first_byte_time'' ngx_nsoc_upstream_response_time_variable 1 NGX_NSOC_VAR_NOCACHEABLE,
     core_variable ''upstream_session_time'' ngx_nsoc_upstream_response_time_variable 0 NGX_NSOC_VAR_NOCACHEABLE,
     core_variable ''upstream_bytes_received'' ngx_nsoc_upstream_bytes_variable 1 NGX_NSOC_VAR_NOCACHEABLE]"

definition ngx_nsoc_upstream_add_variables :: "var_lib \<Rightarrow> vconf \<Rightarrow> (int, vconf) run" where
  "ngx_nsoc_upstream_add_variables L c = add_table L copy_handler ngx_nsoc_upstream_vars c"

section \<open>They are leaf handlers\<close>

lemma length_comma_list: "length (comma_list ts) \<le> sum_list (map (\<lambda>t. length t + 2) ts)"
  by (induction ts rule: comma_list.induct) auto

lemma comma_list_room:
  assumes "\<forall>st \<in> set sts. length (entry st) \<le> n"
  shows "length (comma_list (map entry sts)) \<le> length sts * (n + 2)"
proof -
  have "sum_list (map (\<lambda>t. length t + 2) (map entry sts)) \<le> length sts * (n + 2)"
    using assms by (induction sts) auto
  then show ?thesis using length_comma_list [of "map entry sts"] by linarith
qed

lemma leaf_print_states:
  assumes "slot_ok s v" and "length (comma_list (map entry (s_states (s_env s)))) \<le> room"
  shows "leaf_run s v (print_states room entry s v)"
proof (cases "s_states (s_env s) = []")
  case True
  then have "print_states room entry s v
      = Ret NGX_OK (upd_slot v (\<lambda>x. x\<lparr>vv_not_found := True\<rparr>) (upd_slot v upstream_flags s))"
    by (simp add: print_states_def del: upd_slot_twice)
  then show ?thesis using leaf_run_prepared [OF assms(1) leaf_not_found, of upstream_flags] by (simp del: upd_slot_twice)
next
  case False
  have "leaf_run (upd_slot v upstream_flags s) v
      (print_answer room (comma_list (map entry (s_states (s_env s)))) (upd_slot v upstream_flags s) v)"
    using assms by (intro leaf_print_answer) simp_all
  then show ?thesis unfolding print_states_def Let_def
    by (simp only: False if_False) (rule leaf_run_prepared [OF assms(1)])
qed

lemma length_msec_text: "length (msec_text ms) \<le> 24"
  unfolding msec_text_def by (rule length_ms_text [OF i64_signed])

lemma leaf_upstream_handlers [simp]:
  "leaf_handler ngx_nsoc_upstream_addr_variable"
  "leaf_handler ngx_nsoc_upstream_bytes_variable"
  "leaf_handler ngx_nsoc_upstream_response_time_variable"
proof -
  show "leaf_handler ngx_nsoc_upstream_addr_variable"
    unfolding leaf_handler_def ngx_nsoc_upstream_addr_variable_def
    by (intro allI impI leaf_print_states)
      (use length_comma_list [of "map ust_peer sts" for sts] in \<open>simp_all add: comp_def\<close>)
  show "leaf_handler ngx_nsoc_upstream_bytes_variable"
    unfolding leaf_handler_def ngx_nsoc_upstream_bytes_variable_def
    by (intro allI impI leaf_print_states comma_list_room) (auto simp: venv_ok_def length_print_int)
  have "length (time_entry d st) \<le> 24" for d st
    using length_msec_text by (simp add: time_entry_def split: option.split)
  then show "leaf_handler ngx_nsoc_upstream_response_time_variable"
    unfolding leaf_handler_def ngx_nsoc_upstream_response_time_variable_def
    by (intro allI impI leaf_print_states comma_list_room) auto
qed

definition nsoc_handlers :: "handler set" where
  "nsoc_handlers = core_handlers \<union> {h. \<exists>v \<in> set ngx_nsoc_upstream_vars. v_get v = Some h}"

interpretation nsoc: leaf_handlers nsoc_handlers
proof
  fix h
  assume "h \<in> nsoc_handlers"
  then show "leaf_handler h"
    using core.leaf by (auto simp: nsoc_handlers_def ngx_nsoc_upstream_vars_def core_variable_def)
qed

lemma upstream_vars_step:
  assumes "ngx_nsoc_upstream_add_variables L c = Ret rc c'"
  shows "conf_step nsoc_handlers L c c'"
proof (rule conf_module)
  show "add_table L copy_handler ngx_nsoc_upstream_vars c = Ret rc c'"
    using assms by (simp add: ngx_nsoc_upstream_add_variables_def)
  show "\<forall>cv \<in> set ngx_nsoc_upstream_vars. \<not> flag (v_flags cv) NGX_NSOC_VAR_PREFIX \<and> set_option (v_get cv) \<subseteq> nsoc_handlers"
    by (auto simp: nsoc_handlers_def ngx_nsoc_upstream_vars_def core_variable_def flag_def)
qed

section \<open>Variables of an accepted configuration\<close>

lemma configured_table:
  assumes "ngx_nsoc_variables_add_core_vars L c0 = Ret NGX_OK c1" and "variables c0 = []"
    and "(conf_step nsoc_handlers L)\<^sup>*\<^sup>* c1 c2"
  shows "table_in nsoc_handlers c2 \<and> names_extend c1 c2"
proof -
  have "table_in nsoc_handlers c1"
    by (rule add_core_vars_table [OF assms(1,2)]) (auto simp: nsoc_handlers_def)
  then show ?thesis using conf_steps_table [OF assms(3)] by (auto simp: nsoc_handlers_def core_handlers_def)
qed

lemma handled_evaluates:
  assumes "handled_by nsoc_handlers c" and "sound_session c s" and "i < length (variables c)"
  shows "\<exists>r s'. ngx_nsoc_get_indexed_variable c s i = Ret r s' \<and> sound_session c s'
    \<and> (\<forall>j. j \<noteq> i \<longrightarrow> s_variables s' ! j = s_variables s ! j)
    \<and> (\<forall>v. r = Some v \<longrightarrow> v = Slot i \<and> settled (get_slot s' v))"
proof -
  obtain r s' where r: "ngx_nsoc_get_indexed_variable c s i = Ret r s'" and ev: "evaluated i s s'"
    and v: "\<forall>v. r = Some v \<longrightarrow> v = Slot i \<and> settled (get_slot s' v)"
    using nsoc.get_indexed_evaluates [OF assms] by blast
  have "s_variables s' ! j = s_variables s ! j" if "j \<noteq> i" for j using ev that by (auto simp: evaluated_def)
  then show ?thesis using r v evaluated_sound [OF ev assms(2)] by blast
qed

text \<open>
  C14: After an accepted configuration (the core variables, then any sequence of
  index requests, regular expressions and tables of the program's modules, then
  \<open>ngx_nsoc_variables_init_vars\<close>) every indexed variable can be evaluated in a well-formed session:
  \<open>ngx_nsoc_get_indexed_variable\<close> returns, no handler is a null pointer or writes beyond the memory it
  allocated, the session stays well-formed, only the value of this variable changes, and a
  value that is returned is settled.
\<close>

theorem configured_variables_evaluate:
  assumes "ngx_nsoc_variables_add_core_vars L c0 = Ret NGX_OK c1" and "variables c0 = []"
    and "(conf_step nsoc_handlers L)\<^sup>*\<^sup>* c1 c2" and "ngx_nsoc_variables_init_vars L c2 = Ret NGX_OK c"
    and "sound_session c s" and "i < length (variables c)"
  shows "\<exists>r s'. ngx_nsoc_get_indexed_variable c s i = Ret r s' \<and> sound_session c s'
    \<and> (\<forall>j. j \<noteq> i \<longrightarrow> s_variables s' ! j = s_variables s ! j)
    \<and> (\<forall>v. r = Some v \<longrightarrow> v = Slot i \<and> settled (get_slot s' v))"
  using handled_evaluates [OF init_vars_ok(1) [OF assms(4) configured_table [OF assms(1-3), THEN conjunct1]] assms(5,6)] .

fun run_state :: "('a, 's) run \<Rightarrow> 's \<Rightarrow> 's" where
  "run_state (Ret a s) d = s"
| "run_state _ d = d"

fun run_value :: "('a, 's) run \<Rightarrow> 'a option" where
  "run_value (Ret a s) = Some a"
| "run_value _ = None"

lemma run_eta: "run_value r = Some a \<Longrightarrow> r = Ret a (run_state r d)"
  by (cases r) simp_all

definition demo_table :: vconf where
  "demo_table = run_state (ngx_nsoc_variables_add_core_vars demo_var_lib empty_vconf) empty_vconf"

definition demo_upstream_table :: vconf where
  "demo_upstream_table = run_state (ngx_nsoc_upstream_add_variables demo_var_lib demo_table) empty_vconf"

definition demo_read :: vconf where
  "demo_read = snd (ngx_nsoc_get_variable_index demo_var_lib
     (snd (ngx_nsoc_get_variable_index demo_var_lib demo_upstream_table ''protocol'')) ''Status'')"

definition demo_vars :: vconf where
  "demo_vars = run_state (ngx_nsoc_variables_init_vars demo_var_lib demo_read) empty_vconf"

definition demo_venv :: venv where
  "demo_venv = \<lparr>c_peer = (Inet 2130706433, 80), c_addr_text = ''127.0.0.1'', c_pp_addr = [], c_pp_port = 0,
     c_local = Some (Inet 2130706433, 90, ''127.0.0.1''), c_bytes_sent = 17, c_number = 3, c_sock_type = SOCK_STREAM,
     s_bytes_received = 42, s_start = (1000, 2), s_status = 99, s_states = [], cy_hostname = ''host'',
     cy_prefix = ''/p/'', cy_conf_prefix = ''/c/'', ngx_pid = 7, ngx_timeofday = (1001, 3), log_iso8601 = ''iso'',
     log_time = ''log'', NGINX_VERSION = ''1.11.5''\<rparr>"

definition zero_value :: vval where
  "zero_value = \<lparr>vv_len = 0, vv_valid = False, vv_no_cacheable = False, vv_not_found = False, vv_data = []\<rparr>"

definition demo_vsess :: vsess where
  "demo_vsess = \<lparr>s_variables = [zero_value, zero_value], s_values = [], s_uninit = zero_value, s_ncaptures = 0,
     s_captures = None, s_captures_data = [], s_pool = [], var_depth = 100, s_env = demo_venv\<rparr>"

lemma demo_core: "ngx_nsoc_variables_add_core_vars demo_var_lib empty_vconf = Ret NGX_OK demo_table"
  unfolding demo_table_def by (rule run_eta) code_simp

lemma demo_upstream: "ngx_nsoc_upstream_add_variables demo_var_lib demo_table = Ret NGX_OK demo_upstream_table"
  unfolding demo_upstream_table_def by (rule run_eta) code_simp

lemma demo_init: "ngx_nsoc_variables_init_vars demo_var_lib demo_read = Ret NGX_OK demo_vars"
  unfolding demo_vars_def by (rule run_eta) code_simp

lemma demo_steps: "(conf_step nsoc_handlers demo_var_lib)\<^sup>*\<^sup>* demo_table demo_read"
proof -
  have "(conf_step nsoc_handlers demo_var_lib)\<^sup>*\<^sup>* demo_table demo_upstream_table"
    using upstream_vars_step [OF demo_upstream] by (rule r_into_rtranclp)
  then have "(conf_step nsoc_handlers demo_var_lib)\<^sup>*\<^sup>* demo_table
      (snd (ngx_nsoc_get_variable_index demo_var_lib demo_upstream_table ''protocol''))"
    by (rule rtranclp.rtrancl_into_rtrancl) (rule conf_index)
  then show ?thesis unfolding demo_read_def
    by (rule rtranclp.rtrancl_into_rtrancl) (rule conf_index)
qed

lemma demo_vars_length: "length (variables demo_vars) = 2"
  by code_simp

lemma demo_sound: "sound_session demo_vars demo_vsess"
  by (simp add: sound_session_def demo_vars_length demo_vsess_def demo_venv_def venv_ok_def i64_def value_ok_def zero_value_def)

theorem configured_variables_evaluate_witness:
  "\<exists>r s'. ngx_nsoc_get_indexed_variable demo_vars demo_vsess 1 = Ret r s' \<and> sound_session demo_vars s'"
  using configured_variables_evaluate [OF demo_core _ demo_steps demo_init demo_sound, of 1]
  by (auto simp: empty_vconf_def demo_vars_length)

end
