(* ===== verification/Nsoc_Template.thy ===== *)
theory Nsoc_Template
  imports Nsoc_Script_Eval Nsoc_Upstream_Vars
begin

text \<open>
  What the compiler of \<open>Nsoc_Script\<close> accepts and what a compiled template evaluates to: the code
  of an accepted template is that of its parse, and its value is the substitution of the parse.
\<close>

section \<open>Templates\<close>

datatype piece = Lit string | Var string | Cap nat

abbreviation literal_char :: "char \<Rightarrow> bool" where "literal_char ch \<equiv> ch \<noteq> CHR ''$''"

function parse :: "string \<Rightarrow> piece list option" where
  "parse [] = Some []"
| "parse (ch # rest) =
     (if ch \<noteq> CHR ''$'' then
        map_option ((#) (Lit (takeWhile literal_char (ch # rest)))) (parse (dropWhile literal_char (ch # rest)))
      else if rest \<noteq> [] \<and> capture_char (hd rest) then
        map_option ((#) (Cap (of_char (hd rest) - 48))) (parse (tl rest))
      else if rest \<noteq> [] \<and> hd rest = CHR ''{'' then
        (let name = takeWhile name_char (tl rest); after = dropWhile name_char (tl rest)
         in if name = [] \<or> after = [] \<or> hd after \<noteq> CHR ''}'' then None
            else map_option ((#) (Var name)) (parse (tl after)))
      else
        (let name = takeWhile name_char rest
         in if name = [] then None else map_option ((#) (Var name)) (parse (dropWhile name_char rest))))"
  by pat_completeness auto
termination
proof (relation "measure length", goal_cases)
  case (2 ch rest)
  then show ?case using length_dropWhile_le [of literal_char rest] by (simp add: le_imp_less_Suc)
next
  case (4 ch rest name after)
  then show ?case using length_dropWhile_le [of name_char "tl rest"] by (cases rest) auto
next
  case (5 ch rest name)
  then show ?case using length_dropWhile_le [of name_char rest] by (simp add: le_imp_less_Suc)
qed simp_all

declare parse.simps(2) [simp del]

lemma name_char_simps [simp]: "\<not> name_char (CHR ''}'')" "\<not> name_char (CHR ''{'')" "\<not> name_char (CHR ''$'')"
  "\<not> capture_char (CHR ''{'')" "\<not> capture_char (CHR ''$'')"
  by (simp_all add: name_char_def capture_char_def Let_def)

lemma scan_name_eq:
  assumes "i \<le> length src"
  shows "scan_name src i n br =
    (let name = takeWhile name_char (drop i src); j = i + length name
     in if br \<and> j < length src \<and> src ! j = CHR ''}'' then (j + 1, n + length name, False) else (j, n + length name, br))"
  using assms
proof (induction src i n br rule: scan_name.induct)
  case (1 src i n br)
  show ?case
  proof (cases "i < length src")
    case True
    then have drop: "drop i src = src ! i # drop (i + 1) src" by (simp add: Cons_nth_drop_Suc)
    show ?thesis
    proof (cases "name_char (src ! i)")
      case name: True
      then have "src ! i \<noteq> CHR ''}''" by auto
      then show ?thesis using 1 True name
        by (subst scan_name.simps) (simp add: drop Let_def)
    next
      case False
      then show ?thesis using True by (subst scan_name.simps) (simp add: drop Let_def)
    qed
  next
    case False
    then show ?thesis using 1 by (subst scan_name.simps) (simp add: Let_def)
  qed
qed

section \<open>The effect of adding code\<close>

fun instr_vars :: "instr \<Rightarrow> nat list" where
  "instr_vars (Write_var i) = [i]"
| "instr_vars _ = []"

definition arrays :: "instr list \<Rightarrow> script_compile \<Rightarrow> bool" where
  "arrays is sc \<longleftrightarrow> sc_flushes sc = Some (Some (concat (map instr_vars is)))
     \<and> sc_lengths sc = Some (concat (map length_cells is)) \<and> sc_values sc = Some (concat (map value_cells is))"

text \<open>\<open>adds\<close>: instructions were appended, and the table of variables may have grown.\<close>

definition adds :: "instr list \<Rightarrow> script_compile \<Rightarrow> script_compile \<Rightarrow> bool" where
  "adds is sc sc' \<longleftrightarrow> (\<forall>js. arrays js sc \<longrightarrow> arrays (js @ is) sc') \<and> grown (sc_conf sc) (sc_conf sc')
     \<and> sc_complete_lengths sc' = sc_complete_lengths sc \<and> sc_complete_values sc' = sc_complete_values sc
     \<and> sc_conf_prefix sc' = sc_conf_prefix sc \<and> sc_root_prefix sc' = sc_root_prefix sc"

lemma adds_trans: "adds is a b \<Longrightarrow> adds js b c \<Longrightarrow> adds (is @ js) a c"
  unfolding adds_def using grown_trans by (metis append.assoc)

lemma adds_copy:
  assumes "ngx_nsoc_script_add_copy_code sc value is_last = Some sc'"
  shows "adds [Write (value @ (if sc_zero sc \<and> is_last then [CHR 0x00] else []))] sc sc'"
    and "sc_zero sc' = (sc_zero sc \<and> \<not> is_last)"
  using assms
  by (auto simp: ngx_nsoc_script_add_copy_code_def add_length_code_def add_value_code_def sc_alloc_def Let_def
      adds_def arrays_def copy_size split: if_splits bind_splits)

lemma adds_capture:
  assumes "ngx_nsoc_script_add_capture_code sc n = Some sc'"
  shows "adds [Write_capture (2 * n)] sc sc'" and "sc_zero sc' = sc_zero sc"
  using assms
  by (auto simp: ngx_nsoc_script_add_capture_code_def add_length_code_def add_value_code_def sc_alloc_def Let_def
      adds_def arrays_def split: if_splits bind_splits)

lemma index_of_pool [simp]: "index_of L (c\<lparr>vc_pool := p\<rparr>) name = index_of L c name"
  by (simp add: index_of_def)

lemma adds_var:
  assumes "ngx_nsoc_script_add_var_code S sc name = Some sc'" and "fold_contract (sl_vars S)"
    and "sc_flushes sc = Some (Some fl)"
  shows "\<exists>i. index_of (sl_vars S) (sc_conf sc') name = Some i \<and> adds [Write_var i] sc sc' \<and> sc_zero sc' = sc_zero sc"
proof -
  obtain index c where get: "ngx_nsoc_get_variable_index (sl_vars S) (sc_conf sc) name = (index, c)" by fastforce
  have ok: "index \<noteq> NGX_ERROR" using assms(1) get by (auto simp: ngx_nsoc_script_add_var_code_def)
  have i: "index_of (sl_vars S) c name = Some (nat index)" by (rule get_variable_index_ok(1) [OF get ok assms(2)])
  have "grown (sc_conf sc) c" using get_variable_index_grown [of "sc_conf sc" "sl_vars S" name] get by simp
  then have "grown (sc_conf sc) (c\<lparr>vc_pool := p\<rparr>)" for p using grown_trans grown_pool by blast
  then show ?thesis using assms(1,3) get ok i
    by (auto simp: ngx_nsoc_script_add_var_code_def add_length_code_def add_value_code_def sc_alloc_def Let_def
        adds_def arrays_def split: if_splits bind_splits)
qed

lemma done_code:
  assumes "ngx_nsoc_script_done sc = Some sc'" and "arrays is sc" and "sc_complete_lengths sc" and "sc_complete_values sc"
    and "\<not> sc_conf_prefix sc" and "\<not> sc_root_prefix sc"
  shows "\<exists>js. js = is @ (if sc_zero sc then [Write [CHR 0x00]] else [])
    \<and> sc_flushes sc' = Some (Some (concat (map instr_vars js))) \<and> sc_lengths sc' = Some (lengths_of js)
    \<and> sc_values sc' = Some (values_of js) \<and> grown (sc_conf sc) (sc_conf sc')"
proof -
  obtain sc1 where sc1: "(if sc_zero sc then ngx_nsoc_script_add_copy_code sc [CHR 0x00] False else Some sc) = Some sc1"
    using assms(1) by (auto simp: ngx_nsoc_script_done_def split: bind_splits)
  let ?js = "is @ (if sc_zero sc then [Write [CHR 0x00]] else [])"
  have a: "arrays ?js sc1" "grown (sc_conf sc) (sc_conf sc1)" "sc_complete_lengths sc1" "sc_complete_values sc1"
    "\<not> sc_conf_prefix sc1" "\<not> sc_root_prefix sc1"
    using sc1 assms(2-) adds_copy(1) [of sc "[CHR 0x00]" False sc1] by (auto simp: adds_def split: if_splits)
  obtain p where "sc' = sc1\<lparr>sc_lengths := map_option (\<lambda>a. a @ [Null]) (sc_lengths sc1),
      sc_conf := sc_conf sc1\<lparr>vc_pool := p\<rparr>, sc_values := map_option (\<lambda>a. a @ [Null]) (sc_values sc1)\<rparr>"
    using assms(1) sc1 a(3-6)
    by (auto simp: ngx_nsoc_script_done_def add_length_code_def add_value_code_def sc_alloc_def Let_def split: if_splits)
  then show ?thesis using a(1) grown_trans [OF a(2) grown_pool]
    by (intro exI [of _ ?js]) (simp add: arrays_def lengths_of_def values_of_def)
qed

section \<open>Code of a parse\<close>

fun instr_of :: "var_lib \<Rightarrow> vconf \<Rightarrow> piece \<Rightarrow> instr" where
  "instr_of L c (Lit t) = Write t"
| "instr_of L c (Var n) = Write_var (case index_of L c n of Some i \<Rightarrow> i | None \<Rightarrow> 0)"
| "instr_of L c (Cap n) = Write_capture (2 * n)"

text \<open>The null character asked for goes with the last literal if the template ends with one.\<close>

fun instrs_of :: "var_lib \<Rightarrow> vconf \<Rightarrow> bool \<Rightarrow> piece list \<Rightarrow> instr list" where
  "instrs_of L c zero [] = (if zero then [Write [CHR 0x00]] else [])"
| "instrs_of L c zero (Lit t # ps) =
     (if zero \<and> ps = [] then [Write (t @ [CHR 0x00])] else Write t # instrs_of L c zero ps)"
| "instrs_of L c zero (p # ps) = instr_of L c p # instrs_of L c zero ps"

lemmas instrs_of_induct = instrs_of.induct [case_names End Literal Variable Capture]

definition named_in :: "var_lib \<Rightarrow> vconf \<Rightarrow> piece list \<Rightarrow> bool" where
  "named_in L c ps \<longleftrightarrow> (\<forall>n. Var n \<in> set ps \<longrightarrow> index_of L c n \<noteq> None)"

lemma parse_Nil_iff: "parse src = Some [] \<longleftrightarrow> src = []"
  by (cases src) (auto simp: parse.simps(2) Let_def)

text \<open>The code that compiling the template from position \<open>i\<close> on appends to the instructions there are.\<close>

definition compiled ::
  "script_lib \<Rightarrow> instr list \<Rightarrow> string \<Rightarrow> script_compile \<Rightarrow> script_compile \<Rightarrow> bool" where
  "compiled S js src sc sc' \<longleftrightarrow> (\<exists>ps is. parse src = Some ps \<and> named_in (sl_vars S) (sc_conf sc') ps
     \<and> is = js @ instrs_of (sl_vars S) (sc_conf sc') (sc_zero sc) ps
     \<and> sc_flushes sc' = Some (Some (concat (map instr_vars is))) \<and> sc_lengths sc' = Some (lengths_of is)
     \<and> sc_values sc' = Some (values_of is) \<and> grown (sc_conf sc) (sc_conf sc'))"

lemma compiled_Cons:
  assumes "compiled S (js @ [instr_of (sl_vars S) (sc_conf sc1) p]) rest sc1 sc'"
    and "parse src = map_option ((#) p) (parse rest)" and "named_in (sl_vars S) (sc_conf sc1) [p]"
    and "grown (sc_conf sc) (sc_conf sc1)" and "sc_zero sc1 = sc_zero sc"
    and "\<And>t. p = Lit t \<Longrightarrow> rest \<noteq> [] \<or> \<not> sc_zero sc"
  shows "compiled S js src sc sc'"
proof -
  let ?L = "sl_vars S" and ?c = "sc_conf sc'"
  obtain ps where ps: "parse rest = Some ps" "named_in ?L ?c ps" "grown (sc_conf sc1) ?c"
    and code: "sc_flushes sc' = Some (Some (concat (map instr_vars (js @ [instr_of ?L (sc_conf sc1) p] @ instrs_of ?L ?c (sc_zero sc1) ps))))"
      "sc_lengths sc' = Some (lengths_of (js @ [instr_of ?L (sc_conf sc1) p] @ instrs_of ?L ?c (sc_zero sc1) ps))"
      "sc_values sc' = Some (values_of (js @ [instr_of ?L (sc_conf sc1) p] @ instrs_of ?L ?c (sc_zero sc1) ps))"
    using assms(1) unfolding compiled_def by auto
  have ext: "names_extend (sc_conf sc1) ?c" using ps(3) by (rule grown_extends)
  have p: "named_in ?L ?c [p] \<and> instr_of ?L ?c p = instr_of ?L (sc_conf sc1) p"
    using assms(3) index_of_extend [OF ext] by (cases p) (auto simp: named_in_def)
  have "\<not> (\<exists>t. p = Lit t \<and> sc_zero sc \<and> ps = [])"
    using assms(6) ps(1) parse_Nil_iff by auto
  then have "instrs_of ?L ?c (sc_zero sc) (p # ps) = instr_of ?L ?c p # instrs_of ?L ?c (sc_zero sc) ps"
    by (cases p) auto
  moreover have "parse src = Some (p # ps)" using assms(2) ps(1) by simp
  moreover have "named_in ?L ?c (p # ps)" using p ps(2) by (auto simp: named_in_def)
  ultimately show ?thesis using code p assms(5) grown_trans [OF assms(4) ps(3)] unfolding compiled_def by simp
qed

lemma parse_literal:
  assumes "xs \<noteq> []" and "hd xs \<noteq> CHR ''$''"
  shows "parse xs = map_option ((#) (Lit (takeWhile literal_char xs))) (parse (drop (length (takeWhile literal_char xs)) xs))"
  using assms by (cases xs) (simp_all add: parse.simps(2) dropWhile_eq_drop)

lemma parse_bracket:
  "parse (CHR ''$'' # CHR ''{'' # xs) =
     (let name = takeWhile name_char xs; after = drop (length name) xs
      in if name = [] \<or> after = [] \<or> hd after \<noteq> CHR ''}'' then None else map_option ((#) (Var name)) (parse (tl after)))"
  by (simp add: parse.simps(2) Let_def dropWhile_eq_drop)

lemma parse_variable:
  assumes "xs \<noteq> []" and "\<not> capture_char (hd xs)" and "hd xs \<noteq> CHR ''{''"
  shows "parse (CHR ''$'' # xs) =
     (let name = takeWhile name_char xs
      in if name = [] then None else map_option ((#) (Var name)) (parse (drop (length name) xs)))"
  using assms by (simp add: parse.simps(2) Let_def dropWhile_eq_drop)

lemma compiled_literal:
  assumes "ngx_nsoc_script_add_copy_code sc lit (rest = []) = Some sc1" and "lit \<noteq> []"
    and "parse src = map_option ((#) (Lit lit)) (parse rest)"
    and "\<And>ks. adds ks sc sc1 \<Longrightarrow> compiled S (js @ ks) rest sc1 sc'"
  shows "compiled S js src sc sc'"
proof (cases "sc_zero sc \<and> rest = []")
  case True
  then have "adds [Write (lit @ [CHR 0x00])] sc sc1" and "sc_zero sc1 = False"
    using adds_copy [OF assms(1)] by simp_all
  then show ?thesis using assms(3) assms(4) [of "[Write (lit @ [CHR 0x00])]"] True
    by (auto simp: compiled_def adds_def named_in_def intro: grown_trans)
next
  case False
  then have a: "adds [Write lit] sc sc1" and z: "sc_zero sc1 = sc_zero sc"
    using adds_copy [OF assms(1)] by auto
  show ?thesis
    by (rule compiled_Cons [where p = "Lit lit" and ?sc1.0 = sc1 and rest = rest])
      (use assms(3) assms(4) [OF a] a z False in \<open>auto simp: named_in_def adds_def\<close>)
qed

lemma compiled_capture:
  assumes "ngx_nsoc_script_add_capture_code sc n = Some sc1" and "parse src = map_option ((#) (Cap n)) (parse rest)"
    and "\<And>ks. adds ks sc sc1 \<Longrightarrow> compiled S (js @ ks) rest sc1 sc'"
  shows "compiled S js src sc sc'"
  by (rule compiled_Cons [where p = "Cap n" and ?sc1.0 = sc1 and rest = rest])
    (use assms adds_capture [OF assms(1)] in \<open>auto simp: named_in_def adds_def\<close>)

lemma compiled_variable:
  assumes "ngx_nsoc_script_add_var_code S sc name = Some sc1" and "parse src = map_option ((#) (Var name)) (parse rest)"
    and "\<And>ks. adds ks sc sc1 \<Longrightarrow> compiled S (js @ ks) rest sc1 sc'"
    and "fold_contract (sl_vars S)" and "arrays js sc"
  shows "compiled S js src sc sc'"
proof -
  obtain i where i: "index_of (sl_vars S) (sc_conf sc1) name = Some i" and a: "adds [Write_var i] sc sc1"
    and z: "sc_zero sc1 = sc_zero sc"
    using adds_var [OF assms(1,4)] assms(5) by (auto simp: arrays_def)
  have "compiled S (js @ [instr_of (sl_vars S) (sc_conf sc1) (Var name)]) rest sc1 sc'" using assms(3) [OF a] i by simp
  then show ?thesis
    by (rule compiled_Cons [OF _ assms(2) _ _ z]) (use i a in \<open>simp_all add: named_in_def adds_def\<close>)
qed

lemma scanned_variable:
  assumes "scan_name src start 0 br = (i', n, False)" and "n \<noteq> 0" and "src ! i = CHR ''$''" and "i + 1 < length src"
    and "\<not> capture_char (src ! (i + 1))" and "br \<longleftrightarrow> src ! (i + 1) = CHR ''{''" and "start = (if br then i + 2 else i + 1)"
  shows "parse (drop i src) = map_option ((#) (Var (take n (drop start src)))) (parse (drop i' src))" and "i' \<le> length src"
proof -
  let ?name = "takeWhile name_char (drop start src)"
  have start: "start \<le> length src" using assms(4,7) by auto
  have d: "drop i src = CHR ''$'' # src ! (i + 1) # drop (i + 2) src"
    using assms(3,4) Cons_nth_drop_Suc [of i src] Cons_nth_drop_Suc [of "i + 1" src] by simp
  have n: "n = length ?name" and i': "i' = start + n + (if br then 1 else 0)"
    and close: "br \<Longrightarrow> start + n < length src \<and> src ! (start + n) = CHR ''}''"
    using assms(1) unfolding scan_name_eq [OF start] by (auto simp: Let_def split: if_splits)
  have name: "take n (drop start src) = ?name" "?name \<noteq> []" using n assms(2) takeWhile_eq_take [of name_char "drop start src"] by auto
  have le: "start + n \<le> length src" using n length_takeWhile_le [of name_char "drop start src"] start by simp
  then show "i' \<le> length src" using i' close by auto
  show "parse (drop i src) = map_option ((#) (Var (take n (drop start src)))) (parse (drop i' src))"
  proof (cases br)
    case True
    have "drop (start + n) src = CHR ''}'' # drop i' src" 
      using close [OF True] i' True Cons_nth_drop_Suc [of "start + n" src] by simp
    then show ?thesis using True d name assms(6,7) n close [OF True] parse_bracket [of "drop start src"]
      by (simp add: add.commute Let_def)
  next
    case False
    then show ?thesis using d name assms(4-7) n i' parse_variable [of "drop start src"]
      by (simp add: add.commute Cons_nth_drop_Suc hd_drop_conv_nth Let_def)
  qed
qed

lemma compile_loop_code:
  assumes "compile_loop S i sc src = Some sc'" and "i \<le> length src" and "fold_contract (sl_vars S)"
    and "sc_complete_lengths sc" and "sc_complete_values sc" and "\<not> sc_conf_prefix sc" and "\<not> sc_root_prefix sc"
    and "arrays js sc"
  shows "compiled S js (drop i src) sc sc'"
  using assms
proof (induction S i sc src arbitrary: js rule: compile_loop.induct)
  case (1 S i sc src)
  show ?case
  proof (cases "i < length src")
    case False
    have "ngx_nsoc_script_done sc = Some sc'"
      using False 1(4) by (subst (asm) compile_loop.simps) simp
    then have "\<exists>js'. js' = js @ (if sc_zero sc then [Write [CHR 0x00]] else [])
      \<and> sc_flushes sc' = Some (Some (concat (map instr_vars js'))) \<and> sc_lengths sc' = Some (lengths_of js')
      \<and> sc_values sc' = Some (values_of js') \<and> grown (sc_conf sc) (sc_conf sc')"
      by (rule done_code) (rule 1)+
    then show ?thesis using False by (auto simp: named_in_def compiled_def)
  next
    case i: True
    then have drop: "drop i src = src ! i # drop (i + 1) src" by (simp add: Cons_nth_drop_Suc)
    consider (lit) "src ! i \<noteq> CHR ''$''"
      | (cap) "src ! i = CHR ''$''" "i + 1 < length src" "capture_char (src ! (i + 1))"
      | (var) "src ! i = CHR ''$''" "i + 1 < length src" "\<not> capture_char (src ! (i + 1))"
      using "1.prems"(1) i by (subst (asm) compile_loop.simps) (fastforce split: if_splits)
    then show ?thesis
    proof cases
      case lit
      let ?lit = "takeWhile literal_char (drop i src)"
      let ?sc = "sc\<lparr>sc_size := sc_size sc + length ?lit\<rparr>" and ?i = "i + length ?lit"
      obtain sc1 where add: "ngx_nsoc_script_add_copy_code ?sc ?lit (?i = length src) = Some sc1"
        and rest: "compile_loop S ?i sc1 src = Some sc'"
        using "1.prems"(1) i lit by (subst (asm) compile_loop.simps) (auto simp: Let_def split: option.splits)
      have le: "?i \<le> length src" using length_takeWhile_le [of literal_char "drop i src"] i by simp
      have "compiled S js (drop i src) ?sc sc'"
      proof (rule compiled_literal)
        have "(drop ?i src = []) = (?i = length src)" using le by auto
        then show "ngx_nsoc_script_add_copy_code ?sc ?lit (drop ?i src = []) = Some sc1" using add by (simp only:)
        show "?lit \<noteq> []" using lit drop by simp
        show "parse (drop i src) = map_option ((#) (Lit ?lit)) (parse (drop ?i src))"
          using parse_literal [of "drop i src"] lit drop by (simp add: add.commute)
        show "compiled S (js @ ks) (drop ?i src) sc1 sc'" if "adds ks ?sc sc1" for ks
          using "1.IH"(3) [OF _ lit refl refl add rest le] that i "1.prems"(3-8) by (auto simp: adds_def arrays_def)
      qed
      then show ?thesis by (simp add: compiled_def)
    next
      case cap
      then obtain sc1 where add: "ngx_nsoc_script_add_capture_code sc (of_char (src ! (i + 1)) - 48) = Some sc1"
        and rest: "compile_loop S (i + 2) sc1 src = Some sc'"
        using "1.prems"(1) i by (subst (asm) compile_loop.simps) (auto split: option.splits)
      show ?thesis
      proof (rule compiled_capture [OF add])
        have "drop (i + 1) src = src ! (i + 1) # drop (i + 2) src"
          using cap(2) Cons_nth_drop_Suc [of "i + 1" src] by simp
        then show "parse (drop i src) = map_option ((#) (Cap (of_char (src ! (i + 1)) - 48))) (parse (drop (i + 2) src))"
          using cap by (simp add: drop parse.simps(2))
        show "compiled S (js @ ks) (drop (i + 2) src) sc1 sc'" if "adds ks sc sc1" for ks
          using "1.IH"(1) [OF _ cap(1) _ cap(3) add rest] cap(2) that i "1.prems"(3-8) by (auto simp: adds_def arrays_def)
      qed
    next
      case var
      define br where "br \<longleftrightarrow> src ! (i + 1) = CHR ''{''"
      define start where "start = (if br then i + 2 else i + 1)"
      obtain i' n sc1 where scan: "scan_name src start 0 br = (i', n, False)" and n: "n \<noteq> 0" and ne: "\<not> (br \<and> start = length src)"
        and add: "ngx_nsoc_script_add_var_code S (sc\<lparr>sc_variables := sc_variables sc + 1\<rparr>) (take n (drop start src)) = Some sc1"
        and rest: "compile_loop S i' sc1 src = Some sc'"
        using "1.prems"(1) i var by (subst (asm) compile_loop.simps) (auto simp: br_def start_def Let_def split: prod.splits if_splits option.splits)
      have parse: "parse (drop i src) = map_option ((#) (Var (take n (drop start src)))) (parse (drop i' src))" and le: "i' \<le> length src"
        using scanned_variable [OF scan n var] by (simp_all add: br_def start_def)
      have "compiled S js (drop i src) (sc\<lparr>sc_variables := sc_variables sc + 1\<rparr>) sc'"
      proof (rule compiled_variable [OF add parse])
        show "compiled S (js @ ks) (drop i' src) sc1 sc'" if "adds ks (sc\<lparr>sc_variables := sc_variables sc + 1\<rparr>) sc1" for ks
          using "1.IH"(2) [OF _ var(1) _ var(3) br_def start_def ne scan [symmetric] refl _ n add rest le] var(2) that i "1.prems"(3-8)
          by (auto simp: adds_def arrays_def)
        show "fold_contract (sl_vars S)" by (rule "1.prems"(3))
        show "arrays js (sc\<lparr>sc_variables := sc_variables sc + 1\<rparr>)" using "1.prems"(8) by (simp add: arrays_def)
      qed
      then show ?thesis by (simp add: compiled_def)
    qed
  qed
qed

section \<open>The value of a template\<close>

text \<open>The reference: what a piece of a template stands for in a session.\<close>

fun expand_piece :: "var_lib \<Rightarrow> vconf \<Rightarrow> piece \<Rightarrow> vsess \<Rightarrow> (string, vsess) run" where
  "expand_piece L c (Lit t) s = Ret t s"
| "expand_piece L c (Var n) s =
     (case index_of L c n of
        None \<Rightarrow> Ret [] s
      | Some i \<Rightarrow> bind_run (ngx_nsoc_get_indexed_variable c s i) (\<lambda>r s1. Ret (shown r s1) s1))"
| "expand_piece L c (Cap n) s = Ret (capture_text s (2 * n)) s"

fun expand :: "var_lib \<Rightarrow> vconf \<Rightarrow> piece list \<Rightarrow> vsess \<Rightarrow> (string, vsess) run" where
  "expand L c [] s = Ret [] s"
| "expand L c (p # ps) s =
     bind_run (expand_piece L c p s) (\<lambda>t s1. bind_run (expand L c ps s1) (\<lambda>u s2. Ret (t @ u) s2))"

text \<open>Values that must not be cached are forgotten first, for the variables that occur in the template.\<close>

definition refresh :: "nat set \<Rightarrow> vsess \<Rightarrow> vsess" where
  "refresh used s = s\<lparr>s_variables := map (\<lambda>(i, x). if i \<in> used \<and> vv_no_cacheable x then uncache x else x)
     (enumerate 0 (s_variables s))\<rparr>"

definition var_names :: "piece list \<Rightarrow> string list" where
  "var_names ps = concat (map (\<lambda>p. case p of Var n \<Rightarrow> [n] | _ \<Rightarrow> []) ps)"

lemma var_names_simps [simp]:
  "var_names [] = []" "var_names (Var n # ps) = n # var_names ps"
  "var_names (Lit t # ps) = var_names ps" "var_names (Cap k # ps) = var_names ps"
  by (simp_all add: var_names_def)

definition used_in :: "var_lib \<Rightarrow> vconf \<Rightarrow> piece list \<Rightarrow> nat set" where
  "used_in L c ps = (\<Union>n \<in> set (var_names ps). set_option (index_of L c n))"

lemma bind_run_assoc [simp]: "bind_run (bind_run r f) g = bind_run r (\<lambda>a s. bind_run (f a s) g)"
  by (cases r) simp_all

lemma bind_run_Ret [simp]: "bind_run r Ret = r"
  by (cases r) simp_all

lemma subst_instrs_expand:
  assumes "named_in L c ps"
  shows "subst_instrs c (instrs_of L c zero ps) s
    = bind_run (expand L c ps s) (\<lambda>t s1. Ret (t @ (if zero then [CHR 0x00] else [])) s1)"
  using assms
proof (induction L c zero ps arbitrary: s rule: instrs_of_induct)
  case (Variable L c zero n ps)
  then have "named_in L c ps" by (simp add: named_in_def)
  moreover obtain i where "index_of L c n = Some i" using Variable.prems by (auto simp: named_in_def)
  ultimately show ?case using Variable.IH by simp
next
  case (Capture L c zero n ps)
  then have "named_in L c ps" by (simp add: named_in_def)
  then show ?case using Capture.IH by simp
next
  case (Literal L c zero t ps)
  then have "named_in L c ps" by (simp add: named_in_def)
  then show ?case using Literal.IH by auto
qed simp

lemma nth_refresh:
  "i < length (s_variables s) \<Longrightarrow> s_variables (refresh used s) ! i
     = (let x = s_variables s ! i in if i \<in> used \<and> vv_no_cacheable x then uncache x else x)"
  by (auto simp: refresh_def nth_enumerate_eq Let_def)

lemma length_refresh [simp]: "length (s_variables (refresh used s)) = length (s_variables s)"
  by (simp add: refresh_def)

lemma flush_index_refresh: "i < length (s_variables s) \<Longrightarrow> flush_index i (refresh used s) = refresh (insert i used) s"
proof -
  assume i: "i < length (s_variables s)"
  have "s_variables (flush_index i (refresh used s)) = s_variables (refresh (insert i used) s)"
  proof (rule nth_equalityI)
    fix k
    assume "k < length (s_variables (flush_index i (refresh used s)))"
    then have "k < length (s_variables s)" by (simp add: flush_index_def split: if_splits)
    then show "s_variables (flush_index i (refresh used s)) ! k = s_variables (refresh (insert i used) s) ! k"
      using i by (cases "k = i") (auto simp: flush_index_def nth_refresh Let_def uncache_def)
  qed (simp add: flush_index_def)
  moreover have "flush_index i (refresh used s) = s\<lparr>s_variables := s_variables (flush_index i (refresh used s))\<rparr>"
    by (simp add: flush_index_def refresh_def)
  moreover have "refresh (insert i used) s = s\<lparr>s_variables := s_variables (refresh (insert i used) s)\<rparr>"
    by (simp add: refresh_def)
  ultimately show ?thesis by metis
qed

lemma flush_indices_refresh:
  "\<forall>i \<in> set is. i < length (s_variables s) \<Longrightarrow> flush_indices is (refresh used s) = Ret () (refresh (used \<union> set is) s)"
proof (induction "is" arbitrary: used)
  case (Cons i "is")
  then show ?case using Cons.IH [of "insert i used"] by (simp add: flush_index_refresh)
qed simp

lemma refresh_empty [simp]: "refresh {} s = s"
proof -
  have "s_variables (refresh {} s) = s_variables s" by (rule nth_equalityI) (simp_all add: nth_refresh)
  then show ?thesis by (simp add: refresh_def)
qed

lemma refresh_sound: "sound_session c s \<Longrightarrow> sound_session c (refresh used s)"
proof -
  assume s: "sound_session c s"
  have "value_ok (s_variables (refresh used s) ! i)" if "i < length (s_variables s)" for i
    using s that by (simp add: nth_refresh Let_def sound_session_def)
  then have "\<forall>x \<in> set (s_variables (refresh used s)). value_ok x" by (auto simp: in_set_conv_nth)
  moreover have "s_env (refresh used s) = s_env s" by (simp add: refresh_def)
  ultimately show ?thesis using s by (simp add: sound_session_def)
qed

section \<open>Room for the end mark\<close>

text \<open>A template has at most as many variables as dollar signs without a digit behind them.\<close>

lemma instr_vars_of: "length (concat (map instr_vars (instrs_of L c zero ps))) = length (var_names ps)"
  by (induction L c zero ps rule: instrs_of_induct) simp_all

lemma count_dollars_drop: "fst (count_dollars (drop n xs)) \<le> fst (count_dollars xs)"
proof (induction xs arbitrary: n)
  case (Cons x xs)
  have "fst (count_dollars xs) \<le> fst (count_dollars (x # xs))" by (simp add: Let_def split: prod.split)
  then show ?case using Cons [of "n - 1"] by (cases n) (auto intro: order_trans)
qed simp

lemma count_dollars_dollar:
  "xs = [] \<or> \<not> capture_char (hd xs) \<Longrightarrow> fst (count_dollars (CHR ''$'' # xs)) = Suc (fst (count_dollars xs))"
  by (auto simp: Let_def split: prod.split)

lemma count_dollars_capture:
  "snd (count_dollars xs) \<noteq> 0 \<or> fst (count_dollars xs) \<noteq> 0 \<longleftrightarrow> CHR ''$'' \<in> set xs"
  by (induction xs) (auto simp: Let_def split: prod.splits)

lemma var_names_bound: "parse src = Some ps \<Longrightarrow> length (var_names ps) \<le> fst (count_dollars src)"
proof (induction src arbitrary: ps rule: parse.induct)
  case (2 ch rest)
  let ?name = "takeWhile name_char" and ?after = "dropWhile name_char (tl rest)"
  have le: "fst (count_dollars (drop n rest)) \<le> fst (count_dollars rest)" for n by (rule count_dollars_drop)
  consider (lit) "ch \<noteq> CHR ''$''"
    | (cap) "ch = CHR ''$''" "rest \<noteq> []" "capture_char (hd rest)"
    | (bracket) "ch = CHR ''$''" "rest \<noteq> []" "\<not> capture_char (hd rest)" "hd rest = CHR ''{''"
    | (var) "ch = CHR ''$''" "rest = [] \<or> \<not> capture_char (hd rest)" "rest = [] \<or> hd rest \<noteq> CHR ''{''" by blast
  then show ?case
  proof cases
    case lit
    then obtain qs where "ps = Lit (takeWhile literal_char (ch # rest)) # qs"
      "parse (dropWhile literal_char (ch # rest)) = Some qs"
      using "2.prems" by (auto simp: parse.simps(2))
    moreover have "fst (count_dollars (dropWhile literal_char (ch # rest))) \<le> fst (count_dollars (ch # rest))"
      unfolding dropWhile_eq_drop by (rule count_dollars_drop)
    ultimately show ?thesis using "2.IH"(1) [OF lit] by fastforce
  next
    case cap
    then obtain qs where "ps = Cap (of_char (hd rest) - 48) # qs" "parse (tl rest) = Some qs"
      using "2.prems" by (auto simp: parse.simps(2))
    moreover have "fst (count_dollars (tl rest)) \<le> fst (count_dollars (ch # rest))"
      using count_dollars_drop [of 2 "ch # rest"] by (cases rest) simp_all
    ultimately show ?thesis using "2.IH"(2) cap by fastforce
  next
    case bracket
    then obtain qs where qs: "ps = Var (?name (tl rest)) # qs" "parse (tl ?after) = Some qs"
      "\<not> (?name (tl rest) = [] \<or> ?after = [] \<or> hd ?after \<noteq> CHR ''}'')"
      using "2.prems" by (auto simp: parse.simps(2) Let_def split: if_splits)
    have "tl ?after = drop (length (?name (tl rest)) + 2) rest"
      by (cases rest) (simp_all add: dropWhile_eq_drop tl_drop drop_Suc)
    then have "fst (count_dollars (tl ?after)) \<le> fst (count_dollars rest)" using le by simp
    moreover have "length (var_names qs) \<le> fst (count_dollars (tl ?after))"
      by (rule "2.IH"(3) [OF _ _ _ refl refl qs(3,2)]) (use bracket in simp_all)
    ultimately show ?thesis using qs(1) bracket(1) count_dollars_dollar [of rest] bracket(3) by simp
  next
    case var
    then obtain qs where qs: "ps = Var (?name rest) # qs" "parse (dropWhile name_char rest) = Some qs" "?name rest \<noteq> []"
      using "2.prems" by (auto simp: parse.simps(2) Let_def split: if_splits)
    moreover have "length (var_names qs) \<le> fst (count_dollars (dropWhile name_char rest))"
      by (rule "2.IH"(4) [OF _ _ _ refl qs(3,2)]) (use var in auto)
    moreover have "fst (count_dollars (dropWhile name_char rest)) \<le> fst (count_dollars rest)"
      unfolding dropWhile_eq_drop by (rule le)
    ultimately show ?thesis using var(1) count_dollars_dollar [OF var(2)] by simp
  qed
qed simp

section \<open>Refusal\<close>

text \<open>With memory at hand, adding code succeeds, and a template is refused only if it has no parse.\<close>

definition rich :: "script_compile \<Rightarrow> bool" where
  "rich sc \<longleftrightarrow> vc_pool (sc_conf sc) = []"

lemma rich_copy: "rich sc \<Longrightarrow> \<exists>sc'. ngx_nsoc_script_add_copy_code sc t is_last = Some sc' \<and> rich sc'"
  by (simp add: ngx_nsoc_script_add_copy_code_def add_length_code_def add_value_code_def sc_alloc_def rich_def Let_def)

lemma rich_capture: "rich sc \<Longrightarrow> \<exists>sc'. ngx_nsoc_script_add_capture_code sc n = Some sc' \<and> rich sc'"
  by (simp add: ngx_nsoc_script_add_capture_code_def add_length_code_def add_value_code_def sc_alloc_def rich_def Let_def)

lemma rich_index:
  assumes "vc_pool c = []" and "name \<noteq> []"
  shows "\<exists>i c'. ngx_nsoc_get_variable_index L c name = (i, c') \<and> i \<noteq> NGX_ERROR \<and> vc_pool c' = []"
  using assms by (simp add: ngx_nsoc_get_variable_index_def Let_def split: option.split)

lemma rich_var:
  assumes "rich sc" and "name \<noteq> []"
  shows "\<exists>sc'. ngx_nsoc_script_add_var_code S sc name = Some sc' \<and> rich sc'"
proof -
  obtain i c' where "ngx_nsoc_get_variable_index (sl_vars S) (sc_conf sc) name = (i, c')" "i \<noteq> NGX_ERROR" "vc_pool c' = []"
    using rich_index [of "sc_conf sc" name "sl_vars S"] assms by (auto simp: rich_def)
  then show ?thesis
    by (simp add: ngx_nsoc_script_add_var_code_def add_length_code_def add_value_code_def sc_alloc_def rich_def Let_def
        split: option.split)
qed

lemma rich_done: "rich sc \<Longrightarrow> \<exists>sc'. ngx_nsoc_script_done sc = Some sc'"
  using rich_copy [of sc "[CHR 0x00]" False]
  by (auto simp: ngx_nsoc_script_done_def ngx_nsoc_script_add_full_name_code_def add_length_code_def add_value_code_def
      sc_alloc_def rich_def Let_def)

lemma scanned_nothing:
  assumes "scan_name src start 0 br = (i', n, br')" and "br' \<or> n = 0" and "src ! i = CHR ''$''" and "i + 1 < length src"
    and "\<not> capture_char (src ! (i + 1))" and "br \<longleftrightarrow> src ! (i + 1) = CHR ''{''" and "start = (if br then i + 2 else i + 1)"
  shows "parse (drop i src) = None"
proof -
  let ?name = "takeWhile name_char (drop start src)"
  have start: "start \<le> length src" using assms(4,7) by auto
  have d: "drop i src = CHR ''$'' # src ! (i + 1) # drop (i + 2) src"
    using assms(3,4) Cons_nth_drop_Suc [of i src] Cons_nth_drop_Suc [of "i + 1" src] by simp
  have none: "?name = [] \<or> br \<and> (length src \<le> start + length ?name \<or> src ! (start + length ?name) \<noteq> CHR ''}'')"
    using assms(1,2) unfolding scan_name_eq [OF start] by (auto simp: Let_def split: if_splits)
  show ?thesis
  proof (cases br)
    case True
    then show ?thesis using d none assms(6,7) parse_bracket [of "drop start src"]
      by (auto simp: Let_def add.commute hd_drop_conv_nth)
  next
    case False
    then show ?thesis using d none assms(4-7) parse_variable [of "drop start src"]
      by (simp add: Cons_nth_drop_Suc hd_drop_conv_nth)
  qed
qed

lemma compile_loop_variable:
  assumes "scan_name src start 0 br = (i', n, False)" and "n \<noteq> 0" and "src ! i = CHR ''$''" and "i + 1 < length src"
    and "\<not> capture_char (src ! (i + 1))" and "br \<longleftrightarrow> src ! (i + 1) = CHR ''{''" and "start = (if br then i + 2 else i + 1)"
    and "\<not> (br \<and> start = length src)"
  shows "compile_loop S i sc src =
    (case ngx_nsoc_script_add_var_code S (sc\<lparr>sc_variables := sc_variables sc + 1\<rparr>) (take n (drop start src)) of
       None \<Rightarrow> None | Some sc1 \<Rightarrow> compile_loop S i' sc1 src)"
  using assms by (subst compile_loop.simps) (auto simp: Let_def split: if_splits)

lemma compile_loop_refuses:
  assumes "compile_loop S i sc src = None" and "i \<le> length src" and "rich sc"
  shows "parse (drop i src) = None"
  using assms
proof (induction S i sc src rule: compile_loop.induct)
  case (1 S i sc src)
  have i: "i < length src"
    using "1.prems" rich_done [of sc] by (subst (asm) compile_loop.simps) (auto split: if_splits)
  then have drop: "drop i src = src ! i # drop (i + 1) src" by (simp add: Cons_nth_drop_Suc)
  consider (lit) "src ! i \<noteq> CHR ''$''"
    | (last) "src ! i = CHR ''$''" "i + 1 = length src"
    | (cap) "src ! i = CHR ''$''" "i + 1 < length src" "capture_char (src ! (i + 1))"
    | (var) "src ! i = CHR ''$''" "i + 1 < length src" "\<not> capture_char (src ! (i + 1))" using i by linarith
  then show ?case
  proof cases
    case lit
    let ?lit = "takeWhile literal_char (drop i src)"
    let ?sc = "sc\<lparr>sc_size := sc_size sc + length ?lit\<rparr>" and ?i = "i + length ?lit"
    obtain sc1 where add: "ngx_nsoc_script_add_copy_code ?sc ?lit (?i = length src) = Some sc1" and r: "rich sc1"
      using rich_copy [of ?sc] "1.prems"(3) by (auto simp: rich_def)
    then have rest: "compile_loop S ?i sc1 src = None"
      using "1.prems"(1) i lit by (subst (asm) compile_loop.simps) (simp add: Let_def)
    have "?i \<le> length src" using length_takeWhile_le [of literal_char "drop i src"] i by simp
    then have "parse (drop ?i src) = None" using "1.IH"(3) [OF _ lit refl refl add rest _ r] i by simp
    then show ?thesis using parse_literal [of "drop i src"] lit drop by (simp add: add.commute)
  next
    case last
    then show ?thesis using drop by (simp add: parse.simps(2))
  next
    case cap
    obtain sc1 where add: "ngx_nsoc_script_add_capture_code sc (of_char (src ! (i + 1)) - 48) = Some sc1" and r: "rich sc1"
      using rich_capture "1.prems"(3) by blast
    then have rest: "compile_loop S (i + 2) sc1 src = None"
      using "1.prems"(1) i cap by (subst (asm) compile_loop.simps) simp
    have "parse (drop (i + 2) src) = None" using "1.IH"(1) [OF _ cap(1) _ cap(3) add rest _ r] cap(2) i by simp
    moreover have "drop (i + 1) src = src ! (i + 1) # drop (i + 2) src"
      using cap(2) Cons_nth_drop_Suc [of "i + 1" src] by simp
    ultimately show ?thesis using cap by (simp add: drop parse.simps(2))
  next
    case var
    define br where "br \<longleftrightarrow> src ! (i + 1) = CHR ''{''"
    define start where "start = (if br then i + 2 else i + 1)"
    obtain i' n br' where scan: "scan_name src start 0 br = (i', n, br')" by (cases "scan_name src start 0 br")
    show ?thesis
    proof (cases "br' \<or> n = 0")
      case True
      then show ?thesis using scanned_nothing [OF scan _ var] by (simp add: br_def start_def)
    next
      case False
      let ?sc = "sc\<lparr>sc_variables := sc_variables sc + 1\<rparr>" and ?name = "take n (drop start src)"
      have scan': "scan_name src start 0 br = (i', n, False)" and n: "n \<noteq> 0" using scan False by simp_all
      have parse: "parse (drop i src) = map_option ((#) (Var ?name)) (parse (drop i' src))" and le: "i' \<le> length src"
        using scanned_variable [OF scan' n var] by (simp_all add: br_def start_def)
      have ne: "\<not> (br \<and> start = length src)" using scan' n by (subst (asm) scan_name.simps) auto
      have "?name \<noteq> []" using n var(2) ne by (auto simp: start_def)
      then obtain sc1 where add: "ngx_nsoc_script_add_var_code S ?sc ?name = Some sc1" and r: "rich sc1"
        using rich_var [of ?sc ?name S] "1.prems"(3) by (auto simp: rich_def)
      have rest: "compile_loop S i' sc1 src = None"
        using "1.prems"(1) compile_loop_variable [OF scan' n var br_def start_def ne] add by simp
      have "parse (drop i' src) = None"
        using "1.IH"(2) [OF _ var(1) _ var(3) br_def start_def ne scan' [symmetric] refl _ n add rest le r] i var(2) by simp
      then show ?thesis using parse by simp
    qed
  qed
qed

section \<open>Complex values\<close>

definition start_compile :: "string \<Rightarrow> bool \<Rightarrow> vconf \<Rightarrow> script_compile" where
  "start_compile v zero c =
     \<lparr>sc_source = v, sc_flushes = Some (Some []), sc_lengths = Some [], sc_values = Some [], sc_variables = 0,
      sc_ncaptures = 0, sc_size = 0, sc_complete_lengths = True, sc_complete_values = True, sc_zero = zero,
      sc_conf_prefix = False, sc_root_prefix = False, sc_conf = c\<rparr>"

lemma start_compile_arrays: "arrays [] (start_compile v zero c)"
  by (simp add: arrays_def start_compile_def)

lemma script_compile_start:
  "ngx_nsoc_script_compile S (start_compile v zero c) = compile_loop S 0 (start_compile v zero c) v"
  by (simp add: ngx_nsoc_script_compile_def ngx_nsoc_script_init_arrays_def create_array_def start_compile_def)

lemma start_compile_code:
  assumes "compile_loop S 0 (start_compile v zero c) v = Some sc'" and "fold_contract (sl_vars S)"
  shows "compiled S [] v (start_compile v zero c) sc'"
  using compile_loop_code [OF assms(1) _ assms(2) _ _ _ _ start_compile_arrays] by (simp add: start_compile_def)

text \<open>The plain text of a template without a dollar sign, and the code of any other.\<close>

definition code_of :: "var_lib \<Rightarrow> vconf \<Rightarrow> bool \<Rightarrow> string \<Rightarrow> piece list \<Rightarrow> complex_value" where
  "code_of L c zero v ps =
     (let is = instrs_of L c zero ps; fl = concat (map instr_vars is)
      in \<lparr>cv_value = v, cv_flushes = (if fl = [] then None else Some fl), cv_lengths = Some (lengths_of is),
          cv_values = Some (values_of is)\<rparr>)"

lemma compile_complex_value_cases:
  assumes "CHR ''$'' \<in> set v" and "fold_contract (sl_vars S)"
  shows "\<exists>r c'. ngx_nsoc_compile_complex_value S v zero False False c = Ret r c'
    \<and> (r = None \<longrightarrow> vc_pool c = [] \<longrightarrow> parse v = None)
    \<and> (\<forall>cv. r = Some cv \<longrightarrow> grown c c' \<and> (\<exists>ps. parse v = Some ps \<and> named_in (sl_vars S) c' ps
        \<and> cv = code_of (sl_vars S) c' zero v ps))"
proof -
  obtain nv nc where count: "count_dollars v = (nv, nc)" "\<not> (nv = 0 \<and> nc = 0)"
    using count_dollars_capture [of v] assms(1) by (cases "count_dollars v") auto
  define q where "q = snd (pool_take (snd (pool_take (snd (pool_take (vc_pool c))))))"
  let ?sc = "start_compile v zero (c\<lparr>vc_pool := q\<rparr>)"
  have comp: "ngx_nsoc_compile_complex_value S v zero False False c =
      (if \<not> fst (pool_take (vc_pool c)) then Ret None (c\<lparr>vc_pool := snd (pool_take (vc_pool c))\<rparr>)
       else if \<not> fst (pool_take (snd (pool_take (vc_pool c)))) then Ret None (c\<lparr>vc_pool := snd (pool_take (snd (pool_take (vc_pool c))))\<rparr>)
       else if \<not> fst (pool_take (snd (pool_take (snd (pool_take (vc_pool c)))))) then Ret None (c\<lparr>vc_pool := q\<rparr>)
       else case compile_loop S 0 ?sc v of
         None \<Rightarrow> Ret None (c\<lparr>vc_pool := q\<rparr>)
       | Some sc1 \<Rightarrow>
           (case finish_flushes (nv + 1) (case sc_flushes sc1 of Some (Some fl) \<Rightarrow> fl | _ \<Rightarrow> []) of
              None \<Rightarrow> Crash Out_of_bounds
            | Some fl \<Rightarrow> Ret (Some \<lparr>cv_value = v, cv_flushes = fl, cv_lengths = sc_lengths sc1, cv_values = sc_values sc1\<rparr>)
                (sc_conf sc1)))"
    using count by (cases "nv = 0") (simp_all add: ngx_nsoc_compile_complex_value_def Let_def q_def start_compile_def [symmetric]
        script_compile_start [symmetric] cong: option.case_cong)
  show ?thesis
  proof (cases "compile_loop S 0 ?sc v")
    case None
    moreover have "parse v = None" if "vc_pool c = []"
      using compile_loop_refuses [OF None] that by (simp add: rich_def start_compile_def q_def)
    ultimately show ?thesis using comp by auto
  next
    case (Some sc1)
    obtain ps where ps: "parse v = Some ps" "named_in (sl_vars S) (sc_conf sc1) ps"
      and code: "sc_flushes sc1 = Some (Some (concat (map instr_vars (instrs_of (sl_vars S) (sc_conf sc1) zero ps))))"
        "sc_lengths sc1 = Some (lengths_of (instrs_of (sl_vars S) (sc_conf sc1) zero ps))"
        "sc_values sc1 = Some (values_of (instrs_of (sl_vars S) (sc_conf sc1) zero ps))"
      and grown: "grown (c\<lparr>vc_pool := q\<rparr>) (sc_conf sc1)"
      using start_compile_code [OF Some assms(2)] by (auto simp: compiled_def start_compile_def)
    have "length (concat (map instr_vars (instrs_of (sl_vars S) (sc_conf sc1) zero ps))) \<le> nv"
      using instr_vars_of [of "sl_vars S" "sc_conf sc1" zero ps] var_names_bound [OF ps(1)] count(1) by simp
    then have "finish_flushes (nv + 1) (concat (map instr_vars (instrs_of (sl_vars S) (sc_conf sc1) zero ps)))
        = Some (cv_flushes (code_of (sl_vars S) (sc_conf sc1) zero v ps))"
      by (simp add: finish_flushes_def code_of_def Let_def)
    then show ?thesis using comp Some code ps grown_trans [OF grown_pool grown]
      by (auto simp: code_of_def Let_def)
  qed
qed

lemma compile_plain:
  assumes "CHR ''$'' \<notin> set v"
  shows "ngx_nsoc_compile_complex_value S v zero False False c
    = Ret (Some \<lparr>cv_value = v, cv_flushes = None, cv_lengths = None, cv_values = None\<rparr>) c"
  using count_dollars_capture [of v] assms by (cases "count_dollars v") (simp add: ngx_nsoc_compile_complex_value_def)

text \<open>
  The reference value of a template: its text if it has no variables, otherwise the expansion of
  its parse after the values that must not be cached were forgotten, in memory that is
  allocated once at the end.
\<close>

definition template_value ::
  "var_lib \<Rightarrow> vconf \<Rightarrow> bool \<Rightarrow> string \<Rightarrow> vsess \<Rightarrow> (int \<times> nat \<times> string, vsess) run" where
  "template_value L c zero v s =
     (if CHR ''$'' \<notin> set v then Ret (NGX_OK, length v, v) s
      else case parse v of
        None \<Rightarrow> Ret (NGX_ERROR, 0, []) s
      | Some ps \<Rightarrow>
          bind_run (expand L c ps (refresh (used_in L c ps) s)) (\<lambda>t s1.
            let out = t @ (if zero then [CHR 0x00] else []); (ok, s2) = s_alloc s1
            in Ret (if ok then (NGX_OK, length out, out) else (NGX_ERROR, length out, [])) s2))"

lemma instrs_of_extend:
  assumes "named_in L c ps" and "names_extend c c'"
  shows "instrs_of L c' zero ps = instrs_of L c zero ps" and "named_in L c' ps"
proof -
  show "named_in L c' ps" using assms index_of_extend [OF assms(2)] by (fastforce simp: named_in_def)
  show "instrs_of L c' zero ps = instrs_of L c zero ps"
    using assms(1)
  proof (induction ps)
    case (Cons p ps)
    then have "named_in L c ps" by (simp add: named_in_def)
    then show ?case using Cons index_of_extend [OF assms(2)] by (cases p) (auto simp: named_in_def)
  qed simp
qed

lemma instrs_of_ok: "named_in L c ps \<Longrightarrow> i \<in> set (instrs_of L c zero ps) \<Longrightarrow> instr_ok c i"
proof (induction L c zero ps rule: instrs_of_induct)
  case (Variable L c zero n ps)
  then show ?case using index_of_less by (fastforce simp: named_in_def)
qed (auto simp: named_in_def split: if_splits)

lemma instr_vars_used:
  "named_in L c ps \<Longrightarrow> set (concat (map instr_vars (instrs_of L c zero ps))) = used_in L c ps"
proof (induction L c zero ps rule: instrs_of_induct)
  case (Variable L c zero n ps)
  then have "named_in L c ps" by (simp add: named_in_def)
  then show ?case using Variable by (auto simp: named_in_def used_in_def)
qed (auto simp: named_in_def used_in_def)

context leaf_handlers
begin

text \<open>Evaluating the code of a parse gives the reference value, and does return.\<close>

lemma code_value:
  assumes "handled_by hs c" and "sound_session c s" and "captures_ok s" and "named_in L c ps"
    and "parse v = Some ps" and "CHR ''$'' \<in> set v"
  shows "ngx_nsoc_complex_value S c s (code_of L c zero v ps) = template_value L c zero v s"
    and "\<exists>r s'. template_value L c zero v s = Ret r s'"
proof -
  let ?is = "instrs_of L c zero ps" and ?s = "refresh (used_in L c ps) s"
  let ?fl = "concat (map instr_vars ?is)"
  have "\<forall>i \<in> set ?fl. i < length (s_variables s)"
    using assms(2,4) instr_vars_used [OF assms(4), of zero] index_of_less by (auto simp: used_in_def sound_session_def)
  then have "flush_indices ?fl s = Ret () ?s"
    using flush_indices_refresh [of ?fl s "{}"] instr_vars_used [OF assms(4), of zero] by simp
  then have flush: "ngx_nsoc_script_flush_complex_value s (code_of L c zero v ps) = Ret () ?s"
    by (cases "?fl = []") (simp_all add: ngx_nsoc_script_flush_complex_value_def code_of_def Let_def del: concat_eq_Nil_conv)
  have sound: "sound_session c ?s" and "captures_ok ?s"
    using refresh_sound [OF assms(2)] assms(3) by (simp_all add: refresh_def captures_ok_def capture_pair_def)
  then obtain t s' where t: "subst_instrs c ?is ?s = Ret t s'" "run_lengths c True (lengths_of ?is) 0 0 ?s = Ret (length t) s'"
    and vals: "\<forall>p. \<exists>ip. run_values (length (values_of ?is)) S c (values_of ?is)
        \<lparr>e_ip = 0, e_out = [], e_room = length t, e_buf = None, e_flushed = True\<rparr> (s'\<lparr>s_pool := p\<rparr>)
      = Ret \<lparr>e_ip = ip, e_out = t, e_room = length t, e_buf = None, e_flushed = True\<rparr> (s'\<lparr>s_pool := p\<rparr>)"
    using two_passes [OF assms(1), of ?s ?is S] instrs_of_ok [OF assms(4)] by blast
  obtain u where u: "expand L c ps ?s = Ret u s'" "t = u @ (if zero then [CHR 0x00] else [])"
    using t(1) unfolding subst_instrs_expand [OF assms(4)] by (auto simp: bind_run_Ret_iff)
  show "ngx_nsoc_complex_value S c s (code_of L c zero v ps) = template_value L c zero v s"
    and "\<exists>r s'. template_value L c zero v s = Ret r s'"
    using flush t(2) spec [OF vals, of "snd (pool_take (s_pool s'))"] u assms(5,6)
    by (auto simp: ngx_nsoc_complex_value_def template_value_def code_of_def Let_def s_alloc_def)
qed

end

section \<open>Properties\<close>

lemma parse_plain:
  assumes "CHR ''$'' \<notin> set v"
  shows "parse v \<noteq> None"
proof (cases "v = []")
  case False
  have lit: "takeWhile literal_char v = v" using assms by (auto simp: takeWhile_eq_all_conv)
  have "hd v \<noteq> CHR ''$''" using assms hd_in_set [OF False] by auto
  then show ?thesis using parse_literal [OF False] lit by simp
qed simp

text \<open>
  C21: \<open>ngx_nsoc_compile_complex_value\<close> always returns: in particular the mark that ends the list of
  variables to flush is stored inside the array, which is sized by counting dollar signs. It
  accepts only templates that the grammar \<open>parse\<close> accepts, and all of them when memory is available.
\<close>

theorem compile_accepts_templates:
  assumes "fold_contract (sl_vars S)"
  shows "\<exists>r c'. ngx_nsoc_compile_complex_value S v zero False False c = Ret r c'
    \<and> (r \<noteq> None \<longrightarrow> parse v \<noteq> None) \<and> (vc_pool c = [] \<longrightarrow> (r \<noteq> None \<longleftrightarrow> parse v \<noteq> None))"
proof (cases "CHR ''$'' \<in> set v")
  case True
  show ?thesis using compile_complex_value_cases [OF True assms, of zero c] by fastforce
next
  case False
  then show ?thesis using compile_plain [OF False] parse_plain by auto
qed

definition demo_script_lib :: script_lib where
  "demo_script_lib = \<lparr>sl_vars = demo_var_lib, ngx_conf_full_name = (\<lambda>conf n. Some n),
     ngx_get_full_name = (\<lambda>prefix n pool. (Some (prefix @ n), pool))\<rparr>"

lemma demo_script_fold: "fold_contract (sl_vars demo_script_lib)"
  by (simp add: demo_script_lib_def demo_fold)

theorem compile_accepts_templates_witness:
  "\<exists>r c'. ngx_nsoc_compile_complex_value demo_script_lib ''${pid'' False False False empty_vconf = Ret r c' \<and> r = None"
proof -
  have "parse ''${pid'' = None" by (simp add: parse.simps name_char_def capture_char_def)
  then show ?thesis
    using compile_accepts_templates [OF demo_script_fold, of "''${pid''" False empty_vconf] by (auto simp: empty_vconf_def)
qed

text \<open>
  C13: A template that was compiled while an accepted configuration was read evaluates, in a
  well-formed session, to the substitution of its parse: the two passes of
  \<open>ngx_nsoc_complex_value\<close> over the code arrays agree with \<open>template_value\<close>, which parses the source
  text, replaces every variable and capture once, and has neither code nor lengths. The
  evaluation returns; so the second pass writes exactly the bytes the first one counted.
\<close>

theorem complex_value_is_substitution:
  assumes "ngx_nsoc_variables_add_core_vars (sl_vars S) c0 = Ret NGX_OK c1" and "variables c0 = []"
    and "(conf_step nsoc_handlers (sl_vars S))\<^sup>*\<^sup>* c1 c2"
    and "ngx_nsoc_compile_complex_value S v zero False False c2 = Ret (Some cv) c3"
    and "(conf_step nsoc_handlers (sl_vars S))\<^sup>*\<^sup>* c3 c4"
    and "ngx_nsoc_variables_init_vars (sl_vars S) c4 = Ret NGX_OK c"
    and "fold_contract (sl_vars S)" and "sound_session c s" and "captures_ok s"
  shows "ngx_nsoc_complex_value S c s cv = template_value (sl_vars S) c zero v s
    \<and> (\<exists>r s'. template_value (sl_vars S) c zero v s = Ret r s')"
proof (cases "CHR ''$'' \<in> set v")
  case True
  let ?L = "sl_vars S"
  obtain ps where ps: "grown c2 c3" "parse v = Some ps" "named_in ?L c3 ps" "cv = code_of ?L c3 zero v ps"
    using compile_complex_value_cases [OF True assms(7), of zero c2] assms(4) by auto
  have "table_in nsoc_handlers c3"
    using table_in_grown [OF _ ps(1)] configured_table [OF assms(1-3)] by blast
  then have c4: "table_in nsoc_handlers c4" "names_extend c3 c4"
    using conf_steps_table [OF assms(5)] by (auto simp: nsoc_handlers_def core_handlers_def)
  have h: "handled_by nsoc_handlers c" and ext: "names_extend c3 c"
    using init_vars_ok [OF assms(6) c4(1)] c4(2) by (simp_all add: names_extend_def)
  have n: "named_in ?L c ps" by (rule instrs_of_extend(2) [OF ps(3) ext])
  have "cv = code_of ?L c zero v ps" by (simp only: ps(4) code_of_def instrs_of_extend(1) [OF ps(3) ext])
  then show ?thesis using nsoc.code_value [OF h assms(8,9) n ps(2) True] by simp
next
  case False
  then show ?thesis using compile_plain [OF False, of S zero c2] assms(4)
    by (auto simp: ngx_nsoc_complex_value_def template_value_def)
qed

definition demo_source :: string where "demo_source = ''by ${Protocol} $status''"

definition demo_compiled :: "(complex_value option, vconf) run" where
  "demo_compiled = ngx_nsoc_compile_complex_value demo_script_lib demo_source False False False demo_upstream_table"

definition demo_code :: complex_value where
  "demo_code = (case run_value demo_compiled of Some (Some cv) \<Rightarrow> cv
     | _ \<Rightarrow> \<lparr>cv_value = [], cv_flushes = None, cv_lengths = None, cv_values = None\<rparr>)"

definition demo_compiled_vars :: vconf where
  "demo_compiled_vars = run_state (ngx_nsoc_variables_init_vars demo_var_lib (run_state demo_compiled empty_vconf)) empty_vconf"

lemma demo_compile:
  "ngx_nsoc_compile_complex_value demo_script_lib demo_source False False False demo_upstream_table
     = Ret (Some demo_code) (run_state demo_compiled empty_vconf)"
proof -
  have "run_value demo_compiled = Some (Some demo_code)" by code_simp
  then show ?thesis unfolding demo_compiled_def by (rule run_eta)
qed

lemma demo_compiled_init:
  "ngx_nsoc_variables_init_vars demo_var_lib (run_state demo_compiled empty_vconf) = Ret NGX_OK demo_compiled_vars"
  unfolding demo_compiled_vars_def by (rule run_eta) code_simp

lemma demo_compiled_sound: "sound_session demo_compiled_vars demo_vsess"
proof -
  have "length (variables demo_compiled_vars) = 2" by code_simp
  then show ?thesis
    by (simp add: sound_session_def demo_vsess_def demo_venv_def venv_ok_def i64_def value_ok_def zero_value_def)
qed

theorem complex_value_is_substitution_witness:
  "run_value (ngx_nsoc_complex_value demo_script_lib demo_compiled_vars demo_vsess demo_code)
     = Some (NGX_OK, 10, ''by TCP 099'')"
proof -
  have up: "(conf_step nsoc_handlers demo_var_lib)\<^sup>*\<^sup>* demo_table demo_upstream_table"
    using upstream_vars_step [OF demo_upstream] by (rule r_into_rtranclp)
  have "captures_ok demo_vsess" by (simp add: captures_ok_def demo_vsess_def)
  moreover have "run_value (template_value demo_var_lib demo_compiled_vars False demo_source demo_vsess)
      = Some (NGX_OK, 10, ''by TCP 099'')" by code_simp
  ultimately show ?thesis
    using complex_value_is_substitution [OF _ _ _ demo_compile _ _ demo_script_fold demo_compiled_sound,
        of empty_vconf demo_table "run_state demo_compiled empty_vconf"] demo_core demo_compiled_init up
    by (simp add: demo_script_lib_def empty_vconf_def)
qed

text \<open>A canonical way to write a template, with brackets around every name.\<close>

fun show_piece :: "piece \<Rightarrow> string" where
  "show_piece (Lit t) = t"
| "show_piece (Var n) = ''${'' @ n @ ''}''"
| "show_piece (Cap n) = [CHR ''$'', digit n]"

definition show_template :: "piece list \<Rightarrow> string" where
  "show_template ps = concat (map show_piece ps)"

fun pieces_ok :: "piece list \<Rightarrow> bool" where
  "pieces_ok [] \<longleftrightarrow> True"
| "pieces_ok (Lit t # ps) \<longleftrightarrow> t \<noteq> [] \<and> CHR ''$'' \<notin> set t \<and> (case ps of Lit u # qs \<Rightarrow> False | _ \<Rightarrow> True) \<and> pieces_ok ps"
| "pieces_ok (Var n # ps) \<longleftrightarrow> n \<noteq> [] \<and> (\<forall>ch \<in> set n. name_char ch) \<and> pieces_ok ps"
| "pieces_ok (Cap n # ps) \<longleftrightarrow> 1 \<le> n \<and> n \<le> 9 \<and> pieces_ok ps"

lemma digit_capture: "1 \<le> n \<Longrightarrow> n \<le> 9 \<Longrightarrow> capture_char (digit n) \<and> of_char (digit n) - 48 = n"
  by (simp add: capture_char_def digit_def Let_def)

lemma show_template_start:
  "pieces_ok ps \<Longrightarrow> (case ps of Lit u # qs \<Rightarrow> False | _ \<Rightarrow> True) \<Longrightarrow> show_template ps = [] \<or> hd (show_template ps) = CHR ''$''"
  by (cases ps rule: pieces_ok.cases) (simp_all add: show_template_def)

lemma parse_show: "pieces_ok ps \<Longrightarrow> parse (show_template ps) = Some ps"
proof (induction ps rule: pieces_ok.induct)
  case (2 t ps)
  have all: "\<forall>ch \<in> set t. literal_char ch" using 2 by auto
  have start: "show_template ps = [] \<or> hd (show_template ps) = CHR ''$''" using 2 show_template_start by simp
  then have tw: "takeWhile literal_char (t @ show_template ps) = t"
    using all by (cases "show_template ps") (auto simp: takeWhile_append2)
  have "hd (t @ show_template ps) \<noteq> CHR ''$''" and "t @ show_template ps \<noteq> []"
    using "2.prems" by (cases t; auto)+
  then show ?case using parse_literal [of "t @ show_template ps"] tw 2 by (simp add: show_template_def)
next
  case (3 n ps)
  have tw: "takeWhile name_char (n @ CHR ''}'' # show_template ps) = n" using 3 by (simp add: takeWhile_append2)
  then show ?case using parse_bracket [of "n @ CHR ''}'' # show_template ps"] 3
    by (simp add: show_template_def Let_def)
next
  case (4 n ps)
  then show ?case using digit_capture [of n] by (simp add: show_template_def parse.simps(2))
qed (simp add: show_template_def)

text \<open>
  C20: Writing a list of literals, variables and captures as a template and compiling it gives
  the code of exactly this list, with every name in the table.
\<close>

theorem compile_inverts_show:
  assumes "pieces_ok ps" and "Var n \<in> set ps" and "vc_pool c = []" and "fold_contract (sl_vars S)"
  shows "\<exists>c'. ngx_nsoc_compile_complex_value S (show_template ps) zero False False c
      = Ret (Some (code_of (sl_vars S) c' zero (show_template ps) ps)) c' \<and> named_in (sl_vars S) c' ps"
proof -
  have "CHR ''$'' \<in> set (show_piece (Var n))" by simp
  then have "CHR ''$'' \<in> set (show_template ps)" using assms(2) unfolding show_template_def by force
  then show ?thesis
    using compile_complex_value_cases [OF _ assms(4), of "show_template ps" zero c] parse_show [OF assms(1)] assms(3) by auto
qed

theorem compile_inverts_show_witness:
  "\<exists>c'. ngx_nsoc_compile_complex_value demo_script_lib ''a=${pid}$1'' False False False empty_vconf
      = Ret (Some (code_of demo_var_lib c' False ''a=${pid}$1'' [Lit ''a='', Var ''pid'', Cap 1])) c'"
proof -
  let ?ps = "[Lit ''a='', Var ''pid'', Cap 1]"
  have "pieces_ok ?ps" by (simp add: name_char_def)
  moreover have "show_template ?ps = ''a=${pid}$1''" by code_simp
  ultimately show ?thesis
    using compile_inverts_show [of ?ps "''pid''" empty_vconf demo_script_lib False] demo_script_fold
    by (auto simp: empty_vconf_def demo_script_lib_def)
qed

end
