(* ===== verification/Nsoc_Upstream.thy ===== *)
theory Nsoc_Upstream
  imports Nsoc_Template Nsoc_Failover
begin

text \<open>
  The directives that say where the proxy connects to: the \<open>upstream\<close> block and its \<open>server\<close> lines
  with \<open>ngx_nsoc_upstream_add\<close> and the start of the balancers (\<open>src/ngx_nsoc_upstream.c\<close>), and
  \<open>proxy_pass\<close> and \<open>proxy_bind\<close> (end of \<open>src/ngx_nsoc_proxy_module.c\<close>).

  An upstream is referred to by its position in \<open>umcf->upstreams\<close>. \<open>None\<close> as a result is a refused
  configuration. The file and line a definition stands at, kept for messages only, are left out.
\<close>

section \<open>Data\<close>

abbreviation NGX_NSOC_UPSTREAM_CREATE :: "64 word" where "NGX_NSOC_UPSTREAM_CREATE \<equiv> 0x0001"
abbreviation NGX_NSOC_UPSTREAM_WEIGHT :: "64 word" where "NGX_NSOC_UPSTREAM_WEIGHT \<equiv> 0x0002"
abbreviation NGX_NSOC_UPSTREAM_MAX_FAILS :: "64 word" where "NGX_NSOC_UPSTREAM_MAX_FAILS \<equiv> 0x0004"
abbreviation NGX_NSOC_UPSTREAM_FAIL_TIMEOUT :: "64 word" where "NGX_NSOC_UPSTREAM_FAIL_TIMEOUT \<equiv> 0x0008"
abbreviation NGX_NSOC_UPSTREAM_DOWN :: "64 word" where "NGX_NSOC_UPSTREAM_DOWN \<equiv> 0x0010"
abbreviation NGX_NSOC_UPSTREAM_BACKUP :: "64 word" where "NGX_NSOC_UPSTREAM_BACKUP \<equiv> 0x0020"
abbreviation NGX_NSOC_UPSTREAM_MAX_CONNS :: "64 word" where "NGX_NSOC_UPSTREAM_MAX_CONNS \<equiv> 0x0100"

text \<open>
  \<open>ngx_nsoc_upstream_srv_conf_t\<close>: \<open>ue_init\<close> is \<open>peer.init_upstream\<close> of another balancer, if one was set,
  and \<open>ue_peers\<close> what the balancer left in \<open>peer.data\<close>.
\<close>

record upstream_entry =
  ue_flags :: "64 word"
  ue_host :: string
  ue_port :: nat
  ue_no_port :: bool
  ue_servers :: "upstream_server list option"
  ue_init :: "(upstream_conf \<Rightarrow> int \<times> (rr_peers \<times> rr_peers option) option) option"
  ue_peers :: "(rr_peers \<times> rr_peers option) option"

text \<open>The fields of \<open>ngx_url_t\<close> the module reads.\<close>

record ngx_url =
  u_url :: string
  u_host :: string
  u_port :: nat
  u_no_port :: bool
  u_addrs :: "string list"
  u_unix :: bool

text \<open>nginx: \<open>ngx_parse_url\<close>, with the flag \<open>no_resolve\<close>, and \<open>ngx_parse_addr_port\<close>; numbers and times as in the \<open>listen\<close> directive.\<close>

record up_lib =
  ul_script :: script_lib
  ul_conf :: conf_lib
  ul_parse_url :: "string \<Rightarrow> bool \<Rightarrow> ngx_url option"
  ul_parse_addr_port :: "string \<Rightarrow> int"

record uconf =
  uf_vars :: vconf
  uf_upstreams :: "upstream_entry list"

definition uf_alloc :: "uconf \<Rightarrow> bool \<times> uconf" where
  "uf_alloc u = (fst (vc_alloc (uf_vars u)), u\<lparr>uf_vars := snd (vc_alloc (uf_vars u))\<rparr>)"

section \<open>Upstreams\<close>

text \<open>The search for an upstream of the same name: a conflict, a match, or none.\<close>

datatype probe = Conflict | Match nat | Fresh

fun probe_upstream :: "var_lib \<Rightarrow> 64 word \<Rightarrow> ngx_url \<Rightarrow> nat \<Rightarrow> upstream_entry list \<Rightarrow> probe" where
  "probe_upstream L fs u i [] = Fresh"
| "probe_upstream L fs u i (e # es) =
     (if \<not> same_name L (ue_host e) (u_host u) then probe_upstream L fs u (Suc i) es
      else if flag fs NGX_NSOC_UPSTREAM_CREATE \<and> flag (ue_flags e) NGX_NSOC_UPSTREAM_CREATE then Conflict
      else if flag (ue_flags e) NGX_NSOC_UPSTREAM_CREATE \<and> \<not> u_no_port u then Conflict
      else if flag fs NGX_NSOC_UPSTREAM_CREATE \<and> \<not> ue_no_port e then Conflict
      else if ue_port e \<noteq> u_port u then probe_upstream L fs u (Suc i) es
      else Match i)"

text \<open>A server from the address of the URL itself: all other fields are zero.\<close>

definition implicit_server :: "string list \<Rightarrow> upstream_server" where
  "implicit_server addrs =
     \<lparr>us_name = [], us_addrs = addrs, us_weight = 0, us_max_conns = 0, us_max_fails = 0, us_fail_timeout = 0,
      us_down = False, us_backup = False\<rparr>"

definition new_entry :: "64 word \<Rightarrow> ngx_url \<Rightarrow> upstream_entry" where
  "new_entry fs u =
     \<lparr>ue_flags = fs, ue_host = u_host u, ue_port = u_port u, ue_no_port = u_no_port u,
      ue_servers = (if length (u_addrs u) = 1 \<and> (u_port u \<noteq> 0 \<or> u_unix u) then Some [implicit_server (u_addrs u)] else None),
      ue_init = None, ue_peers = None\<rparr>"

definition add_entry :: "64 word \<Rightarrow> ngx_url \<Rightarrow> uconf \<Rightarrow> nat option \<times> uconf" where
  "add_entry fs u c =
     (let (made, c1) = uf_alloc c;
          own = length (u_addrs u) = 1 \<and> (u_port u \<noteq> 0 \<or> u_unix u);
          (created, c2) = (if own then uf_alloc c1 else (True, c1));
          (filled, c3) = (if own then uf_alloc c2 else (True, c2));
          (pushed, c4) = uf_alloc c3
      in if \<not> made then (None, c1) else if \<not> created then (None, c2) else if \<not> filled then (None, c3)
         else if \<not> pushed then (None, c4)
         else (Some (length (uf_upstreams c)), c4\<lparr>uf_upstreams := uf_upstreams c4 @ [new_entry fs u]\<rparr>))"

definition ngx_nsoc_upstream_add :: "up_lib \<Rightarrow> ngx_url \<Rightarrow> bool \<Rightarrow> 64 word \<Rightarrow> uconf \<Rightarrow> nat option \<times> uconf" where
  "ngx_nsoc_upstream_add P u no_resolve fs c =
     (case (if flag fs NGX_NSOC_UPSTREAM_CREATE then Some u else ul_parse_url P (u_url u) no_resolve) of
        None \<Rightarrow> (None, c)
      | Some u1 \<Rightarrow>
          (case probe_upstream (sl_vars (ul_script P)) fs u1 0 (uf_upstreams c) of
             Conflict \<Rightarrow> (None, c)
           | Match i \<Rightarrow>
               (Some i, if flag fs NGX_NSOC_UPSTREAM_CREATE
                        then c\<lparr>uf_upstreams := (uf_upstreams c)[i := (uf_upstreams c ! i)\<lparr>ue_flags := fs\<rparr>]\<rparr> else c)
           | Fresh \<Rightarrow> add_entry fs u1 c))"

section \<open>Servers\<close>

text \<open>The locals of the directive and the flags of the new server.\<close>

record server_args =
  sa_weight :: int
  sa_max_conns :: int
  sa_max_fails :: int
  sa_fail_timeout :: int
  sa_backup :: bool
  sa_down :: bool

definition server_param :: "conf_lib \<Rightarrow> 64 word \<Rightarrow> string \<Rightarrow> server_args \<Rightarrow> server_args option" where
  "server_param C fs v a =
     (if starts ''weight='' v then
        (let n = ngx_atoi C (drop 7 v)
         in if \<not> flag fs NGX_NSOC_UPSTREAM_WEIGHT then None
            else if n = NGX_ERROR \<or> n = 0 then None else Some (a\<lparr>sa_weight := n\<rparr>))
      else if starts ''max_conns='' v then
        (let n = ngx_atoi C (drop 10 v)
         in if \<not> flag fs NGX_NSOC_UPSTREAM_MAX_CONNS then None
            else if n = NGX_ERROR then None else Some (a\<lparr>sa_max_conns := n\<rparr>))
      else if starts ''max_fails='' v then
        (let n = ngx_atoi C (drop 10 v)
         in if \<not> flag fs NGX_NSOC_UPSTREAM_MAX_FAILS then None
            else if n = NGX_ERROR then None else Some (a\<lparr>sa_max_fails := n\<rparr>))
      else if starts ''fail_timeout='' v then
        (let n = ngx_parse_time C (drop 13 v)
         in if \<not> flag fs NGX_NSOC_UPSTREAM_FAIL_TIMEOUT then None
            else if n = NGX_ERROR then None else Some (a\<lparr>sa_fail_timeout := n\<rparr>))
      else if v = ''backup'' then
        (if \<not> flag fs NGX_NSOC_UPSTREAM_BACKUP then None else Some (a\<lparr>sa_backup := True\<rparr>))
      else if v = ''down'' then
        (if \<not> flag fs NGX_NSOC_UPSTREAM_DOWN then None else Some (a\<lparr>sa_down := True\<rparr>))
      else None)"

fun server_params :: "conf_lib \<Rightarrow> 64 word \<Rightarrow> string list \<Rightarrow> server_args \<Rightarrow> server_args option" where
  "server_params C fs [] a = Some a"
| "server_params C fs (v # vs) a = (case server_param C fs v a of None \<Rightarrow> None | Some a1 \<Rightarrow> server_params C fs vs a1)"

definition default_args :: server_args where
  "default_args = \<lparr>sa_weight = 1, sa_max_conns = 0, sa_max_fails = 1, sa_fail_timeout = 10, sa_backup = False, sa_down = False\<rparr>"

definition server_of :: "ngx_url \<Rightarrow> server_args \<Rightarrow> upstream_server" where
  "server_of u a =
     \<lparr>us_name = u_url u, us_addrs = u_addrs u, us_weight = nat (sa_weight a),
      us_max_conns = word_of_int (sa_max_conns a), us_max_fails = nat (sa_max_fails a),
      us_fail_timeout = sa_fail_timeout a, us_down = sa_down a, us_backup = sa_backup a\<rparr>"

text \<open>The arguments of the directive are the address and the parameters.\<close>

definition ngx_nsoc_upstream_server :: "up_lib \<Rightarrow> string list \<Rightarrow> nat \<Rightarrow> uconf \<Rightarrow> uconf option" where
  "ngx_nsoc_upstream_server P args k c =
     (let e = uf_upstreams c ! k; (ok, c1) = uf_alloc c
      in if \<not> ok then None
         else case args of
           [] \<Rightarrow> None
         | url # params \<Rightarrow>
             (case server_params (ul_conf P) (ue_flags e) params default_args of
                None \<Rightarrow> None
              | Some a \<Rightarrow>
                  (case ul_parse_url P url False of
                     None \<Rightarrow> None
                   | Some u \<Rightarrow>
                       if u_no_port u then None
                       else Some (c1\<lparr>uf_upstreams := (uf_upstreams c1)[k := e\<lparr>ue_servers :=
                              map_option (\<lambda>svs. svs @ [server_of u a]) (ue_servers e)\<rparr>]\<rparr>))))"

fun upstream_body :: "up_lib \<Rightarrow> string list list \<Rightarrow> nat \<Rightarrow> uconf \<Rightarrow> uconf option" where
  "upstream_body P [] k c = Some c"
| "upstream_body P (line # lines) k c =
     (case ngx_nsoc_upstream_server P line k c of None \<Rightarrow> None | Some c1 \<Rightarrow> upstream_body P lines k c1)"

abbreviation UPSTREAM_FLAGS :: "64 word" where "UPSTREAM_FLAGS \<equiv> 0x013F"

text \<open>
  The block: \<open>lines\<close> are the \<open>server\<close> lines \<open>ngx_conf_parse\<close> meets inside it, \<open>nconf\<close> the number of
  modules with a server configuration, each of which is created for the block.
\<close>

definition take_allocs :: "nat \<Rightarrow> uconf \<Rightarrow> bool \<times> uconf" where
  "take_allocs n c = fold (\<lambda>_ (ok, c). if ok then uf_alloc c else (False, c)) [0..<n] (True, c)"

definition ngx_nsoc_upstream :: "up_lib \<Rightarrow> nat \<Rightarrow> string \<Rightarrow> string list list \<Rightarrow> uconf \<Rightarrow> uconf option" where
  "ngx_nsoc_upstream P nconf name lines c =
     (let u = \<lparr>u_url = [], u_host = name, u_port = 0, u_no_port = True, u_addrs = [], u_unix = False\<rparr>
      in case ngx_nsoc_upstream_add P u True UPSTREAM_FLAGS c of
           (None, c1) \<Rightarrow> None
         | (Some k, c1) \<Rightarrow>
             (let (ok, c2) = take_allocs (3 + nconf) c1
              in if \<not> ok then None
                 else case upstream_body P lines k
                        (c2\<lparr>uf_upstreams := (uf_upstreams c2)[k := (uf_upstreams c2 ! k)\<lparr>ue_servers := Some []\<rparr>]\<rparr>) of
                   None \<Rightarrow> None
                 | Some c3 \<Rightarrow> if ue_servers (uf_upstreams c3 ! k) = Some [] then None else Some c3))"

section \<open>Start of the balancers\<close>

definition ngx_nsoc_upstream_create_main_conf :: "vconf \<Rightarrow> uconf option" where
  "ngx_nsoc_upstream_create_main_conf v =
     (let (made, v1) = vc_alloc v; (inited, v2) = vc_alloc v1
      in if made \<and> inited then Some \<lparr>uf_vars = v2, uf_upstreams = []\<rparr> else None)"

definition start_upstream ::
  "(upstream_conf \<Rightarrow> int \<times> (rr_peers \<times> rr_peers option) option) \<Rightarrow> upstream_entry \<Rightarrow> upstream_entry option" where
  "start_upstream round_robin e =
     (let init = (case ue_init e of Some f \<Rightarrow> f | None \<Rightarrow> round_robin);
          (rc, peers) = init \<lparr>uc_host = ue_host e, uc_port = ue_port e, uc_servers = ue_servers e\<rparr>
      in if rc = NGX_OK then Some (e\<lparr>ue_peers := peers\<rparr>) else None)"

fun start_upstreams ::
  "(upstream_conf \<Rightarrow> int \<times> (rr_peers \<times> rr_peers option) option) \<Rightarrow> upstream_entry list \<Rightarrow> upstream_entry list option" where
  "start_upstreams f [] = Some []"
| "start_upstreams f (e # es) =
     (case start_upstream f e of None \<Rightarrow> None | Some e1 \<Rightarrow> map_option ((#) e1) (start_upstreams f es))"

definition ngx_nsoc_upstream_init_main_conf ::
  "(string \<Rightarrow> nat \<Rightarrow> string list option) \<Rightarrow> (nat \<Rightarrow> bool) \<Rightarrow> uconf \<Rightarrow> uconf option" where
  "ngx_nsoc_upstream_init_main_conf resolve alloc c =
     map_option (\<lambda>es. c\<lparr>uf_upstreams := es\<rparr>)
       (start_upstreams (ngx_nsoc_upstream_init_round_robin resolve alloc) (uf_upstreams c))"

section \<open>proxy\_pass and proxy\_bind\<close>

record bind_local =
  bl_addr :: "string option"
  bl_value :: "complex_value option"
  bl_transparent :: bool

text \<open>The fields of the proxy's configuration the two directives set, and the content handler.\<close>

record pass_conf =
  pp_upstream :: "nat option"
  pp_value :: "complex_value option"
  pp_local :: "bind_local option option"
  pp_handler :: bool

definition ngx_nsoc_proxy_pass :: "up_lib \<Rightarrow> string \<Rightarrow> pass_conf \<Rightarrow> uconf \<Rightarrow> (pass_conf option, uconf) run" where
  "ngx_nsoc_proxy_pass P url pc c =
     (if pp_upstream pc \<noteq> None \<or> pp_value pc \<noteq> None then Ret None c
      else let pc1 = pc\<lparr>pp_handler := True\<rparr>
        in case ngx_nsoc_compile_complex_value (ul_script P) url False False False (uf_vars c) of
             Crash e \<Rightarrow> Crash e
           | Diverge \<Rightarrow> Diverge
           | Ret None v \<Rightarrow> Ret None (c\<lparr>uf_vars := v\<rparr>)
           | Ret (Some cv) v \<Rightarrow>
               (let c1 = c\<lparr>uf_vars := v\<rparr>
                in if cv_lengths cv \<noteq> None
                   then (let (ok, c2) = uf_alloc c1
                         in if ok then Ret (Some (pc1\<lparr>pp_value := Some cv\<rparr>)) c2 else Ret None c2)
                   else (let u = \<lparr>u_url = url, u_host = [], u_port = 0, u_no_port = False, u_addrs = [], u_unix = False\<rparr>
                         in case ngx_nsoc_upstream_add P u True 0 c1 of
                              (None, c2) \<Rightarrow> Ret None c2
                            | (Some k, c2) \<Rightarrow> Ret (Some (pc1\<lparr>pp_upstream := Some k\<rparr>)) c2)))"

text \<open>The platform has transparent proxying.\<close>

definition bind_option :: "string list \<Rightarrow> bind_local \<Rightarrow> bind_local option" where
  "bind_option params l =
     (case params of [] \<Rightarrow> Some l | p # ps \<Rightarrow> if p = ''transparent'' then Some (l\<lparr>bl_transparent := True\<rparr>) else None)"

definition ngx_nsoc_proxy_bind ::
  "up_lib \<Rightarrow> string \<Rightarrow> string list \<Rightarrow> pass_conf \<Rightarrow> uconf \<Rightarrow> (pass_conf option, uconf) run" where
  "ngx_nsoc_proxy_bind P value params pc c =
     (if pp_local pc \<noteq> None then Ret None c
      else if params = [] \<and> value = ''off'' then Ret (Some (pc\<lparr>pp_local := Some None\<rparr>)) c
      else case ngx_nsoc_compile_complex_value (ul_script P) value False False False (uf_vars c) of
        Crash e \<Rightarrow> Crash e
      | Diverge \<Rightarrow> Diverge
      | Ret None v \<Rightarrow> Ret None (c\<lparr>uf_vars := v\<rparr>)
      | Ret (Some cv) v \<Rightarrow>
          (let (made, c1) = uf_alloc (c\<lparr>uf_vars := v\<rparr>); (room, c2) = uf_alloc c1;
               new = \<lparr>bl_addr = None, bl_value = None, bl_transparent = False\<rparr>;
               l = (if cv_lengths cv \<noteq> None then Some (new\<lparr>bl_value := Some cv\<rparr>)
                    else if ul_parse_addr_port P value = NGX_OK then Some (new\<lparr>bl_addr := Some value\<rparr>) else None)
           in if \<not> made then Ret None c1
              else if \<not> room then Ret None c2
              else Ret (map_option (\<lambda>l. pc\<lparr>pp_local := Some (Some l)\<rparr>) (Option.bind l (bind_option params))) c2))"

section \<open>Invariants of the table of upstreams\<close>

text \<open>
  Names are unique for each port, an upstream block has no port, and the servers of a block
  have a positive weight. \<open>passes\<close> are the URLs of the \<open>proxy_pass\<close> directives so far, with the
  upstream each was given.
\<close>

definition host_port :: "var_lib \<Rightarrow> upstream_entry \<Rightarrow> string \<times> nat" where
  "host_port L e = (ngx_strlow L (ue_host e), ue_port e)"

definition url_key :: "var_lib \<Rightarrow> ngx_url \<Rightarrow> string \<times> nat" where
  "url_key L u = (ngx_strlow L (u_host u), u_port u)"

definition is_block :: "upstream_entry \<Rightarrow> bool" where
  "is_block e \<longleftrightarrow> flag (ue_flags e) NGX_NSOC_UPSTREAM_CREATE"

definition entry_ok :: "upstream_entry \<Rightarrow> bool" where
  "entry_ok e \<longleftrightarrow> ue_init e = None \<and> (is_block e \<longrightarrow> ue_port e = 0
     \<and> (\<exists>svs. ue_servers e = Some svs \<and> (\<forall>sv \<in> set svs. 1 \<le> us_weight sv)))"

definition upstreams_ok :: "var_lib \<Rightarrow> upstream_entry list \<Rightarrow> (ngx_url \<times> nat) list \<Rightarrow> bool" where
  "upstreams_ok L es passes \<longleftrightarrow> distinct (map (host_port L) es) \<and> (\<forall>e \<in> set es. entry_ok e)
     \<and> (\<forall>(u, k) \<in> set passes. k < length es \<and> host_port L (es ! k) = url_key L u)"

lemma same_name_strlow: "same_name L a b \<longleftrightarrow> ngx_strlow L a = ngx_strlow L b"
  by (auto simp: same_name_def ngx_strlow_def dest: map_eq_imp_length_eq)

lemma probe_Fresh: "probe_upstream L fs u i es = Fresh \<Longrightarrow> url_key L u \<notin> set (map (host_port L) es)"
  by (induction L fs u i es rule: probe_upstream.induct)
    (auto simp: host_port_def url_key_def same_name_strlow split: if_splits)

lemma probe_Match:
  "probe_upstream L fs u i es = Match k \<Longrightarrow> i \<le> k \<and> k < i + length es \<and> host_port L (es ! (k - i)) = url_key L u"
proof (induction es arbitrary: i)
  case (Cons e es)
  have "k = i \<and> same_name L (ue_host e) (u_host u) \<and> ue_port e = u_port u \<or> probe_upstream L fs u (Suc i) es = Match k"
    using Cons.prems by (simp split: if_splits)
  then consider "k = i" "same_name L (ue_host e) (u_host u)" "ue_port e = u_port u"
    | "probe_upstream L fs u (Suc i) es = Match k" by blast
  then show ?case
  proof cases
    case 1
    then show ?thesis by (simp add: host_port_def url_key_def same_name_strlow)
  next
    case 2
    then have "Suc i \<le> k \<and> k < Suc i + length es \<and> host_port L (es ! (k - Suc i)) = url_key L u" by (rule Cons.IH)
    moreover from this have "(e # es) ! (k - i) = es ! (k - Suc i)" by (simp add: nth_Cons')
    ultimately show ?thesis by simp
  qed
qed simp

lemma uf_alloc_simps [simp]:
  "uf_alloc c = (fst (pool_take (vc_pool (uf_vars c))), c\<lparr>uf_vars := uf_vars c\<lparr>vc_pool := snd (pool_take (vc_pool (uf_vars c)))\<rparr>\<rparr>)"
  by (simp add: uf_alloc_def)

text \<open>What adding an upstream does to the table.\<close>

lemma upstream_add_cases:
  assumes "ngx_nsoc_upstream_add P u nr fs c = (Some k, c')"
    and "(if flag fs NGX_NSOC_UPSTREAM_CREATE then Some u else ul_parse_url P (u_url u) nr) = Some u1"
  shows "k < length (uf_upstreams c') \<and> host_port (sl_vars (ul_script P)) (uf_upstreams c' ! k) = url_key (sl_vars (ul_script P)) u1
    \<and> (uf_upstreams c' = uf_upstreams c @ [new_entry fs u1]
         \<and> url_key (sl_vars (ul_script P)) u1 \<notin> set (map (host_port (sl_vars (ul_script P))) (uf_upstreams c))
         \<and> k = length (uf_upstreams c)
       \<or> k < length (uf_upstreams c) \<and> uf_upstreams c' = (if flag fs NGX_NSOC_UPSTREAM_CREATE
           then (uf_upstreams c)[k := (uf_upstreams c ! k)\<lparr>ue_flags := fs\<rparr>] else uf_upstreams c))"
proof -
  let ?L = "sl_vars (ul_script P)"
  have new: "host_port ?L (new_entry fs u1) = url_key ?L u1" by (simp add: host_port_def url_key_def new_entry_def)
  consider j where "probe_upstream ?L fs u1 0 (uf_upstreams c) = Match j" | "probe_upstream ?L fs u1 0 (uf_upstreams c) = Fresh"
    using assms by (cases "probe_upstream ?L fs u1 0 (uf_upstreams c)") (auto simp: ngx_nsoc_upstream_add_def)
  then show ?thesis
  proof cases
    case (1 j)
    have j: "j < length (uf_upstreams c)" "host_port ?L (uf_upstreams c ! j) = url_key ?L u1"
      using probe_Match [OF 1] by simp_all
    then have "host_port ?L ((uf_upstreams c ! j)\<lparr>ue_flags := fs\<rparr>) = url_key ?L u1" by (simp add: host_port_def)
    then show ?thesis using assms 1 j by (auto simp: ngx_nsoc_upstream_add_def split: if_splits)
  next
    case 2
    then have "add_entry fs u1 c = (Some k, c')" using assms by (simp add: ngx_nsoc_upstream_add_def)
    then have "k = length (uf_upstreams c)" and "uf_upstreams c' = uf_upstreams c @ [new_entry fs u1]"
      by (auto simp: add_entry_def Let_def split: if_splits)
    then show ?thesis using probe_Fresh [OF 2] new by simp
  qed
qed

text \<open>The steps of a configuration: upstream blocks and \<open>proxy_pass\<close> directives that were accepted.\<close>

inductive up_step ::
  "up_lib \<Rightarrow> uconf \<times> (ngx_url \<times> nat) list \<Rightarrow> uconf \<times> (ngx_url \<times> nat) list \<Rightarrow> bool" for P where
  up_block: "ngx_nsoc_upstream P nconf name lines c = Some c' \<Longrightarrow> up_step P (c, ps) (c', ps)"
| up_pass: "ngx_nsoc_proxy_pass P url pc c = Ret (Some pc') c' \<Longrightarrow> pp_upstream pc' = Some k
    \<Longrightarrow> ul_parse_url P url True = Some u \<Longrightarrow> up_step P (c, ps) (c', (u, k) # ps)"
| up_value: "ngx_nsoc_proxy_pass P url pc c = Ret (Some pc') c' \<Longrightarrow> pp_upstream pc' = None \<Longrightarrow> up_step P (c, ps) (c', ps)"
| up_bind: "ngx_nsoc_proxy_bind P value params pc c = Ret (Some pc') c' \<Longrightarrow> up_step P (c, ps) (c', ps)"

text \<open>\<open>ngx_atoi\<close> returns a number that is not negative, or \<open>NGX_ERROR\<close>.\<close>

definition atoi_contract :: "conf_lib \<Rightarrow> bool" where
  "atoi_contract C \<longleftrightarrow> (\<forall>t. ngx_atoi C t = NGX_ERROR \<or> 0 \<le> ngx_atoi C t)"

lemma server_params_weight:
  assumes "server_params C fs vs a = Some a'" and "atoi_contract C" and "1 \<le> sa_weight a"
  shows "1 \<le> sa_weight a'"
  using assms(1,3)
proof (induction vs arbitrary: a)
  case (Cons v vs)
  obtain a1 where a1: "server_param C fs v a = Some a1" "server_params C fs vs a1 = Some a'"
    using Cons.prems(1) by (auto split: option.splits)
  have "ngx_atoi C (drop 7 v) = NGX_ERROR \<or> 0 \<le> ngx_atoi C (drop 7 v)" using assms(2) by (simp add: atoi_contract_def)
  then have "1 \<le> sa_weight a1"
    using a1(1) Cons.prems(2) by (auto simp: server_param_def Let_def split: if_splits)
  then show ?case using Cons.IH [OF a1(2)] by simp
qed simp

text \<open>An entry with new servers or flags keeps its name and port.\<close>

lemma host_port_simps [simp]:
  "host_port L (e\<lparr>ue_servers := s\<rparr>) = host_port L e" "host_port L (e\<lparr>ue_flags := f\<rparr>) = host_port L e"
  "host_port L (new_entry fs u) = url_key L u"
  by (simp_all add: host_port_def url_key_def new_entry_def)

lemma upstreams_ok_update:
  assumes "upstreams_ok L es passes" and "host_port L e = host_port L (es ! k)" and "entry_ok e"
  shows "upstreams_ok L (es[k := e]) passes"
proof (cases "k < length es")
  case True
  have "map (host_port L) (es[k := e]) = map (host_port L) es" using True assms(2) by (simp add: map_update)
      (metis list_update_id map_update nth_map)
  moreover have "\<forall>x \<in> set (es[k := e]). entry_ok x"
    using assms(1,3) set_update_subset_insert [of es k e] by (auto simp: upstreams_ok_def)
  moreover have "host_port L (es[k := e] ! j) = host_port L (es ! j)" for j
    using assms(2) by (cases "j = k") (simp_all add: True)
  ultimately show ?thesis using assms(1) by (auto simp: upstreams_ok_def)
qed (use assms(1) in \<open>simp add: list_update_beyond\<close>)

lemma upstreams_ok_append:
  assumes "upstreams_ok L es passes" and "host_port L e \<notin> set (map (host_port L) es)" and "entry_ok e"
  shows "upstreams_ok L (es @ [e]) passes"
  using assms by (fastforce simp: upstreams_ok_def nth_append)

lemma take_allocs_upstreams [simp]: "uf_upstreams (snd (take_allocs n c)) = uf_upstreams c"
  by (induction n) (auto simp: take_allocs_def split: prod.splits)

lemma upstream_server_ok:
  assumes "ngx_nsoc_upstream_server P args k c = Some c'" and "atoi_contract (ul_conf P)"
    and "upstreams_ok L (uf_upstreams c) passes" and "k < length (uf_upstreams c)" and "is_block (uf_upstreams c ! k)"
  shows "upstreams_ok L (uf_upstreams c') passes \<and> length (uf_upstreams c') = length (uf_upstreams c) \<and> is_block (uf_upstreams c' ! k)"
proof -
  let ?e = "uf_upstreams c ! k"
  obtain params a u where a: "server_params (ul_conf P) (ue_flags ?e) params default_args = Some a"
    and c': "uf_upstreams c' = (uf_upstreams c)[k := ?e\<lparr>ue_servers := map_option (\<lambda>svs. svs @ [server_of u a]) (ue_servers ?e)\<rparr>]"
    using assms(1) by (auto simp: ngx_nsoc_upstream_server_def Let_def split: if_splits list.splits option.splits)
  have w: "1 \<le> sa_weight a" by (rule server_params_weight [OF a assms(2)]) (simp add: default_args_def)
  have e: "entry_ok ?e" using assms(3,4) by (simp add: upstreams_ok_def)
  show ?thesis unfolding c'
    using assms(4,5) e w
    by (auto intro!: upstreams_ok_update [OF assms(3)] simp: entry_ok_def is_block_def server_of_def)
qed

lemma upstream_body_ok:
  assumes "upstream_body P lines k c = Some c'" and "atoi_contract (ul_conf P)"
    and "upstreams_ok L (uf_upstreams c) passes" and "k < length (uf_upstreams c)" and "is_block (uf_upstreams c ! k)"
  shows "upstreams_ok L (uf_upstreams c') passes"
  using assms(1,3-)
proof (induction lines arbitrary: c)
  case (Cons line lines)
  obtain c1 where c1: "ngx_nsoc_upstream_server P line k c = Some c1" "upstream_body P lines k c1 = Some c'"
    using Cons.prems(1) by (auto split: option.splits)
  have "upstreams_ok L (uf_upstreams c1) passes \<and> length (uf_upstreams c1) = length (uf_upstreams c) \<and> is_block (uf_upstreams c1 ! k)"
    by (rule upstream_server_ok [OF c1(1) assms(2) Cons.prems(2-4)])
  then show ?case using Cons.IH [OF c1(2)] Cons.prems(3) by simp
qed simp

text \<open>Opening a block: the entry is new, or one without a port that a directive had asked for.\<close>

lemma block_added:
  assumes "ngx_nsoc_upstream_add P \<lparr>u_url = [], u_host = name, u_port = 0, u_no_port = True, u_addrs = [], u_unix = False\<rparr>
      True UPSTREAM_FLAGS c = (Some k, c1)"
    and "upstreams_ok (sl_vars (ul_script P)) (uf_upstreams c) passes"
  shows "k < length (uf_upstreams c1)" and "ue_flags (uf_upstreams c1 ! k) = UPSTREAM_FLAGS"
    and "upstreams_ok (sl_vars (ul_script P)) ((uf_upstreams c1)[k := (uf_upstreams c1 ! k)\<lparr>ue_servers := Some []\<rparr>]) passes"
proof -
  let ?L = "sl_vars (ul_script P)" and ?es = "uf_upstreams c"
  let ?u = "\<lparr>u_url = [], u_host = name, u_port = 0, u_no_port = True, u_addrs = [], u_unix = False\<rparr>"
  have create: "flag UPSTREAM_FLAGS NGX_NSOC_UPSTREAM_CREATE" by (simp add: flag_def)
  have cases: "k < length (uf_upstreams c1) \<and> host_port ?L (uf_upstreams c1 ! k) = url_key ?L ?u
    \<and> (uf_upstreams c1 = ?es @ [new_entry UPSTREAM_FLAGS ?u] \<and> url_key ?L ?u \<notin> set (map (host_port ?L) ?es) \<and> k = length ?es
       \<or> k < length ?es \<and> uf_upstreams c1 = ?es[k := (?es ! k)\<lparr>ue_flags := UPSTREAM_FLAGS\<rparr>])"
    using upstream_add_cases [OF assms(1), of ?u] create by (simp only: if_True)
  then show "k < length (uf_upstreams c1)" by simp
  show "ue_flags (uf_upstreams c1 ! k) = UPSTREAM_FLAGS" using cases by (auto simp: new_entry_def)
  have port: "ue_port (uf_upstreams c1 ! k) = 0" using cases by (auto simp: host_port_def url_key_def)
  consider "uf_upstreams c1 = ?es @ [new_entry UPSTREAM_FLAGS ?u]" "url_key ?L ?u \<notin> set (map (host_port ?L) ?es)" "k = length ?es"
    | "k < length ?es" "uf_upstreams c1 = ?es[k := (?es ! k)\<lparr>ue_flags := UPSTREAM_FLAGS\<rparr>]" using cases by blast
  then show "upstreams_ok ?L ((uf_upstreams c1)[k := (uf_upstreams c1 ! k)\<lparr>ue_servers := Some []\<rparr>]) passes"
  proof cases
    case 1
    have "upstreams_ok ?L (?es @ [(new_entry UPSTREAM_FLAGS ?u)\<lparr>ue_servers := Some []\<rparr>]) passes"
    proof (rule upstreams_ok_append [OF assms(2)])
      show "host_port ?L ((new_entry UPSTREAM_FLAGS ?u)\<lparr>ue_servers := Some []\<rparr>) \<notin> set (map (host_port ?L) ?es)"
        using 1(2) by (simp only: host_port_simps not_False_eq_True)
    qed (simp add: entry_ok_def new_entry_def)
    then show ?thesis using 1 by simp
  next
    case 2
    have "upstreams_ok ?L (?es[k := (?es ! k)\<lparr>ue_flags := UPSTREAM_FLAGS, ue_servers := Some []\<rparr>]) passes"
      by (rule upstreams_ok_update [OF assms(2)])
        (use 2 port assms(2) in \<open>auto simp: entry_ok_def upstreams_ok_def\<close>)
    then show ?thesis using 2 by simp
  qed
qed

lemma upstream_block_ok:
  assumes "ngx_nsoc_upstream P nconf name lines c = Some c'" and "atoi_contract (ul_conf P)"
    and "upstreams_ok (sl_vars (ul_script P)) (uf_upstreams c) passes"
  shows "upstreams_ok (sl_vars (ul_script P)) (uf_upstreams c') passes"
proof -
  let ?L = "sl_vars (ul_script P)"
  let ?u = "\<lparr>u_url = [], u_host = name, u_port = 0, u_no_port = True, u_addrs = [], u_unix = False\<rparr>"
  have create: "flag UPSTREAM_FLAGS NGX_NSOC_UPSTREAM_CREATE" by (simp add: flag_def)
  obtain k c1 where add: "ngx_nsoc_upstream_add P ?u True UPSTREAM_FLAGS c = (Some k, c1)"
    using assms(1) by (cases "ngx_nsoc_upstream_add P ?u True UPSTREAM_FLAGS c")
      (auto simp: ngx_nsoc_upstream_def Let_def split: option.splits)
  obtain ok c2 where ta: "take_allocs (3 + nconf) c1 = (ok, c2)" by fastforce
  have c2: "uf_upstreams c2 = uf_upstreams c1" using take_allocs_upstreams [of "3 + nconf" c1] ta by simp
  let ?es = "(uf_upstreams c1)[k := (uf_upstreams c1 ! k)\<lparr>ue_servers := Some []\<rparr>]"
  have body: "upstream_body P lines k (c2\<lparr>uf_upstreams := ?es\<rparr>) = Some c'"
    using assms(1) add ta c2 by (auto simp: ngx_nsoc_upstream_def Let_def split: option.splits if_splits)
  have k: "k < length (uf_upstreams c1)" "ue_flags (uf_upstreams c1 ! k) = UPSTREAM_FLAGS"
    and ok: "upstreams_ok ?L ?es passes"
    using block_added [OF add assms(3)] by simp_all
  have "upstreams_ok ?L (uf_upstreams c') passes"
    by (rule upstream_body_ok [OF body assms(2)]) (use k ok create in \<open>simp_all add: is_block_def\<close>)
  then show ?thesis .
qed

lemma pass_add:
  assumes "ngx_nsoc_proxy_pass P url pc c = Ret (Some pc') c'" and "pp_upstream pc' = Some k"
  shows "\<exists>v. ngx_nsoc_upstream_add P \<lparr>u_url = url, u_host = [], u_port = 0, u_no_port = False, u_addrs = [], u_unix = False\<rparr>
    True 0 (c\<lparr>uf_vars := v\<rparr>) = (Some k, c')"
  using assms
  by (auto simp: ngx_nsoc_proxy_pass_def Let_def split: if_splits run.splits option.splits prod.splits)

lemma pass_no_upstream:
  assumes "ngx_nsoc_proxy_pass P url pc c = Ret (Some pc') c'" and "pp_upstream pc' = None"
  shows "uf_upstreams c' = uf_upstreams c"
  using assms
  by (auto simp: ngx_nsoc_proxy_pass_def Let_def split: if_splits run.splits option.splits prod.splits)

lemma bind_upstreams:
  "ngx_nsoc_proxy_bind P value params pc c = Ret (Some pc') c' \<Longrightarrow> uf_upstreams c' = uf_upstreams c"
  by (auto simp: ngx_nsoc_proxy_bind_def Let_def split: if_splits run.splits option.splits)

lemma up_step_ok:
  assumes "up_step P (c, ps) (c', ps')" and "atoi_contract (ul_conf P)"
    and "upstreams_ok (sl_vars (ul_script P)) (uf_upstreams c) ps"
  shows "upstreams_ok (sl_vars (ul_script P)) (uf_upstreams c') ps'"
  using assms(1)
proof cases
  case (up_block nconf name lines)
  then show ?thesis using upstream_block_ok [OF _ assms(2,3)] by simp
next
  case (up_pass url pc pc' k u)
  let ?L = "sl_vars (ul_script P)"
  have no: "\<not> flag 0 NGX_NSOC_UPSTREAM_CREATE" by (simp add: flag_def)
  obtain v where add: "ngx_nsoc_upstream_add P
      \<lparr>u_url = url, u_host = [], u_port = 0, u_no_port = False, u_addrs = [], u_unix = False\<rparr> True 0 (c\<lparr>uf_vars := v\<rparr>) = (Some k, c')"
    using pass_add [OF up_pass(2,3)] by blast
  have u: "k < length (uf_upstreams c')" "host_port ?L (uf_upstreams c' ! k) = url_key ?L u"
    and es: "uf_upstreams c' = uf_upstreams c @ [new_entry 0 u] \<and> url_key ?L u \<notin> set (map (host_port ?L) (uf_upstreams c))
      \<or> uf_upstreams c' = uf_upstreams c"
    using upstream_add_cases [OF add, of u] up_pass(4) no by auto
  have "upstreams_ok ?L (uf_upstreams c') ps"
  proof (cases "uf_upstreams c' = uf_upstreams c")
    case False
    then have "uf_upstreams c' = uf_upstreams c @ [new_entry 0 u]" "url_key ?L u \<notin> set (map (host_port ?L) (uf_upstreams c))"
      using es by blast+
    moreover have "entry_ok (new_entry 0 u)" using no by (simp add: entry_ok_def is_block_def new_entry_def)
    ultimately show ?thesis using upstreams_ok_append [OF assms(3), of "new_entry 0 u"] by simp
  qed (simp add: assms(3))
  then show ?thesis using u up_pass(1) by (auto simp: upstreams_ok_def)
next
  case (up_value url pc pc')
  then show ?thesis using pass_no_upstream assms(3) by simp
next
  case (up_bind addr params pc pc')
  then show ?thesis using bind_upstreams [OF up_bind(2)] assms(3) by simp
qed

lemma up_steps_ok:
  assumes "(up_step P)\<^sup>*\<^sup>* (c0, []) (c, ps)" and "uf_upstreams c0 = []" and "atoi_contract (ul_conf P)"
  shows "upstreams_ok (sl_vars (ul_script P)) (uf_upstreams c) ps"
proof -
  have "upstreams_ok (sl_vars (ul_script P)) (uf_upstreams (fst x)) (snd x)" if "(up_step P)\<^sup>*\<^sup>* (c0, []) x" for x
    using that
  proof (induction rule: rtranclp_induct)
    case (step y z)
    then show ?case using up_step_ok [of P "fst y" "snd y" "fst z" "snd z"] assms(3) by simp
  qed (simp add: upstreams_ok_def assms(2))
  then show ?thesis using assms(1) by fastforce
qed

section \<open>A concrete configuration\<close>

text \<open>A configuration in which \<open>proxy_pass back\<close> comes before the block \<open>upstream Back\<close> with one server.\<close>

definition demo_url :: "string \<Rightarrow> bool \<Rightarrow> ngx_url option" where
  "demo_url t no_resolve =
     Some (if t = ''back'' then \<lparr>u_url = t, u_host = t, u_port = 0, u_no_port = True, u_addrs = [], u_unix = False\<rparr>
           else \<lparr>u_url = t, u_host = t, u_port = 1, u_no_port = False, u_addrs = [t], u_unix = False\<rparr>)"

definition demo_up_lib :: up_lib where
  "demo_up_lib = \<lparr>ul_script = demo_script_lib,
     ul_conf = \<lparr>ngx_parse_url = (\<lambda>t. None), ngx_atoi = (\<lambda>t. if t = ''2'' then 2 else NGX_ERROR), ngx_parse_time = (\<lambda>t. NGX_ERROR)\<rparr>,
     ul_parse_url = demo_url, ul_parse_addr_port = (\<lambda>t. NGX_ERROR)\<rparr>"

definition demo_uconf :: uconf where
  "demo_uconf = \<lparr>uf_vars = empty_vconf, uf_upstreams = []\<rparr>"

definition demo_pass :: "(pass_conf option, uconf) run" where
  "demo_pass = ngx_nsoc_proxy_pass demo_up_lib ''back''
     \<lparr>pp_upstream = None, pp_value = None, pp_local = None, pp_handler = False\<rparr> demo_uconf"

definition demo_passed :: uconf where
  "demo_passed = run_state demo_pass demo_uconf"

definition demo_pass_conf :: pass_conf where
  "demo_pass_conf = \<lparr>pp_upstream = Some 0, pp_value = None, pp_local = None, pp_handler = True\<rparr>"

definition demo_blocks :: uconf where
  "demo_blocks = (case ngx_nsoc_upstream demo_up_lib 1 ''Back'' [[''s'', ''weight=2'']] demo_passed of
     None \<Rightarrow> demo_uconf | Some c \<Rightarrow> c)"

lemma option_eta: "\<not> Option.is_none r \<Longrightarrow> r = Some (case r of None \<Rightarrow> d | Some x \<Rightarrow> x)"
  by (simp add: Option.is_none_def split: option.splits)

lemma demo_steps_up:
  "(up_step demo_up_lib)\<^sup>*\<^sup>* (demo_uconf, [])
     (demo_blocks, [(\<lparr>u_url = ''back'', u_host = ''back'', u_port = 0, u_no_port = True, u_addrs = [], u_unix = False\<rparr>, 0)])"
proof -
  let ?u = "\<lparr>u_url = ''back'', u_host = ''back'', u_port = 0, u_no_port = True, u_addrs = [], u_unix = False\<rparr>"
  have "run_value demo_pass = Some (Some demo_pass_conf)" by code_simp
  then have "demo_pass = Ret (Some demo_pass_conf) demo_passed" unfolding demo_passed_def by (rule run_eta)
  then have "up_step demo_up_lib (demo_uconf, []) (demo_passed, [(?u, 0)])"
    unfolding demo_pass_def by (rule up_pass) (simp_all add: demo_pass_conf_def demo_up_lib_def demo_url_def)
  moreover have "ngx_nsoc_upstream demo_up_lib 1 ''Back'' [[''s'', ''weight=2'']] demo_passed = Some demo_blocks"
    unfolding demo_blocks_def by (rule option_eta) code_simp
  then have "up_step demo_up_lib (demo_passed, [(?u, 0)]) (demo_blocks, [(?u, 0)])" by (rule up_block)
  ultimately show ?thesis by simp
qed

lemma demo_atoi: "atoi_contract (ul_conf demo_up_lib)"
  by (simp add: atoi_contract_def demo_up_lib_def)

lemma demo_is_block: "is_block (uf_upstreams demo_blocks ! 0)" "length (uf_upstreams demo_blocks) = 1"
  by code_simp+

section \<open>Properties\<close>

text \<open>
  C15: A \<open>proxy_pass\<close> with the name of an \<open>upstream\<close> block and no port leads to that block, whichever
  of the two comes first and whatever other directives there are: no two upstreams have the
  same name and port, up to case.
\<close>

theorem proxy_pass_reaches_block:
  assumes "(up_step P)\<^sup>*\<^sup>* (c0, []) (c, ps)" and "uf_upstreams c0 = []" and "atoi_contract (ul_conf P)"
    and "(u, k) \<in> set ps" and "u_port u = 0"
    and "j < length (uf_upstreams c)" and "is_block (uf_upstreams c ! j)"
    and "same_name (sl_vars (ul_script P)) (ue_host (uf_upstreams c ! j)) (u_host u)"
  shows "k = j"
proof -
  let ?L = "sl_vars (ul_script P)" and ?es = "uf_upstreams c"
  have ok: "upstreams_ok ?L ?es ps" by (rule up_steps_ok [OF assms(1-3)])
  then have k: "k < length ?es" "host_port ?L (?es ! k) = url_key ?L u" using assms(4) by (auto simp: upstreams_ok_def)
  have "entry_ok (?es ! j)" using ok assms(6) by (simp add: upstreams_ok_def)
  then have "host_port ?L (?es ! j) = url_key ?L u"
    using assms(5,7,8) by (simp add: entry_ok_def host_port_def url_key_def same_name_strlow)
  then have "map (host_port ?L) ?es ! k = map (host_port ?L) ?es ! j" using k assms(6) by simp
  moreover have "distinct (map (host_port ?L) ?es)" using ok by (simp add: upstreams_ok_def)
  ultimately show ?thesis using nth_eq_iff_index_eq [of "map (host_port ?L) ?es" k j] k(1) assms(6) by (simp only: length_map)
qed

theorem proxy_pass_reaches_block_witness:
  "pp_upstream demo_pass_conf = find_at is_block 0 (uf_upstreams demo_blocks)"
proof -
  have same: "same_name demo_var_lib (ue_host (uf_upstreams demo_blocks ! 0)) ''back''" by code_simp
  obtain j where j: "find_at is_block 0 (uf_upstreams demo_blocks) = Some j"
    using demo_is_block by (cases "uf_upstreams demo_blocks") auto
  then have "j < length (uf_upstreams demo_blocks)" "is_block (uf_upstreams demo_blocks ! j)"
    using find_at_SomeD [OF j] by simp_all
  then have "0 = j"
    by (intro proxy_pass_reaches_block [OF demo_steps_up _ demo_atoi, of _ 0 j])
      (use same demo_is_block in \<open>auto simp: demo_uconf_def demo_up_lib_def demo_script_lib_def\<close>)
  then show ?thesis using j by (simp add: demo_pass_conf_def)
qed

lemma start_upstreams_from:
  "start_upstreams f es = Some es' \<Longrightarrow> e \<in> set es' \<Longrightarrow> \<exists>e0 \<in> set es. start_upstream f e0 = Some e"
  by (induction es arbitrary: es') (auto split: option.splits)

definition fresh_peer :: "rr_peer \<Rightarrow> bool" where
  "fresh_peer q \<longleftrightarrow> 1 \<le> weight q \<and> effective_weight q = weight q \<and> current_weight q = 0"

lemma server_peers_fresh:
  assumes "\<forall>sv \<in> set svs. 1 \<le> us_weight sv"
  shows "number (server_peers sgl h svs) = length (plist (server_peers sgl h svs))"
    and "\<forall>q \<in> set (plist (server_peers sgl h svs)). fresh_peer q"
  using assms
  by (auto simp: server_peers_def count_addrs_def peer_of_def fresh_peer_def length_concat comp_def)

lemma init_servers:
  assumes "ngx_nsoc_upstream_init_round_robin resolve alloc us = (NGX_OK, peers)" and "uc_servers us = Some svs"
  shows "\<exists>p b sgl. peers = Some (p, b) \<and> plist p = plist (server_peers sgl (uc_host us) (filter (\<lambda>sv. \<not> us_backup sv) svs))
    \<and> number p = length (plist p) \<and> plist p \<noteq> []
    \<and> (\<forall>g. b = Some g \<longrightarrow> g = server_peers False (uc_host us) (filter us_backup svs))"
proof -
  let ?main = "filter (\<lambda>sv. \<not> us_backup sv) svs"
  have n: "number (server_peers s h l) = length (plist (server_peers s h l))" for s h l
    by (simp add: server_peers_def count_addrs_def length_concat comp_def)
  have "plist (server_peers s h ?main) \<noteq> []" if "count_addrs ?main \<noteq> 0" for s h
    using n [of s h ?main] that by (auto simp: server_peers_def)
  then show ?thesis using assms
    by (auto simp: n ngx_nsoc_upstream_init_round_robin_def Let_def split: if_splits)
qed

text \<open>The entries of a table that has been started, and the balancer of a block among them.\<close>

lemma started_entry:
  assumes "upstreams_ok L (uf_upstreams c) ps" and "ngx_nsoc_upstream_init_main_conf resolve alloc c = Some c'"
    and "e \<in> set (uf_upstreams c')"
  obtains e0 where "entry_ok e0" "is_block e0 \<longleftrightarrow> is_block e"
    "ngx_nsoc_upstream_init_round_robin resolve alloc \<lparr>uc_host = ue_host e0, uc_port = ue_port e0, uc_servers = ue_servers e0\<rparr>
       = (NGX_OK, ue_peers e)"
proof -
  obtain e0 where e0: "e0 \<in> set (uf_upstreams c)"
    and start: "start_upstream (ngx_nsoc_upstream_init_round_robin resolve alloc) e0 = Some e"
    using assms(2,3) start_upstreams_from by (fastforce simp: ngx_nsoc_upstream_init_main_conf_def)
  have ok: "entry_ok e0" using assms(1) e0 by (simp add: upstreams_ok_def)
  show thesis
    by (rule that [OF ok])
      (use start ok in \<open>auto simp: start_upstream_def entry_ok_def is_block_def Let_def split: prod.splits if_splits\<close>)
qed

lemma started_balanced:
  assumes "upstreams_ok L (uf_upstreams c) ps" and "ngx_nsoc_upstream_init_main_conf resolve alloc c = Some c'"
    and "e \<in> set (uf_upstreams c')" and "is_block e"
  shows "\<exists>p b. ue_peers e = Some (p, b) \<and> plist p \<noteq> []
    \<and> (\<forall>g. g = p \<or> b = Some g \<longrightarrow> number g = length (plist g) \<and> (\<forall>q \<in> set (plist g). fresh_peer q))"
proof -
  obtain e0 where e0: "entry_ok e0" "is_block e0 \<longleftrightarrow> is_block e" "ngx_nsoc_upstream_init_round_robin resolve alloc
      \<lparr>uc_host = ue_host e0, uc_port = ue_port e0, uc_servers = ue_servers e0\<rparr> = (NGX_OK, ue_peers e)"
    by (rule started_entry [OF assms(1-3)])
  then obtain svs where svs: "ue_servers e0 = Some svs" "\<forall>sv \<in> set svs. 1 \<le> us_weight sv"
    using assms(4) by (auto simp: entry_ok_def)
  obtain p b sgl where p: "ue_peers e = Some (p, b)" "plist p \<noteq> []" "number p = length (plist p)"
    "plist p = plist (server_peers sgl (ue_host e0) (filter (\<lambda>sv. \<not> us_backup sv) svs))"
    "\<forall>g. b = Some g \<longrightarrow> g = server_peers False (ue_host e0) (filter us_backup svs)"
    using init_servers [OF e0(3), of svs] svs(1) by auto
  have "\<forall>q \<in> set (plist p). fresh_peer q"
    unfolding p(4) by (rule server_peers_fresh(2)) (use svs(2) in simp)
  moreover have "number g = length (plist g) \<and> (\<forall>q \<in> set (plist g). fresh_peer q)" if "b = Some g" for g
    using server_peers_fresh [of "filter us_backup svs" False "ue_host e0"] svs(2) p(5) that by simp
  ultimately show ?thesis using p(1-3) by blast
qed

end
