(* ===== verification/Nsoc_Block.thy ===== *)
theory Nsoc_Block
  imports Nsoc_Upstream
begin

text \<open>
  The whole \<open>noise_socket\<close> block of the configuration: \<open>ngx_nsoc_block\<close> (\<open>src/ngx_nsoc.c\<close>), which runs
  the hooks of the five modules around the directives, the \<open>server\<close> block and the main
  configuration of the core module (\<open>src/ngx_nsoc_core_module.c\<close>), and the tables of directives
  of all modules.

  The directives are given as the tokens \<open>ngx_conf_parse\<close> reads. What a directive finds in \<open>cf->ctx\<close>
  is the number of a server, or \<open>None\<close> for the null server configuration of the block. A result
  \<open>Ret False\<close> is a refused configuration.
\<close>

section \<open>State\<close>

text \<open>
  The server configurations of the modules. The fields \<open>upstream\<close>, \<open>upstream_value\<close> and \<open>local\<close> of the
  proxy's are in \<open>sv_pass\<close>, where the directives \<open>proxy_pass\<close> and \<open>proxy_bind\<close> put them.
\<close>

record ('w, 'h, 'k) server_block =
  sv_core :: "('w, 'h, 'k) core_srv_conf"
  sv_listen :: bool
  sv_proxy :: proxy_srv_conf
  sv_pass :: pass_conf
  sv_noise :: noiseserver_conf

text \<open>
  The main configurations, the null server configuration and the servers, what the block
  leaves behind (phase table, top filter, listening sockets), and the world of the allocator. A phase
  handler is a function of the server configuration of its session, the type \<open>'f\<close>.
\<close>

record ('w, 'h, 'k, 'f) nsoc_conf =
  nf_up :: uconf
  nf_hash_max :: "nat option"
  nf_hash_bucket :: "nat option"
  nf_listen :: "listen_opt list"
  nf_null :: "('w, 'h, 'k) server_block"
  nf_servers :: "('w, 'h, 'k) server_block list"
  nf_phases :: "ngx_nsoc_phases \<Rightarrow> 'f list"
  nf_engine :: "'f phase_handler_t list option"
  nf_filter :: bool
  nf_sockets :: "listening list"
  nf_world :: 'w

text \<open>
  nginx and the handlers of other parts. The slot functions \<open>ngx_conf_set_num_slot\<close> and so on get the
  argument and the field and return its new value, or \<open>None\<close> (a duplicate or an invalid value);
  \<open>bk_set_log\<close> is \<open>ngx_log_set_log\<close>, \<open>bk_resolver\<close> is \<open>ngx_resolver_create\<close>, \<open>bk_align\<close> aligns to the cache line.
  \<open>bk_cleanup\<close> tells whether \<open>ngx_pool_cleanup_add\<close> succeeds for a server.
\<close>

record ('w, 'h, 'k, 'f) block_lib =
  bk_up :: up_lib
  bk_nginx :: "'w nginx"
  bk_ids :: noise_ids
  bk_files :: "string \<Rightarrow> byte list option"
  bk_place :: "64 word \<times> byte list"
  bk_content :: "('w, 'h, 'k) sess \<Rightarrow> (unit, ('w, 'h, 'k) sess) run"
  bk_guard :: 'f
  bk_num_slot :: "string \<Rightarrow> nat option \<Rightarrow> nat option"
  bk_size_slot :: "string \<Rightarrow> nat option \<Rightarrow> nat option"
  bk_msec_slot :: "string \<Rightarrow> nat option \<Rightarrow> nat option"
  bk_flag_slot :: "string \<Rightarrow> bool option \<Rightarrow> bool option"
  bk_str_slot :: "string \<Rightarrow> string option \<Rightarrow> string option"
  bk_set_log :: "string list \<Rightarrow> nat option \<Rightarrow> nat option"
  bk_resolver :: "string list \<Rightarrow> nat option"
  bk_new_log :: nat
  bk_align :: "nat \<Rightarrow> nat"
  bk_cleanup :: "nat \<Rightarrow> bool"
  bk_resolve :: "string \<Rightarrow> nat \<Rightarrow> string list option"
  bk_peer_alloc :: "nat \<Rightarrow> bool"
  bk_socket_alloc :: "listen_opt \<Rightarrow> bool"
  bk_ntop :: "ip \<Rightarrow> nat \<Rightarrow> string"
  bk_sort :: "listen_opt list \<Rightarrow> listen_opt list"

abbreviation bk_vars where "bk_vars B \<equiv> sl_vars (ul_script (bk_up B))"

definition nf_alloc :: "('w, 'h, 'k, 'f) nsoc_conf \<Rightarrow> bool \<times> ('w, 'h, 'k, 'f) nsoc_conf" where
  "nf_alloc c = (let (ok, u) = uf_alloc (nf_up c) in (ok, c\<lparr>nf_up := u\<rparr>))"

definition nf_allocs :: "nat \<Rightarrow> ('w, 'h, 'k, 'f) nsoc_conf \<Rightarrow> (bool, ('w, 'h, 'k, 'f) nsoc_conf) run" where
  "nf_allocs n c = (let (ok, u) = take_allocs n (nf_up c) in Ret ok (c\<lparr>nf_up := u\<rparr>))"

text \<open>Going on after a step that was not refused.\<close>

definition and_then :: "(bool, 's) run \<Rightarrow> ('s \<Rightarrow> (bool, 's) run) \<Rightarrow> (bool, 's) run" where
  "and_then r f = bind_run r (\<lambda>ok s. if ok then f s else Ret False s)"

lemma and_then_True:
  "and_then r f = Ret True t \<longleftrightarrow> (\<exists>s. r = Ret True s \<and> f s = Ret True t)"
  by (auto simp: and_then_def bind_run_Ret_iff)

text \<open>A loop whose body may refuse.\<close>

fun each :: "('a \<Rightarrow> 's \<Rightarrow> (bool, 's) run) \<Rightarrow> 'a list \<Rightarrow> 's \<Rightarrow> (bool, 's) run" where
  "each f [] s = Ret True s"
| "each f (x # xs) s = and_then (f x s) (each f xs)"

definition get_srv :: "nat option \<Rightarrow> ('w, 'h, 'k, 'f) nsoc_conf \<Rightarrow> ('w, 'h, 'k) server_block" where
  "get_srv k c = (case k of None \<Rightarrow> nf_null c | Some i \<Rightarrow> nf_servers c ! i)"

definition put_srv ::
  "nat option \<Rightarrow> ('w, 'h, 'k) server_block \<Rightarrow> ('w, 'h, 'k, 'f) nsoc_conf \<Rightarrow> ('w, 'h, 'k, 'f) nsoc_conf" where
  "put_srv k s c = (case k of None \<Rightarrow> c\<lparr>nf_null := s\<rparr> | Some i \<Rightarrow> c\<lparr>nf_servers := (nf_servers c)[i := s]\<rparr>)"

section \<open>Directives of a server\<close>

text \<open>
  The directives with one argument that a slot function of nginx handles, for each module: the
  name and what is done to the module's configuration.
\<close>

definition core_slots ::
  "('w, 'h, 'k, 'f) block_lib \<Rightarrow> (string \<times> (string \<Rightarrow> ('w, 'h, 'k) core_srv_conf \<Rightarrow> ('w, 'h, 'k) core_srv_conf option)) list" where
  "core_slots B =
    [(''resolver_timeout'', \<lambda>v s. map_option (\<lambda>x. s\<lparr>resolver_timeout := Some x\<rparr>) (bk_msec_slot B v (resolver_timeout s))),
     (''tcp_nodelay'', \<lambda>v s. map_option (\<lambda>x. s\<lparr>cscf_tcp_nodelay := Some x\<rparr>) (bk_flag_slot B v (cscf_tcp_nodelay s))),
     (''preread_buffer_size'',
       \<lambda>v s. map_option (\<lambda>x. s\<lparr>nsoc_preread_buffer_size := Some x\<rparr>) (bk_size_slot B v (nsoc_preread_buffer_size s))),
     (''preread_timeout'', \<lambda>v s. map_option (\<lambda>x. s\<lparr>preread_timeout := Some x\<rparr>) (bk_msec_slot B v (preread_timeout s)))]"

definition proxy_slots ::
  "('w, 'h, 'k, 'f) block_lib \<Rightarrow> (string \<times> (string \<Rightarrow> proxy_srv_conf \<Rightarrow> proxy_srv_conf option)) list" where
  "proxy_slots B =
    [(''proxy_connect_timeout'', \<lambda>v s. map_option (\<lambda>x. s\<lparr>connect_timeout := Some x\<rparr>) (bk_msec_slot B v (connect_timeout s))),
     (''proxy_timeout'', \<lambda>v s. map_option (\<lambda>x. s\<lparr>px_timeout := Some x\<rparr>) (bk_msec_slot B v (px_timeout s))),
     (''block_buffer_size'', \<lambda>v s. map_option (\<lambda>x. s\<lparr>buffer_size := Some x\<rparr>) (bk_size_slot B v (buffer_size s))),
     (''proxy_upload_rate'', \<lambda>v s. map_option (\<lambda>x. s\<lparr>upload_rate := Some x\<rparr>) (bk_size_slot B v (upload_rate s))),
     (''proxy_download_rate'', \<lambda>v s. map_option (\<lambda>x. s\<lparr>download_rate := Some x\<rparr>) (bk_size_slot B v (download_rate s))),
     (''proxy_responses'', \<lambda>v s. map_option (\<lambda>x. s\<lparr>responses := Some x\<rparr>) (bk_num_slot B v (responses s))),
     (''proxy_next_upstream'', \<lambda>v s. map_option (\<lambda>x. s\<lparr>next_upstream := Some x\<rparr>) (bk_flag_slot B v (next_upstream s))),
     (''proxy_next_upstream_tries'',
       \<lambda>v s. map_option (\<lambda>x. s\<lparr>next_upstream_tries := Some x\<rparr>) (bk_num_slot B v (next_upstream_tries s))),
     (''proxy_next_upstream_timeout'',
       \<lambda>v s. map_option (\<lambda>x. s\<lparr>next_upstream_timeout := Some x\<rparr>) (bk_msec_slot B v (next_upstream_timeout s))),
     (''proxy_noise'', \<lambda>v s. map_option (\<lambda>x. s\<lparr>noise_enable := Some x\<rparr>) (bk_flag_slot B v (noise_enable s))),
     (''client_private_key_file'',
       \<lambda>v s. map_option (\<lambda>x. s\<lparr>client_private_key_file := Some x\<rparr>) (bk_str_slot B v (client_private_key_file s))),
     (''server_public_key_file'',
       \<lambda>v s. map_option (\<lambda>x. s\<lparr>server_public_key_file := Some x\<rparr>) (bk_str_slot B v (server_public_key_file s)))]"

definition noise_slots ::
  "('w, 'h, 'k, 'f) block_lib \<Rightarrow> (string \<times> (string \<Rightarrow> noiseserver_conf \<Rightarrow> noiseserver_conf option)) list" where
  "noise_slots B =
    [(''noise_handshake_timeout'',
       \<lambda>v s. map_option (\<lambda>x. s\<lparr>nsc_handshake_timeout := Some x\<rparr>) (bk_msec_slot B v (nsc_handshake_timeout s))),
     (''server_private_key_file'',
       \<lambda>v s. map_option (\<lambda>x. s\<lparr>server_private_key_file := Some x\<rparr>) (bk_str_slot B v (server_private_key_file s))),
     (''client_public_key_file'',
       \<lambda>v s. map_option (\<lambda>x. s\<lparr>client_public_key_file := Some x\<rparr>) (bk_str_slot B v (client_public_key_file s)))]"

text \<open>The slot directive \<open>name\<close> with argument \<open>v\<close> on the configurations of a server.\<close>

definition set_slot ::
  "('w, 'h, 'k, 'f) block_lib \<Rightarrow> string \<Rightarrow> string \<Rightarrow> ('w, 'h, 'k) server_block \<Rightarrow> ('w, 'h, 'k) server_block option" where
  "set_slot B name v s =
     (case map_of (core_slots B) name of
        Some f \<Rightarrow> map_option (\<lambda>x. s\<lparr>sv_core := x\<rparr>) (f v (sv_core s))
      | None \<Rightarrow>
          (case map_of (proxy_slots B) name of
             Some f \<Rightarrow> map_option (\<lambda>x. s\<lparr>sv_proxy := x\<rparr>) (f v (sv_proxy s))
           | None \<Rightarrow>
               (case map_of (noise_slots B) name of
                  Some f \<Rightarrow> map_option (\<lambda>x. s\<lparr>sv_noise := x\<rparr>) (f v (sv_noise s))
                | None \<Rightarrow> None)))"

definition ngx_nsoc_core_error_log ::
  "('w, 'h, 'k, 'f) block_lib \<Rightarrow> string list \<Rightarrow> ('w, 'h, 'k) core_srv_conf \<Rightarrow> ('w, 'h, 'k) core_srv_conf option" where
  "ngx_nsoc_core_error_log B args s = map_option (\<lambda>l. s\<lparr>error_log := Some l\<rparr>) (bk_set_log B args (error_log s))"

definition ngx_nsoc_core_resolver ::
  "('w, 'h, 'k, 'f) block_lib \<Rightarrow> string list \<Rightarrow> ('w, 'h, 'k) core_srv_conf \<Rightarrow> ('w, 'h, 'k) core_srv_conf option" where
  "ngx_nsoc_core_resolver B args s =
     (if resolver s \<noteq> None then None
      else case bk_resolver B args of None \<Rightarrow> None | Some r \<Rightarrow> Some (s\<lparr>resolver := Some r\<rparr>))"

text \<open>A directive that changes nothing but the server's own configuration.\<close>

definition put_if ::
  "nat option \<Rightarrow> ('w, 'h, 'k) server_block option \<Rightarrow> ('w, 'h, 'k, 'f) nsoc_conf \<Rightarrow> (bool, ('w, 'h, 'k, 'f) nsoc_conf) run" where
  "put_if k r c = (case r of None \<Rightarrow> Ret False c | Some s \<Rightarrow> Ret True (put_srv k s c))"

definition listen_directive ::
  "('w, 'h, 'k, 'f) block_lib \<Rightarrow> nat \<Rightarrow> string list \<Rightarrow> ('w, 'h, 'k, 'f) nsoc_conf \<Rightarrow> (bool, ('w, 'h, 'k, 'f) nsoc_conf) run" where
  "listen_directive B i args c =
     (let c1 = put_srv (Some i) ((get_srv (Some i) c)\<lparr>sv_listen := True\<rparr>) c; (ok, c2) = nf_alloc c1
      in case ngx_nsoc_core_listen (ul_conf (bk_up B)) ok i args (nf_listen c2) of
           None \<Rightarrow> Ret False c2 | Some ls \<Rightarrow> Ret True (c2\<lparr>nf_listen := ls\<rparr>))"

text \<open>\<open>proxy_pass\<close> sets the content handler in the core module's configuration of the server.\<close>

definition pass_directive ::
  "('w, 'h, 'k, 'f) block_lib \<Rightarrow> nat option \<Rightarrow> string \<Rightarrow> ('w, 'h, 'k, 'f) nsoc_conf \<Rightarrow> (bool, ('w, 'h, 'k, 'f) nsoc_conf) run" where
  "pass_directive B k url c =
     (case ngx_nsoc_proxy_pass (bk_up B) url (sv_pass (get_srv k c)) (nf_up c) of
        Crash e \<Rightarrow> Crash e
      | Diverge \<Rightarrow> Diverge
      | Ret None u \<Rightarrow> Ret False (c\<lparr>nf_up := u\<rparr>)
      | Ret (Some p) u \<Rightarrow>
          (let s = get_srv k c
           in Ret True (put_srv k (s\<lparr>sv_pass := p, sv_core := (sv_core s)\<lparr>cscf_handler := Some (bk_content B)\<rparr>\<rparr>)
                (c\<lparr>nf_up := u\<rparr>))))"

definition bind_directive ::
  "('w, 'h, 'k, 'f) block_lib \<Rightarrow> nat option \<Rightarrow> string \<Rightarrow> string list \<Rightarrow> ('w, 'h, 'k, 'f) nsoc_conf
    \<Rightarrow> (bool, ('w, 'h, 'k, 'f) nsoc_conf) run" where
  "bind_directive B k value params c =
     (case ngx_nsoc_proxy_bind (bk_up B) value params (sv_pass (get_srv k c)) (nf_up c) of
        Crash e \<Rightarrow> Crash e
      | Diverge \<Rightarrow> Diverge
      | Ret None u \<Rightarrow> Ret False (c\<lparr>nf_up := u\<rparr>)
      | Ret (Some p) u \<Rightarrow> Ret True (put_srv k ((get_srv k c)\<lparr>sv_pass := p\<rparr>) (c\<lparr>nf_up := u\<rparr>)))"

text \<open>
  A directive inside a server, or with \<open>k = None\<close> one of them that may stand in the main block:
  all but \<open>listen\<close> and \<open>proxy_pass\<close>.
\<close>

definition srv_directive ::
  "('w, 'h, 'k, 'f) block_lib \<Rightarrow> nat option \<Rightarrow> string list \<Rightarrow> ('w, 'h, 'k, 'f) nsoc_conf \<Rightarrow> (bool, ('w, 'h, 'k, 'f) nsoc_conf) run" where
  "srv_directive B k tokens c =
     (case tokens of
        name # v # vs \<Rightarrow>
          (if name = ''listen'' then (case k of None \<Rightarrow> Ret False c | Some i \<Rightarrow> listen_directive B i (v # vs) c)
           else if name = ''error_log'' then
             (let s = get_srv k c
              in put_if k (map_option (\<lambda>x. s\<lparr>sv_core := x\<rparr>) (ngx_nsoc_core_error_log B (v # vs) (sv_core s))) c)
           else if name = ''resolver'' then
             (let s = get_srv k c
              in put_if k (map_option (\<lambda>x. s\<lparr>sv_core := x\<rparr>) (ngx_nsoc_core_resolver B (v # vs) (sv_core s))) c)
           else if name = ''proxy_pass'' then
             (if k = None \<or> vs \<noteq> [] then Ret False c else pass_directive B k v c)
           else if name = ''proxy_bind'' then
             (if length vs > 1 then Ret False c else bind_directive B k v vs c)
           else if vs \<noteq> [] then Ret False c
           else put_if k (set_slot B name v (get_srv k c)) c)
      | _ \<Rightarrow> Ret False c)"

section \<open>Hooks of the modules\<close>

text \<open>The modules in the order of \<open>src/config\<close>; a hook that is a null pointer does nothing.\<close>

datatype nsoc_module = Core | Proxy | Upstream | Noiseserver | Write_filter

definition nsoc_modules :: "nsoc_module list" where
  "nsoc_modules = [Core, Proxy, Upstream, Noiseserver, Write_filter]"

definition ngx_nsoc_core_create_main_conf ::
  "('w, 'h, 'k, 'f) nsoc_conf \<Rightarrow> (bool, ('w, 'h, 'k, 'f) nsoc_conf) run" where
  "ngx_nsoc_core_create_main_conf c =
     and_then (nf_allocs 3 c) (\<lambda>c1. Ret True (c1\<lparr>
       nf_up := (nf_up c1)\<lparr>uf_vars := \<lparr>variables = [], prefix_variables = [], variables_keys = None, variables_hash = [],
         vc_ncaptures = 0, vc_pool = vc_pool (uf_vars (nf_up c1))\<rparr>\<rparr>,
       nf_listen := [], nf_servers := [], nf_hash_max := None, nf_hash_bucket := None\<rparr>))"

definition create_main_conf :: "nsoc_module \<Rightarrow> ('w, 'h, 'k, 'f) nsoc_conf \<Rightarrow> (bool, ('w, 'h, 'k, 'f) nsoc_conf) run" where
  "create_main_conf m c =
     (case m of
        Core \<Rightarrow> ngx_nsoc_core_create_main_conf c
      | Upstream \<Rightarrow> (case ngx_nsoc_upstream_create_main_conf (uf_vars (nf_up c)) of
          None \<Rightarrow> Ret False c | Some u \<Rightarrow> Ret True (c\<lparr>nf_up := u\<rparr>))
      | _ \<Rightarrow> Ret True c)"

text \<open>The server configuration of one module for server \<open>s\<close>, and of all modules for a new server.\<close>

definition create_srv_conf ::
  "nsoc_module \<Rightarrow> ('w, 'h, 'k) server_block \<times> ('w, 'h, 'k, 'f) nsoc_conf \<Rightarrow> (bool, ('w, 'h, 'k) server_block \<times> ('w, 'h, 'k, 'f) nsoc_conf) run" where
  "create_srv_conf m = (\<lambda>(s, c).
     if m \<in> {Core, Proxy, Noiseserver}
     then (let (ok, c1) = nf_alloc c
           in case m of
                Core \<Rightarrow> (case ngx_nsoc_core_create_srv_conf ok of
                  None \<Rightarrow> Ret False (s, c1) | Some x \<Rightarrow> Ret True (s\<lparr>sv_core := x, sv_listen := False\<rparr>, c1))
              | Proxy \<Rightarrow> (case ngx_nsoc_proxy_create_srv_conf ok of
                  None \<Rightarrow> Ret False (s, c1)
                | Some x \<Rightarrow> Ret True (s\<lparr>sv_proxy := x,
                    sv_pass := \<lparr>pp_upstream = None, pp_value = None, pp_local = None, pp_handler = False\<rparr>\<rparr>, c1))
              | _ \<Rightarrow> (case ngx_nsoc_noiseserver_create_conf ok of
                  None \<Rightarrow> Ret False (s, c1) | Some x \<Rightarrow> Ret True (s\<lparr>sv_noise := x\<rparr>, c1)))
     else Ret True (s, c))"

definition preconfiguration ::
  "('w, 'h, 'k, 'f) block_lib \<Rightarrow> nsoc_module \<Rightarrow> ('w, 'h, 'k, 'f) nsoc_conf \<Rightarrow> (bool, ('w, 'h, 'k, 'f) nsoc_conf) run" where
  "preconfiguration B m c =
     (let vars = (\<lambda>f. case f (bk_vars B) (uf_vars (nf_up c)) of
            Crash e \<Rightarrow> Crash e
          | Diverge \<Rightarrow> Diverge
          | Ret rc v \<Rightarrow> Ret (rc = NGX_OK) (c\<lparr>nf_up := (nf_up c)\<lparr>uf_vars := v\<rparr>\<rparr>))
      in case m of
           Core \<Rightarrow> vars ngx_nsoc_variables_add_core_vars
         | Upstream \<Rightarrow> vars ngx_nsoc_upstream_add_variables
         | _ \<Rightarrow> Ret True c)"

definition ngx_nsoc_core_init_main_conf ::
  "('w, 'h, 'k, 'f) block_lib \<Rightarrow> ('w, 'h, 'k, 'f) nsoc_conf \<Rightarrow> ('w, 'h, 'k, 'f) nsoc_conf" where
  "ngx_nsoc_core_init_main_conf B c =
     (let hash_max = (case nf_hash_max c of None \<Rightarrow> 1024 | Some n \<Rightarrow> n);
          bucket = (case nf_hash_bucket c of None \<Rightarrow> 64 | Some n \<Rightarrow> n);
          v = uf_vars (nf_up c);
          n = vc_ncaptures v
      in c\<lparr>nf_hash_max := Some hash_max, nf_hash_bucket := Some (bk_align B bucket),
           nf_up := (nf_up c)\<lparr>uf_vars := v\<lparr>vc_ncaptures := (if n \<noteq> 0 then (n + 1) * 3 else n)\<rparr>\<rparr>\<rparr>)"

definition init_main_conf ::
  "('w, 'h, 'k, 'f) block_lib \<Rightarrow> nsoc_module \<Rightarrow> ('w, 'h, 'k, 'f) nsoc_conf \<Rightarrow> (bool, ('w, 'h, 'k, 'f) nsoc_conf) run" where
  "init_main_conf B m c =
     (case m of
        Core \<Rightarrow> Ret True (ngx_nsoc_core_init_main_conf B c)
      | Upstream \<Rightarrow> (case ngx_nsoc_upstream_init_main_conf (bk_resolve B) (bk_peer_alloc B) (nf_up c) of
          None \<Rightarrow> Ret False c | Some u \<Rightarrow> Ret True (c\<lparr>nf_up := u\<rparr>))
      | _ \<Rightarrow> Ret True c)"

text \<open>Merging server \<open>i\<close> with the null configuration; the core module may change the latter too.\<close>

definition merge_core ::
  "('w, 'h, 'k, 'f) block_lib \<Rightarrow> nat \<Rightarrow> ('w, 'h, 'k, 'f) nsoc_conf \<Rightarrow> (bool, ('w, 'h, 'k, 'f) nsoc_conf) run" where
  "merge_core B i c =
     (let s = nf_servers c ! i; prev = nf_null c
      in case ngx_nsoc_core_merge_srv_conf (bk_resolver B []) (bk_new_log B) (sv_core prev) (sv_core s) of
           None \<Rightarrow> Ret False c
         | Some (p, x) \<Rightarrow> Ret True (put_srv (Some i) (s\<lparr>sv_core := x\<rparr>) (c\<lparr>nf_null := prev\<lparr>sv_core := p\<rparr>\<rparr>)))"

definition merge_proxy ::
  "('w, 'h, 'k, 'f) block_lib \<Rightarrow> nat \<Rightarrow> ('w, 'h, 'k, 'f) nsoc_conf \<Rightarrow> (bool, ('w, 'h, 'k, 'f) nsoc_conf) run" where
  "merge_proxy B i c =
     (let s = nf_servers c ! i; prev = nf_null c;
          pass = (sv_pass s)\<lparr>pp_local := merge_value (pp_local (sv_pass s)) (pp_local (sv_pass prev)) None\<rparr>
      in case ngx_nsoc_proxy_merge_srv_conf (bk_nginx B) (bk_ids B) (bk_cleanup B i) (bk_files B) (bk_place B)
                (sv_proxy prev) (sv_proxy s) (nf_world c) of
           Crash e \<Rightarrow> Crash e
         | Diverge \<Rightarrow> Diverge
         | Ret None w \<Rightarrow> Ret False (c\<lparr>nf_world := w\<rparr>)
         | Ret (Some x) w \<Rightarrow> Ret True (put_srv (Some i) (s\<lparr>sv_proxy := x, sv_pass := pass\<rparr>) (c\<lparr>nf_world := w\<rparr>)))"

definition merge_noise ::
  "('w, 'h, 'k, 'f) block_lib \<Rightarrow> nat \<Rightarrow> ('w, 'h, 'k, 'f) nsoc_conf \<Rightarrow> (bool, ('w, 'h, 'k, 'f) nsoc_conf) run" where
  "merge_noise B i c =
     (let s = nf_servers c ! i
      in case ngx_nsoc_noiseserver_merge_conf (bk_nginx B) (bk_cleanup B i) (nsoc_preread_buffer_size (sv_core s))
                (sv_noise (nf_null c)) (sv_noise s) (nf_world c) of
           (None, w) \<Rightarrow> Ret False (c\<lparr>nf_world := w\<rparr>)
         | (Some x, w) \<Rightarrow> Ret True (put_srv (Some i) (s\<lparr>sv_noise := x\<rparr>) (c\<lparr>nf_world := w\<rparr>)))"

definition merge_srv_conf ::
  "('w, 'h, 'k, 'f) block_lib \<Rightarrow> nsoc_module \<Rightarrow> nat \<Rightarrow> ('w, 'h, 'k, 'f) nsoc_conf \<Rightarrow> (bool, ('w, 'h, 'k, 'f) nsoc_conf) run" where
  "merge_srv_conf B m i c =
     (case m of
        Core \<Rightarrow> merge_core B i c
      | Proxy \<Rightarrow> merge_proxy B i c
      | Noiseserver \<Rightarrow> merge_noise B i c
      | _ \<Rightarrow> Ret True c)"

definition ngx_nsoc_write_filter_init :: "('w, 'h, 'k, 'f) nsoc_conf \<Rightarrow> ('w, 'h, 'k, 'f) nsoc_conf" where
  "ngx_nsoc_write_filter_init c = c\<lparr>nf_filter := True\<rparr>"

definition postconfiguration ::
  "('w, 'h, 'k, 'f) block_lib \<Rightarrow> nsoc_module \<Rightarrow> ('w, 'h, 'k, 'f) nsoc_conf \<Rightarrow> (bool, ('w, 'h, 'k, 'f) nsoc_conf) run" where
  "postconfiguration B m c =
     (case m of
        Noiseserver \<Rightarrow>
          (let (ok, c1) = nf_alloc c; (rc, hs) = ngx_nsoc_noiseserver_init ok (bk_guard B) (nf_phases c1)
           in Ret (rc = NGX_OK) (c1\<lparr>nf_phases := hs\<rparr>))
      | Write_filter \<Rightarrow> Ret True (ngx_nsoc_write_filter_init c)
      | _ \<Rightarrow> Ret True c)"

section \<open>The blocks\<close>

text \<open>
  A \<open>server\<close> block. The configuration that is created is added to the table of servers before the
  directives are read, which find it there.
\<close>

definition ngx_nsoc_core_server ::
  "('w, 'h, 'k, 'f) block_lib \<Rightarrow> string list list \<Rightarrow> ('w, 'h, 'k, 'f) nsoc_conf \<Rightarrow> (bool, ('w, 'h, 'k, 'f) nsoc_conf) run" where
  "ngx_nsoc_core_server B lines c =
     and_then (nf_allocs 2 c) (\<lambda>c1.
       case each create_srv_conf nsoc_modules (nf_null c1, c1) of
         Crash e \<Rightarrow> Crash e
       | Diverge \<Rightarrow> Diverge
       | Ret ok (s, c2) \<Rightarrow>
           (if \<not> ok then Ret False c2
            else and_then (nf_allocs 1 c2) (\<lambda>c3.
              let i = length (nf_servers c3)
              in and_then (each (srv_directive B (Some i)) lines (c3\<lparr>nf_servers := nf_servers c3 @ [s]\<rparr>)) (\<lambda>c4.
                   Ret (sv_listen (nf_servers c4 ! i)) c4))))"

datatype directive = Directive "string list" | Block "string list" "string list list"

definition hash_size_directive ::
  "('w, 'h, 'k, 'f) block_lib \<Rightarrow> string \<Rightarrow> string \<Rightarrow> ('w, 'h, 'k, 'f) nsoc_conf \<Rightarrow> ('w, 'h, 'k, 'f) nsoc_conf option" where
  "hash_size_directive B name v c =
     (if name = ''variables_hash_max_size'' then map_option (\<lambda>n. c\<lparr>nf_hash_max := Some n\<rparr>) (bk_num_slot B v (nf_hash_max c))
      else map_option (\<lambda>n. c\<lparr>nf_hash_bucket := Some n\<rparr>) (bk_num_slot B v (nf_hash_bucket c)))"

text \<open>In an \<open>upstream\<close> block only \<open>server\<close> lines are known; three modules create a server configuration for it.\<close>

definition upstream_directive ::
  "('w, 'h, 'k, 'f) block_lib \<Rightarrow> string list \<Rightarrow> string list list \<Rightarrow> ('w, 'h, 'k, 'f) nsoc_conf \<Rightarrow> (bool, ('w, 'h, 'k, 'f) nsoc_conf) run" where
  "upstream_directive B tokens lines c =
     (if length tokens = 2 \<and> hd tokens = ''upstream'' \<and> (\<forall>l \<in> set lines. 2 \<le> length l \<and> hd l = ''server'')
      then (case ngx_nsoc_upstream (bk_up B) 3 (tokens ! 1) (map tl lines) (nf_up c) of
              None \<Rightarrow> Ret False c | Some u \<Rightarrow> Ret True (c\<lparr>nf_up := u\<rparr>))
      else Ret False c)"

text \<open>The directives of the main block.\<close>

definition main_directive ::
  "('w, 'h, 'k, 'f) block_lib \<Rightarrow> directive \<Rightarrow> ('w, 'h, 'k, 'f) nsoc_conf \<Rightarrow> (bool, ('w, 'h, 'k, 'f) nsoc_conf) run" where
  "main_directive B d c =
     (case d of
        Directive tokens \<Rightarrow>
          (case tokens of
             [name, v] \<Rightarrow>
               (if name \<in> {''variables_hash_max_size'', ''variables_hash_bucket_size''}
                then (case hash_size_directive B name v c of None \<Rightarrow> Ret False c | Some c1 \<Rightarrow> Ret True c1)
                else srv_directive B None tokens c)
           | _ \<Rightarrow> srv_directive B None tokens c)
      | Block tokens lines \<Rightarrow>
          (if tokens = [''server''] then ngx_nsoc_core_server B lines c else upstream_directive B tokens lines c))"

definition ngx_nsoc_init_phases :: "('w, 'h, 'k, 'f) nsoc_conf \<Rightarrow> (bool, ('w, 'h, 'k, 'f) nsoc_conf) run" where
  "ngx_nsoc_init_phases c = and_then (nf_allocs 6 c) (\<lambda>c1. Ret True (c1\<lparr>nf_phases := (\<lambda>p. [])\<rparr>))"

text \<open>The end of the block: variables, phase table, sockets.\<close>

definition finish_vars :: "('w, 'h, 'k, 'f) block_lib \<Rightarrow> ('w, 'h, 'k, 'f) nsoc_conf \<Rightarrow> (bool, ('w, 'h, 'k, 'f) nsoc_conf) run" where
  "finish_vars B c =
     (case ngx_nsoc_variables_init_vars (bk_vars B) (uf_vars (nf_up c)) of
        Crash e \<Rightarrow> Crash e
      | Diverge \<Rightarrow> Diverge
      | Ret rc v \<Rightarrow> Ret (rc = NGX_OK) (c\<lparr>nf_up := (nf_up c)\<lparr>uf_vars := v\<rparr>\<rparr>))"

definition finish_phases :: "('w, 'h, 'k, 'f) nsoc_conf \<Rightarrow> (bool, ('w, 'h, 'k, 'f) nsoc_conf) run" where
  "finish_phases c =
     (let (ok, c1) = nf_alloc c; (rc, t) = ngx_nsoc_init_phase_handlers ok (nf_phases c1)
      in Ret (rc = NGX_OK) (c1\<lparr>nf_engine := t\<rparr>))"

definition finish_sockets :: "('w, 'h, 'k, 'f) block_lib \<Rightarrow> ('w, 'h, 'k, 'f) nsoc_conf \<Rightarrow> (bool, ('w, 'h, 'k, 'f) nsoc_conf) run" where
  "finish_sockets B c =
     and_then (nf_allocs 1 c) (\<lambda>c1.
       case make_listenings (bk_socket_alloc B) (bk_ntop B) (bk_sort B) (nf_listen c1) of
         None \<Rightarrow> Ret False c1 | Some lss \<Rightarrow> Ret True (c1\<lparr>nf_sockets := lss\<rparr>))"

text \<open>Creation of the main configurations and of the null server configuration, module by module.\<close>

definition create_confs :: "nsoc_module \<Rightarrow> ('w, 'h, 'k, 'f) nsoc_conf \<Rightarrow> (bool, ('w, 'h, 'k, 'f) nsoc_conf) run" where
  "create_confs m c =
     and_then (create_main_conf m c) (\<lambda>c1.
       case create_srv_conf m (nf_null c1, c1) of
         Crash e \<Rightarrow> Crash e
       | Diverge \<Rightarrow> Diverge
       | Ret ok (s, c2) \<Rightarrow> Ret ok (c2\<lparr>nf_null := s\<rparr>))"

text \<open>The main configuration of a module, then the servers' configurations of the module.\<close>

definition init_and_merge ::
  "('w, 'h, 'k, 'f) block_lib \<Rightarrow> nsoc_module \<Rightarrow> ('w, 'h, 'k, 'f) nsoc_conf \<Rightarrow> (bool, ('w, 'h, 'k, 'f) nsoc_conf) run" where
  "init_and_merge B m c =
     and_then (init_main_conf B m c) (\<lambda>c1. each (merge_srv_conf B m) [0..<length (nf_servers c1)] c1)"

text \<open>\<open>dup\<close> tells that there was a block before. The state given is that of the pool and the world.\<close>

definition ngx_nsoc_block ::
  "('w, 'h, 'k, 'f) block_lib \<Rightarrow> bool \<Rightarrow> directive list \<Rightarrow> ('w, 'h, 'k, 'f) nsoc_conf \<Rightarrow> (bool, ('w, 'h, 'k, 'f) nsoc_conf) run" where
  "ngx_nsoc_block B dup dirs c =
     (if dup then Ret False c
      else and_then (nf_allocs 3 c) (\<lambda>c1.
           and_then (each create_confs nsoc_modules c1) (\<lambda>c2.
           and_then (each (preconfiguration B) nsoc_modules c2) (\<lambda>c3.
           and_then (each (main_directive B) dirs c3) (\<lambda>c4.
           and_then (each (init_and_merge B) nsoc_modules c4) (\<lambda>c5.
           and_then (ngx_nsoc_init_phases c5) (\<lambda>c6.
           and_then (each (postconfiguration B) nsoc_modules c6) (\<lambda>c7.
           and_then (finish_vars B c7) (\<lambda>c8.
           and_then (finish_phases c8) (\<lambda>c9.
           finish_sockets B c9))))))))))"

end
