(* ===== verification/Nsoc_Block_Laws.thy ===== *)
theory Nsoc_Block_Laws
  imports Nsoc_Block
begin

text \<open>
  What an accepted \<open>noise_socket\<close> block guarantees. The tables of upstreams and variables are
  followed through the directives in a locale, whose parameter is an invariant of the two
  tables and which is interpreted for each; the servers and their \<open>listen\<close> directives have an
  invariant of their own; the merges are described by a relation between a server before and after.
\<close>

section \<open>Loops\<close>

lemma each_inv:
  assumes "each f xs s = Ret True t" and "I s" and "\<And>x s s'. x \<in> set xs \<Longrightarrow> f x s = Ret True s' \<Longrightarrow> I s \<Longrightarrow> I s'"
  shows "I t"
  using assms by (induction xs arbitrary: s) (auto simp: and_then_True)

lemma each_append: "each f (xs @ ys) s = and_then (each f xs s) (each f ys)"
  by (induction xs arbitrary: s) (auto simp: and_then_def split: run.splits intro!: bind_run_cong)

lemma nf_alloc_simps [simp]:
  "nf_alloc c = (fst (uf_alloc (nf_up c)), c\<lparr>nf_up := snd (uf_alloc (nf_up c))\<rparr>)"
  by (simp add: nf_alloc_def case_prod_beta)

lemma nf_allocs_True:
  "nf_allocs n c = Ret True c' \<longleftrightarrow> fst (take_allocs n (nf_up c)) \<and> c' = c\<lparr>nf_up := snd (take_allocs n (nf_up c))\<rparr>"
  by (auto simp: nf_allocs_def case_prod_beta Let_def)

lemma take_allocs_pool: "\<exists>p. snd (take_allocs n u) = u\<lparr>uf_vars := (uf_vars u)\<lparr>vc_pool := p\<rparr>\<rparr>"
proof (induction n)
  case 0
  show ?case by (intro exI [of _ "vc_pool (uf_vars u)"]) (simp add: take_allocs_def)
next
  case (Suc n)
  then obtain p where p: "snd (take_allocs n u) = u\<lparr>uf_vars := (uf_vars u)\<lparr>vc_pool := p\<rparr>\<rparr>" by blast
  have "snd (take_allocs (Suc n) u) = (if fst (take_allocs n u) then snd (uf_alloc (snd (take_allocs n u))) else snd (take_allocs n u))"
    by (simp add: take_allocs_def case_prod_beta)
  then show ?case unfolding p by auto
qed

lemma put_srv_simps [simp]:
  "nf_up (put_srv k s c) = nf_up c" "nf_listen (put_srv k s c) = nf_listen c"
  "length (nf_servers (put_srv k s c)) = length (nf_servers c)"
  "nf_servers (put_srv (Some i) s c) = (nf_servers c)[i := s]" "nf_servers (put_srv None s c) = nf_servers c"
  by (simp_all add: put_srv_def split: option.splits)

lemma create_srv_conf_up:
  assumes "create_srv_conf m (s, c) = Ret True (s', c')"
  shows "\<exists>p. c' = c\<lparr>nf_up := (nf_up c)\<lparr>uf_vars := (uf_vars (nf_up c))\<lparr>vc_pool := p\<rparr>\<rparr>\<rparr>"
proof -
  have "c' = (if m \<in> {Core, Proxy, Noiseserver} then c\<lparr>nf_up := snd (uf_alloc (nf_up c))\<rparr> else c)"
    using assms by (cases m) (auto simp: create_srv_conf_def Let_def split: option.splits)
  moreover have "\<exists>p. c = c\<lparr>nf_up := (nf_up c)\<lparr>uf_vars := (uf_vars (nf_up c))\<lparr>vc_pool := p\<rparr>\<rparr>\<rparr>"
    by (intro exI [of _ "vc_pool (uf_vars (nf_up c))"]) simp
  ultimately show ?thesis by (cases "m \<in> {Core, Proxy, Noiseserver}") auto
qed

lemma create_srv_confs_up:
  assumes "each create_srv_conf ms (s, c) = Ret True (s', c')"
  shows "\<exists>p. c' = c\<lparr>nf_up := (nf_up c)\<lparr>uf_vars := (uf_vars (nf_up c))\<lparr>vc_pool := p\<rparr>\<rparr>\<rparr>"
  using assms
proof (induction ms arbitrary: s c)
  case Nil
  then show ?case by (intro exI [of _ "vc_pool (uf_vars (nf_up c))"]) simp
next
  case (Cons m ms)
  then obtain s1 c1 where 1: "create_srv_conf m (s, c) = Ret True (s1, c1)" "each create_srv_conf ms (s1, c1) = Ret True (s', c')"
    by (auto simp: and_then_True)
  then show ?case using Cons.IH [OF 1(2)] create_srv_conf_up [OF 1(1)] by auto
qed

section \<open>The tables of upstreams and variables\<close>

text \<open>The kinds of directives a server can have.\<close>

lemma put_if_True: "put_if k r c = Ret True c' \<longleftrightarrow> (\<exists>s. r = Some s \<and> c' = put_srv k s c)"
  by (auto simp: put_if_def split: option.splits)

lemma one_of_five:
  "(x = a \<Longrightarrow> P) \<Longrightarrow> (x = b \<Longrightarrow> P) \<Longrightarrow> (x = c \<Longrightarrow> P) \<Longrightarrow> (x = d \<Longrightarrow> P) \<Longrightarrow> (x = e \<Longrightarrow> P)
    \<Longrightarrow> (x \<notin> {a, b, c, d, e} \<Longrightarrow> P) \<Longrightarrow> P"
  by blast

lemma srv_directive_cases:
  assumes "srv_directive B k ts c = Ret True c'"
  obtains (listen) i args where "k = Some i" "listen_directive B i args c = Ret True c'"
  | (pass) url where "k \<noteq> None" "pass_directive B k url c = Ret True c'"
  | (bind) v vs where "bind_directive B k v vs c = Ret True c'"
  | (own) s where "c' = put_srv k s c" "sv_listen s = sv_listen (get_srv k c)" "sv_pass s = sv_pass (get_srv k c)"
      "cscf_handler (sv_core s) = cscf_handler (sv_core (get_srv k c))"
proof -
  obtain name v vs where ts: "ts = name # v # vs" using assms by (auto simp: srv_directive_def split: list.splits)
  have core: "cscf_handler x = cscf_handler (sv_core (get_srv k c))"
    if "map_of (core_slots B) name = Some f" "f v (sv_core (get_srv k c)) = Some x" for f x
    using that by (auto simp: core_slots_def split: if_splits)
  show thesis
  proof (cases name rule: one_of_five [where a = "''listen''" and b = "''error_log''" and c = "''resolver''"
        and d = "''proxy_pass''" and e = "''proxy_bind''"])
    case 1
    then show thesis using assms listen by (auto simp: ts srv_directive_def split: option.splits)
  next
    case 2
    then show thesis using assms own
      by (auto simp: ts srv_directive_def Let_def put_if_True ngx_nsoc_core_error_log_def)
  next
    case 3
    then show thesis using assms own
      by (auto simp: ts srv_directive_def Let_def put_if_True ngx_nsoc_core_resolver_def split: if_splits option.splits)
  next
    case 4
    then show thesis using assms pass by (auto simp: ts srv_directive_def split: if_splits)
  next
    case 5
    then show thesis using assms bind by (auto simp: ts srv_directive_def split: if_splits)
  next
    case 6
    then obtain s where s: "set_slot B name v (get_srv k c) = Some s" "c' = put_srv k s c"
      using assms by (auto simp: ts srv_directive_def put_if_True split: if_splits)
    have "sv_listen s = sv_listen (get_srv k c) \<and> sv_pass s = sv_pass (get_srv k c)
      \<and> cscf_handler (sv_core s) = cscf_handler (sv_core (get_srv k c))"
    proof (cases "map_of (core_slots B) name")
      case None
      then show ?thesis using s(1) unfolding set_slot_def
        by (cases "map_of (proxy_slots B) name"; cases "map_of (noise_slots B) name") auto
    next
      case (Some f)
      then obtain x where x: "f v (sv_core (get_srv k c)) = Some x" "s = (get_srv k c)\<lparr>sv_core := x\<rparr>"
        using s(1) unfolding set_slot_def by auto
      show ?thesis unfolding x(2) using core [OF Some x(1)] by simp
    qed
    then show thesis using own s(2) by blast
  qed
qed

text \<open>The steps of a \<open>server\<close> block.\<close>

lemma core_server_steps:
  assumes "ngx_nsoc_core_server B lines c = Ret True c'"
  obtains c1 s c2 c3 where "nf_allocs 2 c = Ret True c1" "each create_srv_conf nsoc_modules (nf_null c1, c1) = Ret True (s, c2)"
    "nf_allocs 1 c2 = Ret True c3"
    "each (srv_directive B (Some (length (nf_servers c3)))) lines (c3\<lparr>nf_servers := nf_servers c3 @ [s]\<rparr>) = Ret True c'"
    "sv_listen (nf_servers c' ! length (nf_servers c3))"
proof -
  obtain c1 where 1: "nf_allocs 2 c = Ret True c1" and r: "(case each create_srv_conf nsoc_modules (nf_null c1, c1) of
         Crash e \<Rightarrow> Crash e
       | Diverge \<Rightarrow> Diverge
       | Ret ok (s, c2) \<Rightarrow>
           (if \<not> ok then Ret False c2
            else and_then (nf_allocs 1 c2) (\<lambda>c3.
              let i = length (nf_servers c3)
              in and_then (each (srv_directive B (Some i)) lines (c3\<lparr>nf_servers := nf_servers c3 @ [s]\<rparr>)) (\<lambda>c4.
                   Ret (sv_listen (nf_servers c4 ! i)) c4)))) = Ret True c'"
    using assms unfolding ngx_nsoc_core_server_def and_then_True by blast
  obtain ok s c2 where 2: "each create_srv_conf nsoc_modules (nf_null c1, c1) = Ret ok (s, c2)"
    using r by (cases "each create_srv_conf nsoc_modules (nf_null c1, c1)") auto
  show thesis using that [OF 1, of s c2] r by (auto simp: 2 and_then_True Let_def split: if_splits)
qed

locale up_invariant =
  fixes P :: up_lib and J :: "uconf \<Rightarrow> bool"
  assumes pool: "J u \<Longrightarrow> J (u\<lparr>uf_vars := (uf_vars u)\<lparr>vc_pool := p\<rparr>\<rparr>)"
    and upstream: "J u \<Longrightarrow> ngx_nsoc_upstream P n name lines u = Some u' \<Longrightarrow> J u'"
    and pass: "J u \<Longrightarrow> ngx_nsoc_proxy_pass P url pc u = Ret (Some pc') u' \<Longrightarrow> J u'"
    and bind: "J u \<Longrightarrow> ngx_nsoc_proxy_bind P value params pc u = Ret (Some pc') u' \<Longrightarrow> J u'"
begin

lemma allocs: "nf_allocs n c = Ret True c' \<Longrightarrow> J (nf_up c) \<Longrightarrow> J (nf_up c')"
  using take_allocs_pool [of n "nf_up c"] pool by (auto simp: nf_allocs_True)

lemma alloc: "J u \<Longrightarrow> J (snd (uf_alloc u))"
  using pool by simp

lemma listen_directive: "listen_directive B i args c = Ret True c' \<Longrightarrow> J (nf_up c) \<Longrightarrow> J (nf_up c')"
  using pool by (auto simp: listen_directive_def Let_def split: option.splits)

lemma pass_directive: "pass_directive B k url c = Ret True c' \<Longrightarrow> bk_up B = P \<Longrightarrow> J (nf_up c) \<Longrightarrow> J (nf_up c')"
  using pass by (auto simp: pass_directive_def Let_def split: option.splits run.splits)

lemma bind_directive: "bind_directive B k v vs c = Ret True c' \<Longrightarrow> bk_up B = P \<Longrightarrow> J (nf_up c) \<Longrightarrow> J (nf_up c')"
  using bind by (auto simp: bind_directive_def split: option.splits run.splits)

lemma srv_directive:
  assumes "srv_directive B k ts c = Ret True c'" and "bk_up B = P" and "J (nf_up c)"
  shows "J (nf_up c')"
  using assms(1)
proof (cases rule: srv_directive_cases)
  case (pass url)
  then show ?thesis using pass_directive assms(2,3) by blast
next
  case (bind v vs)
  then show ?thesis using bind_directive assms(2,3) by blast
qed (use assms(3) listen_directive in auto)

lemma core_server:
  assumes "ngx_nsoc_core_server B lines c = Ret True c'" and "bk_up B = P" and "J (nf_up c)"
  shows "J (nf_up c')"
proof -
  obtain c1 s c2 c3 where 1: "nf_allocs 2 c = Ret True c1" and 2: "each create_srv_conf nsoc_modules (nf_null c1, c1) = Ret True (s, c2)"
    and 3: "nf_allocs 1 c2 = Ret True c3"
    and 4: "each (Nsoc_Block.srv_directive B (Some (length (nf_servers c3)))) lines (c3\<lparr>nf_servers := nf_servers c3 @ [s]\<rparr>) = Ret True c'"
    using core_server_steps [OF assms(1)] by metis
  have "J (nf_up c2)" using create_srv_confs_up [OF 2] allocs [OF 1 assms(3)] pool by auto
  then have "J (nf_up (c3\<lparr>nf_servers := nf_servers c3 @ [s]\<rparr>))" using allocs [OF 3] by simp
  then show ?thesis by (rule each_inv [OF 4, of "\<lambda>c. J (nf_up c)"]) (rule srv_directive [OF _ assms(2)])
qed

lemma directives:
  assumes "each (main_directive B) dirs c = Ret True c'" and "bk_up B = P" and "J (nf_up c)"
  shows "J (nf_up c')"
proof (rule each_inv [OF assms(1), of "\<lambda>c. J (nf_up c)"])
  show "J (nf_up c)" by (rule assms(3))
  fix d c1 c2
  assume "main_directive B d c1 = Ret True c2" and "J (nf_up c1)"
  then show "J (nf_up c2)"
    using srv_directive [OF _ assms(2)] core_server [OF _ assms(2)] upstream [of "nf_up c1"] assms(2)
    by (auto simp: main_directive_def upstream_directive_def hash_size_directive_def split: directive.splits list.splits if_splits option.splits)
qed

end

lemma compile_grown:
  assumes "ngx_nsoc_compile_complex_value S v False False False c = Ret (Some cv) c'" and "fold_contract (sl_vars S)"
  shows "grown c c'"
  using assms compile_complex_value_cases [of v S False c] compile_plain [of v S False c]
  by (cases "CHR ''$'' \<in> set v") auto

lemma upstream_add_vars:
  "ngx_nsoc_upstream_add P u nr fs c = (r, c') \<Longrightarrow> \<exists>p. uf_vars c' = (uf_vars c)\<lparr>vc_pool := p\<rparr>"
  by (auto simp: ngx_nsoc_upstream_add_def add_entry_def Let_def split: option.splits probe.splits if_splits
      intro: exI [of _ "vc_pool (uf_vars c)"])

lemma pass_grown:
  assumes "ngx_nsoc_proxy_pass P url pc u = Ret (Some pc') u'" and "fold_contract (sl_vars (ul_script P))"
  shows "grown (uf_vars u) (uf_vars u')"
proof -
  obtain cv v where cv: "ngx_nsoc_compile_complex_value (ul_script P) url False False False (uf_vars u) = Ret (Some cv) v"
    using assms(1) by (auto simp: ngx_nsoc_proxy_pass_def Let_def split: if_splits run.splits option.splits)
  have "\<exists>p. uf_vars u' = v\<lparr>vc_pool := p\<rparr>"
  proof (cases "cv_lengths cv = None")
    case True
    then obtain k where "ngx_nsoc_upstream_add P \<lparr>u_url = url, u_host = [], u_port = 0, u_no_port = False, u_addrs = [], u_unix = False\<rparr>
        True 0 (u\<lparr>uf_vars := v\<rparr>) = (Some k, u')"
      using assms(1) cv by (auto simp: ngx_nsoc_proxy_pass_def Let_def split: if_splits prod.splits option.splits)
    then show ?thesis using upstream_add_vars by fastforce
  qed (use assms(1) cv in \<open>auto simp: ngx_nsoc_proxy_pass_def Let_def split: if_splits\<close>)
  then show ?thesis using grown_trans [OF compile_grown [OF cv assms(2)]] by auto
qed

lemma bind_grown:
  assumes "ngx_nsoc_proxy_bind P value params pc u = Ret (Some pc') u'" and "fold_contract (sl_vars (ul_script P))"
  shows "grown (uf_vars u) (uf_vars u')"
proof -
  consider "u' = u" | cv v p where "ngx_nsoc_compile_complex_value (ul_script P) value False False False (uf_vars u) = Ret (Some cv) v"
      "uf_vars u' = v\<lparr>vc_pool := p\<rparr>"
    using assms(1) by (auto simp: ngx_nsoc_proxy_bind_def Let_def split: if_splits run.splits option.splits)
  then show ?thesis
  proof cases
    case 2
    then show ?thesis using grown_trans [OF compile_grown [OF 2(1) assms(2)]] by auto
  qed simp
qed

lemma upstream_server_vars:
  "ngx_nsoc_upstream_server P args k u = Some u' \<Longrightarrow>
   (\<exists>p. uf_vars u' = (uf_vars u)\<lparr>vc_pool := p\<rparr>) \<and> length (uf_upstreams u') = length (uf_upstreams u)"
  by (auto simp: ngx_nsoc_upstream_server_def Let_def split: if_splits list.splits option.splits)

lemma upstream_body_vars:
  "upstream_body P lines k u = Some u' \<Longrightarrow>
   (\<exists>p. uf_vars u' = (uf_vars u)\<lparr>vc_pool := p\<rparr>) \<and> length (uf_upstreams u') = length (uf_upstreams u)"
proof (induction lines arbitrary: u)
  case Nil
  then show ?case by (auto intro: exI [of _ "vc_pool (uf_vars u)"])
next
  case (Cons l ls)
  then obtain u1 where u1: "ngx_nsoc_upstream_server P l k u = Some u1" "upstream_body P ls k u1 = Some u'"
    by (auto split: option.splits)
  then show ?case using upstream_server_vars [OF u1(1)] Cons.IH [OF u1(2)] by auto
qed

lemma upstream_add_length:
  "ngx_nsoc_upstream_add P u nr fs c = (Some k, c') \<Longrightarrow> length (uf_upstreams c) \<le> length (uf_upstreams c')
    \<and> k < length (uf_upstreams c')"
proof -
  assume add: "ngx_nsoc_upstream_add P u nr fs c = (Some k, c')"
  then obtain u1 where "(if flag fs NGX_NSOC_UPSTREAM_CREATE then Some u else ul_parse_url P (u_url u) nr) = Some u1"
    by (cases "if flag fs NGX_NSOC_UPSTREAM_CREATE then Some u else ul_parse_url P (u_url u) nr")
      (simp_all add: ngx_nsoc_upstream_add_def)
  from upstream_add_cases [OF add this] show ?thesis by (auto split: if_splits)
qed

text \<open>An \<open>upstream\<close> block takes memory, and no upstream is lost.\<close>

lemma upstream_block_vars:
  assumes "ngx_nsoc_upstream P n name lines u = Some u'"
  shows "(\<exists>p. uf_vars u' = (uf_vars u)\<lparr>vc_pool := p\<rparr>) \<and> length (uf_upstreams u) \<le> length (uf_upstreams u')"
proof -
  let ?url = "\<lparr>u_url = [], u_host = name, u_port = 0, u_no_port = True, u_addrs = [], u_unix = False\<rparr>"
  obtain k u1 where add: "ngx_nsoc_upstream_add P ?url True UPSTREAM_FLAGS u = (Some k, u1)"
    using assms by (cases "ngx_nsoc_upstream_add P ?url True UPSTREAM_FLAGS u")
      (auto simp: ngx_nsoc_upstream_def Let_def split: option.splits)
  obtain p where p: "snd (take_allocs (3 + n) u1) = u1\<lparr>uf_vars := (uf_vars u1)\<lparr>vc_pool := p\<rparr>\<rparr>" using take_allocs_pool by blast
  obtain es where body: "upstream_body P lines k (u1\<lparr>uf_vars := (uf_vars u1)\<lparr>vc_pool := p\<rparr>, uf_upstreams := es\<rparr>) = Some u'"
    and es: "length es = length (uf_upstreams u1)"
    using assms add p by (cases "take_allocs (3 + n) u1") (auto simp: ngx_nsoc_upstream_def Let_def split: option.splits if_splits)
  show ?thesis using upstream_body_vars [OF body] upstream_add_vars [OF add] upstream_add_length [OF add] es by auto
qed

lemma pass_target:
  assumes "ngx_nsoc_proxy_pass P url pc u = Ret (Some pc') u'"
  shows "pp_upstream pc' \<noteq> None \<or> pp_value pc' \<noteq> None"
    and "length (uf_upstreams u) \<le> length (uf_upstreams u')"
    and "pp_upstream pc' = Some k \<Longrightarrow> k < length (uf_upstreams u')"
proof -
  show "pp_upstream pc' \<noteq> None \<or> pp_value pc' \<noteq> None"
    using assms by (auto simp: ngx_nsoc_proxy_pass_def Let_def split: if_splits run.splits option.splits prod.splits)
  show "length (uf_upstreams u) \<le> length (uf_upstreams u')"
    using pass_add [OF assms] upstream_add_length pass_no_upstream [OF assms] by (cases "pp_upstream pc'") fastforce+
  show "k < length (uf_upstreams u')" if "pp_upstream pc' = Some k"
    using pass_add [OF assms that] upstream_add_length by blast
qed

lemma pass_upstreams_ok:
  assumes "ngx_nsoc_proxy_pass P url pc u = Ret (Some pc') u'" and "atoi_contract (ul_conf P)"
    and "upstreams_ok (sl_vars (ul_script P)) (uf_upstreams u) ps"
  shows "\<exists>ps. upstreams_ok (sl_vars (ul_script P)) (uf_upstreams u') ps"
proof (cases "pp_upstream pc'")
  case None
  then show ?thesis using pass_no_upstream [OF assms(1)] assms(3) by auto
next
  case (Some k)
  obtain x where "ul_parse_url P url True = Some x"
    using pass_add [OF assms(1) Some] by (cases "ul_parse_url P url True") (auto simp: ngx_nsoc_upstream_add_def flag_def)
  then have "up_step P (u, ps) (u', (x, k) # ps)" by (rule up_pass [OF assms(1) Some])
  then show ?thesis using up_step_ok assms(2,3) by blast
qed

interpretation ups: up_invariant P
    "\<lambda>u. atoi_contract (ul_conf P) \<longrightarrow> (\<exists>ps. upstreams_ok (sl_vars (ul_script P)) (uf_upstreams u) ps)" for P
proof
  show "atoi_contract (ul_conf P) \<longrightarrow> (\<exists>ps. upstreams_ok (sl_vars (ul_script P)) (uf_upstreams u') ps)"
    if "atoi_contract (ul_conf P) \<longrightarrow> (\<exists>ps. upstreams_ok (sl_vars (ul_script P)) (uf_upstreams u) ps)"
      "ngx_nsoc_upstream P n name lines u = Some u'" for u u' n name lines
    using that upstream_block_ok by blast
  show "atoi_contract (ul_conf P) \<longrightarrow> (\<exists>ps. upstreams_ok (sl_vars (ul_script P)) (uf_upstreams u') ps)"
    if "atoi_contract (ul_conf P) \<longrightarrow> (\<exists>ps. upstreams_ok (sl_vars (ul_script P)) (uf_upstreams u) ps)"
      "ngx_nsoc_proxy_pass P url pc u = Ret (Some pc') u'" for u u' url pc pc'
    using that pass_upstreams_ok by blast
qed (auto simp: bind_upstreams)

interpretation vars: up_invariant P
    "\<lambda>u. fold_contract (sl_vars (ul_script P)) \<longrightarrow> table_in nsoc_handlers (uf_vars u)" for P
proof
  show "fold_contract (sl_vars (ul_script P)) \<longrightarrow> table_in nsoc_handlers (uf_vars u')"
    if "fold_contract (sl_vars (ul_script P)) \<longrightarrow> table_in nsoc_handlers (uf_vars u)"
      "ngx_nsoc_upstream P n name lines u = Some u'" for u u' n name lines
    using that upstream_block_vars [OF that(2)] by auto
qed (auto dest: pass_grown bind_grown intro: table_in_grown)

interpretation kept: up_invariant P "\<lambda>u. n \<le> length (uf_upstreams u)" for P n
  by unfold_locales (auto dest: upstream_block_vars pass_target(2) bind_upstreams)

section \<open>Servers and their listen directives\<close>

text \<open>
  A server with a content handler has the proxy's, and something to connect to; an upstream it
  refers to is in the table, which has \<open>n\<close> entries.
\<close>

definition server_ok :: "('w, 'h, 'k, 'f) block_lib \<Rightarrow> nat \<Rightarrow> ('w, 'h, 'k) server_block \<Rightarrow> bool" where
  "server_ok B n s \<longleftrightarrow>
     (\<forall>h. cscf_handler (sv_core s) = Some h \<longrightarrow> h = bk_content B \<and> (pp_upstream (sv_pass s) \<noteq> None \<or> pp_value (sv_pass s) \<noteq> None))
     \<and> (\<forall>j. pp_upstream (sv_pass s) = Some j \<longrightarrow> j < n)"

abbreviation nf_count :: "('w, 'h, 'k, 'f) nsoc_conf \<Rightarrow> nat" where
  "nf_count c \<equiv> length (uf_upstreams (nf_up c))"

definition listens_of :: "('w, 'h, 'k, 'f) nsoc_conf \<Rightarrow> bool" where
  "listens_of c \<longleftrightarrow> listens_ok (nf_listen c) \<and> (\<forall>d \<in> set (nf_listen c). lo_ctx d < length (nf_servers c))
     \<and> (\<forall>i < length (nf_servers c). sv_listen (nf_servers c ! i) \<longrightarrow> (\<exists>d \<in> set (nf_listen c). lo_ctx d = i))"

definition parse_ok :: "('w, 'h, 'k, 'f) block_lib \<Rightarrow> ('w, 'h, 'k, 'f) nsoc_conf \<Rightarrow> bool" where
  "parse_ok B c \<longleftrightarrow> (\<forall>s \<in> set (nf_servers c). server_ok B (nf_count c) s) \<and> listens_of c"

lemma server_ok_mono: "server_ok B n s \<Longrightarrow> n \<le> m \<Longrightarrow> server_ok B m s"
  by (fastforce simp: server_ok_def)

text \<open>
  The step from \<open>c\<close> to \<open>c'\<close> keeps the number of servers and what has a \<open>listen\<close> directive, and changes
  server \<open>k\<close> at most.
\<close>

definition changes_server :: "nat option \<Rightarrow> ('w, 'h, 'k, 'f) nsoc_conf \<Rightarrow> ('w, 'h, 'k, 'f) nsoc_conf \<Rightarrow> bool" where
  "changes_server k c c' \<longleftrightarrow> length (nf_servers c') = length (nf_servers c)
     \<and> (\<forall>i < length (nf_servers c). sv_listen (nf_servers c ! i) \<longrightarrow> sv_listen (nf_servers c' ! i))
     \<and> (\<forall>i. Some i \<noteq> k \<longrightarrow> nf_servers c' ! i = nf_servers c ! i)"

lemma core_listen_new:
  assumes "ngx_nsoc_core_listen L ok i args ds = Some ds'"
  shows "\<exists>d. ds' = ds @ [d] \<and> lo_ctx d = i"
proof -
  from assms obtain ps a p wild ls bl where
    ls: "listen_params L ps (new_listen i a p wild, False) = Some (ls, bl)" and "ds' = ds @ [ls]"
    by (auto simp: ngx_nsoc_core_listen_def split: list.splits option.splits prod.splits if_splits)
  then show ?thesis using listen_params_keeps [OF ls] by (simp add: new_listen_def)
qed

lemma listen_directive_ok:
  assumes "listen_directive B i args c = Ret True c'" and "i < length (nf_servers c)" and "parse_ok B c"
    and "url_contract (ul_conf (bk_up B))"
  shows "parse_ok B c' \<and> changes_server (Some i) c c'"
proof -
  let ?s = "(nf_servers c ! i)\<lparr>sv_listen := True\<rparr>"
  obtain ok ls where ls: "ngx_nsoc_core_listen (ul_conf (bk_up B)) ok i args (nf_listen c) = Some ls"
    and c': "nf_listen c' = ls" "nf_servers c' = (nf_servers c)[i := ?s]" "uf_upstreams (nf_up c') = uf_upstreams (nf_up c)"
    using assms(1) by (auto simp: listen_directive_def Let_def get_srv_def split: option.splits)
  obtain d where d: "ls = nf_listen c @ [d]" "lo_ctx d = i" using core_listen_new [OF ls] by blast
  have "server_ok B (nf_count c) (nf_servers c ! i)" using assms(2,3) by (simp add: parse_ok_def)
  then have "server_ok B (nf_count c) ?s" by (simp add: server_ok_def)
  then have "\<forall>s \<in> set (nf_servers c'). server_ok B (nf_count c') s"
    using assms(3) c' set_update_subset_insert [of "nf_servers c" i ?s] by (auto simp: parse_ok_def)
  moreover have "listens_ok ls" using core_listen_ok [OF assms(4) _ ls] assms(3) by (simp add: parse_ok_def listens_of_def)
  ultimately show ?thesis
    using assms(2,3) c' d by (auto simp: parse_ok_def listens_of_def changes_server_def nth_list_update)
qed

text \<open>Putting a server that keeps its \<open>listen\<close> flag; \<open>c1\<close> differs from \<open>c\<close> in the tables at most.\<close>

lemma put_srv_ok:
  assumes "parse_ok B c" and "nf_servers c1 = nf_servers c" and "nf_listen c1 = nf_listen c" and "nf_count c \<le> nf_count c1"
    and "sv_listen s = sv_listen (get_srv k c)" and "\<forall>i. k = Some i \<longrightarrow> i < length (nf_servers c) \<and> server_ok B (nf_count c1) s"
  shows "parse_ok B (put_srv k s c1) \<and> changes_server k c (put_srv k s c1)"
proof (cases k)
  case None
  then show ?thesis using assms server_ok_mono by (fastforce simp: parse_ok_def listens_of_def changes_server_def)
next
  case (Some i)
  have "\<forall>x \<in> set ((nf_servers c)[i := s]). server_ok B (nf_count c1) x"
    using assms(1,4,6) Some set_update_subset_insert [of "nf_servers c" i s] server_ok_mono
    by (fastforce simp: parse_ok_def)
  then show ?thesis using assms Some
    by (auto simp: parse_ok_def listens_of_def changes_server_def get_srv_def nth_list_update)
qed

lemma srv_directive_ok:
  assumes "srv_directive B k ts c = Ret True c'" and "\<forall>i. k = Some i \<longrightarrow> i < length (nf_servers c)" and "parse_ok B c"
    and "url_contract (ul_conf (bk_up B))"
  shows "parse_ok B c' \<and> changes_server k c c'"
proof -
  have own: "server_ok B (nf_count c) (get_srv k c)" if "k = Some i" for i
    using assms(2,3) that by (simp add: parse_ok_def get_srv_def)
  from assms(1) show ?thesis
  proof (cases rule: srv_directive_cases)
    case (listen i args)
    then show ?thesis using listen_directive_ok [OF listen(2) _ assms(3,4)] assms(2) by simp
  next
    case (pass url)
    then obtain p u where pass': "ngx_nsoc_proxy_pass (bk_up B) url (sv_pass (get_srv k c)) (nf_up c) = Ret (Some p) u"
      and c': "c' = put_srv k ((get_srv k c)\<lparr>sv_pass := p, sv_core := (sv_core (get_srv k c))\<lparr>cscf_handler := Some (bk_content B)\<rparr>\<rparr>)
        (c\<lparr>nf_up := u\<rparr>)"
      by (auto simp: pass_directive_def Let_def split: run.splits option.splits)
    show ?thesis unfolding c'
      by (rule put_srv_ok [OF assms(3)]) (use pass_target [OF pass'] assms(2) in \<open>auto simp: server_ok_def\<close>)
  next
    case (bind v vs)
    then obtain p u where bind': "ngx_nsoc_proxy_bind (bk_up B) v vs (sv_pass (get_srv k c)) (nf_up c) = Ret (Some p) u"
      and c': "c' = put_srv k ((get_srv k c)\<lparr>sv_pass := p\<rparr>) (c\<lparr>nf_up := u\<rparr>)"
      by (auto simp: bind_directive_def split: run.splits option.splits)
    have "pp_upstream p = pp_upstream (sv_pass (get_srv k c)) \<and> pp_value p = pp_value (sv_pass (get_srv k c))"
      using bind' by (auto simp: ngx_nsoc_proxy_bind_def Let_def split: if_splits run.splits option.splits)
    then show ?thesis unfolding c'
      by (intro put_srv_ok [OF assms(3)]) (use bind_upstreams [OF bind'] assms(2) own in \<open>auto simp: server_ok_def\<close>)
  next
    case (own s)
    show ?thesis unfolding own(1)
      by (rule put_srv_ok [OF assms(3)]) (use own(2-) assms(2,3) in \<open>auto simp: server_ok_def parse_ok_def get_srv_def\<close>)
  qed
qed

definition main_ok :: "('w, 'h, 'k, 'f) block_lib \<Rightarrow> ('w, 'h, 'k, 'f) nsoc_conf \<Rightarrow> bool" where
  "main_ok B c \<longleftrightarrow> parse_ok B c \<and> (\<forall>i < length (nf_servers c). sv_listen (nf_servers c ! i))"

lemma created_server:
  assumes "each create_srv_conf nsoc_modules (s0, c) = Ret True (s, c')"
  shows "cscf_handler (sv_core s) = None \<and> pp_upstream (sv_pass s) = None \<and> \<not> sv_listen s"
  using assms
  by (auto simp: nsoc_modules_def and_then_True create_srv_conf_def Let_def ngx_nsoc_core_create_srv_conf_def
      split: option.splits if_splits)

lemma core_server_ok:
  assumes "ngx_nsoc_core_server B lines c = Ret True c'" and "main_ok B c" and "url_contract (ul_conf (bk_up B))"
  shows "main_ok B c'"
proof -
  obtain c1 s c2 c3 where 1: "nf_allocs 2 c = Ret True c1" and 2: "each create_srv_conf nsoc_modules (nf_null c1, c1) = Ret True (s, c2)"
    and 3: "nf_allocs 1 c2 = Ret True c3"
    and 4: "each (srv_directive B (Some (length (nf_servers c3)))) lines (c3\<lparr>nf_servers := nf_servers c3 @ [s]\<rparr>) = Ret True c'"
    and 5: "sv_listen (nf_servers c' ! length (nf_servers c3))"
    by (rule core_server_steps [OF assms(1)])
  let ?n = "length (nf_servers c)" and ?c4 = "c3\<lparr>nf_servers := nf_servers c3 @ [s]\<rparr>"
  have c3: "nf_servers c3 = nf_servers c" "nf_listen c3 = nf_listen c" "nf_count c3 = nf_count c"
    using 1 3 create_srv_confs_up [OF 2] by (auto simp: nf_allocs_True)
  let ?I = "\<lambda>x. parse_ok B x \<and> length (nf_servers x) = Suc ?n \<and> (\<forall>i < ?n. sv_listen (nf_servers x ! i))"
  have "server_ok B (nf_count c) s" using created_server [OF 2] by (simp add: server_ok_def)
  then have "?I ?c4" using assms(2) created_server [OF 2] c3
    by (auto simp: main_ok_def parse_ok_def listens_of_def nth_append less_Suc_eq)
  then have "?I c'"
  proof (rule each_inv [OF 4, of ?I])
    fix ts x x'
    assume dir: "srv_directive B (Some (length (nf_servers c3))) ts x = Ret True x'" and I: "?I x"
    have "parse_ok B x' \<and> changes_server (Some (length (nf_servers c3))) x x'"
      by (rule srv_directive_ok [OF dir _ _ assms(3)]) (use I c3 in auto)
    then show "?I x'" using I by (auto simp: changes_server_def)
  qed
  then show ?thesis using 5 c3 by (auto simp: main_ok_def less_Suc_eq)
qed

lemma main_directive_ok:
  assumes "main_directive B d c = Ret True c'" and "main_ok B c" and "url_contract (ul_conf (bk_up B))"
  shows "main_ok B c'"
proof (cases d)
  case (Directive ts)
  consider "srv_directive B None ts c = Ret True c'"
    | "nf_servers c' = nf_servers c" "nf_listen c' = nf_listen c" "nf_up c' = nf_up c"
    using assms(1) by (auto simp: Directive main_directive_def hash_size_directive_def split: list.splits if_splits option.splits)
  then show ?thesis
  proof cases
    case 1
    then show ?thesis using srv_directive_ok [OF 1 _ _ assms(3)] assms(2) by (auto simp: main_ok_def changes_server_def)
  next
    case 2
    then show ?thesis using assms(2) by (simp add: main_ok_def parse_ok_def listens_of_def)
  qed
next
  case (Block ts lines)
  consider "ngx_nsoc_core_server B lines c = Ret True c'"
    | name u where "ngx_nsoc_upstream (bk_up B) 3 name (map tl lines) (nf_up c) = Some u" "c' = c\<lparr>nf_up := u\<rparr>"
    using assms(1) by (auto simp: Block main_directive_def upstream_directive_def split: if_splits option.splits)
  then show ?thesis
  proof cases
    case 1
    then show ?thesis by (rule core_server_ok [OF _ assms(2,3)])
  next
    case 2
    then show ?thesis using upstream_block_vars [OF 2(1)] assms(2) server_ok_mono
      by (fastforce simp: main_ok_def parse_ok_def listens_of_def)
  qed
qed

lemma directives_ok:
  assumes "each (main_directive B) dirs c = Ret True c'" and "main_ok B c" and "url_contract (ul_conf (bk_up B))"
  shows "main_ok B c'"
  using assms(1) _ main_directive_ok [OF _ _ assms(3)] by (rule each_inv) (rule assms(2))

section \<open>Merging\<close>

text \<open>What the merge of each module does to a server.\<close>

definition merged :: "nsoc_module \<Rightarrow> ('w, 'h, 'k) server_block \<Rightarrow> ('w, 'h, 'k) server_block \<Rightarrow> bool" where
  "merged m s s' \<longleftrightarrow>
     (case m of
        Core \<Rightarrow> (\<exists>x. s' = s\<lparr>sv_core := x\<rparr> \<and> cscf_handler x = cscf_handler (sv_core s) \<and> cscf_handler x \<noteq> None
          \<and> conf_value (nsoc_preread_buffer_size x) \<le> NOISE_PROTOCOL_PAYLOAD_SIZE)
      | Proxy \<Rightarrow> (\<exists>x l. s' = s\<lparr>sv_proxy := x, sv_pass := (sv_pass s)\<lparr>pp_local := Some l\<rparr>\<rparr>
          \<and> conf_value (buffer_size x) \<le> NOISE_PROTOCOL_PAYLOAD_SIZE
          \<and> (noise_enable x = Some True \<longrightarrow> (\<exists>noise ctx. px_noise x = Some noise \<and> noise_ctx_p noise = Some ctx
              \<and> noise_buffer_size noise = conf_value (buffer_size x))))
      | Noiseserver \<Rightarrow> (\<exists>x noise ctx. s' = s\<lparr>sv_noise := x\<rparr> \<and> nsc_noise x = Some noise \<and> noise_ctx_p noise = Some ctx
          \<and> noise_buffer_size noise = conf_value (nsoc_preread_buffer_size (sv_core s)))
      | _ \<Rightarrow> s' = s)"

definition frame :: "('w, 'h, 'k, 'f) nsoc_conf \<Rightarrow> uconf \<times> listen_opt list \<times> (ngx_nsoc_phases \<Rightarrow> 'f list)" where
  "frame c = (nf_up c, nf_listen c, nf_phases c)"

lemma frame_simps [simp]:
  "frame (put_srv k s c) = frame c" "frame (c\<lparr>nf_world := w\<rparr>) = frame c" "frame (c\<lparr>nf_null := s\<rparr>) = frame c"
  by (simp_all add: frame_def put_srv_def split: option.splits)

lemma set_noiselink_noise:
  assumes "ngx_nsoc_proxy_set_noiselink N ids cln files place x w = Ret (Some x') w'"
  shows "\<exists>noise ctx. px_noise x' = Some noise \<and> noise_ctx_p noise = Some ctx \<and> noise_buffer_size noise = conf_value (buffer_size x)
    \<and> buffer_size x' = buffer_size x"
  using assms
  by (auto simp: ngx_nsoc_proxy_set_noiselink_def ngx_nsoc_create_def Let_def bind_run_Ret_iff
      split: prod.splits option.splits if_splits list.splits)

lemma merge_proxy_noise:
  assumes "ngx_nsoc_proxy_merge_srv_conf N ids cln files place prev conf w = Ret (Some x) w'"
  shows "conf_value (buffer_size x) \<le> NOISE_PROTOCOL_PAYLOAD_SIZE
    \<and> (noise_enable x = Some True \<longrightarrow> (\<exists>noise ctx. px_noise x = Some noise \<and> noise_ctx_p noise = Some ctx
        \<and> noise_buffer_size noise = conf_value (buffer_size x)))"
  using assms by (auto simp: ngx_nsoc_proxy_merge_srv_conf_def Let_def dest!: set_noiselink_noise split: if_splits)

lemma merge_core_handler:
  "ngx_nsoc_core_merge_srv_conf dummy lg prev conf = Some (p, x) \<Longrightarrow> cscf_handler x = cscf_handler conf \<and> cscf_handler x \<noteq> None"
  by (auto simp: ngx_nsoc_core_merge_srv_conf_def Let_def split: if_splits)

lemma merge_srv_conf_merged:
  assumes "merge_srv_conf B m i c = Ret True c'" and "i < length (nf_servers c)"
  shows "\<exists>s'. nf_servers c' = (nf_servers c)[i := s'] \<and> merged m (nf_servers c ! i) s' \<and> frame c' = frame c"
proof (cases m)
  case Core
  then obtain p x where x: "ngx_nsoc_core_merge_srv_conf (bk_resolver B []) (bk_new_log B) (sv_core (nf_null c)) (sv_core (nf_servers c ! i))
      = Some (p, x)" and c': "c' = put_srv (Some i) ((nf_servers c ! i)\<lparr>sv_core := x\<rparr>) (c\<lparr>nf_null := (nf_null c)\<lparr>sv_core := p\<rparr>\<rparr>)"
    using assms(1) by (auto simp: merge_srv_conf_def merge_core_def Let_def split: option.splits)
  show ?thesis using merge_core_handler [OF x] core_merge_bound [OF x] Core unfolding c'
    by (intro exI [of _ "(nf_servers c ! i)\<lparr>sv_core := x\<rparr>"]) (auto simp: merged_def)
next
  case Proxy
  obtain l where l: "merge_value (pp_local (sv_pass (nf_servers c ! i))) (pp_local (sv_pass (nf_null c))) None = Some l"
    by (cases "pp_local (sv_pass (nf_servers c ! i))"; cases "pp_local (sv_pass (nf_null c))") (auto simp: merge_value_def)
  obtain x w where x: "ngx_nsoc_proxy_merge_srv_conf (bk_nginx B) (bk_ids B) (bk_cleanup B i) (bk_files B) (bk_place B)
      (sv_proxy (nf_null c)) (sv_proxy (nf_servers c ! i)) (nf_world c) = Ret (Some x) w"
    and c': "c' = put_srv (Some i) ((nf_servers c ! i)\<lparr>sv_proxy := x, sv_pass := (sv_pass (nf_servers c ! i))\<lparr>pp_local := Some l\<rparr>\<rparr>)
      (c\<lparr>nf_world := w\<rparr>)"
    using assms(1) Proxy l by (auto simp: merge_srv_conf_def merge_proxy_def Let_def split: option.splits run.splits)
  show ?thesis unfolding c'
    by (intro exI [of _ "(nf_servers c ! i)\<lparr>sv_proxy := x, sv_pass := (sv_pass (nf_servers c ! i))\<lparr>pp_local := Some l\<rparr>\<rparr>"])
      (use merge_proxy_noise [OF x] Proxy in \<open>auto simp: merged_def\<close>)
next
  case Noiseserver
  obtain x w where x: "ngx_nsoc_noiseserver_merge_conf (bk_nginx B) (bk_cleanup B i) (nsoc_preread_buffer_size (sv_core (nf_servers c ! i)))
      (sv_noise (nf_null c)) (sv_noise (nf_servers c ! i)) (nf_world c) = (Some x, w)"
    "c' = put_srv (Some i) ((nf_servers c ! i)\<lparr>sv_noise := x\<rparr>) (c\<lparr>nf_world := w\<rparr>)"
    using assms(1) Noiseserver by (auto simp: merge_srv_conf_def merge_noise_def Let_def split: option.splits prod.splits)
  show ?thesis using server_merge_noise [OF x(1)] x(2) Noiseserver
    by (simp add: merged_def) metis
qed (use assms in \<open>auto simp: merge_srv_conf_def merged_def intro!: exI [of _ "nf_servers c ! i"]\<close>)

lemma merges_up_to:
  assumes "each (merge_srv_conf B m) [0..<k] c = Ret True c'" and "k \<le> length (nf_servers c)"
  shows "length (nf_servers c') = length (nf_servers c) \<and> (\<forall>i < k. merged m (nf_servers c ! i) (nf_servers c' ! i))
    \<and> (\<forall>i. k \<le> i \<longrightarrow> nf_servers c' ! i = nf_servers c ! i) \<and> frame c' = frame c"
  using assms
proof (induction k arbitrary: c')
  case (Suc k)
  then obtain c1 where c1: "each (merge_srv_conf B m) [0..<k] c = Ret True c1" "merge_srv_conf B m k c1 = Ret True c'"
    by (auto simp: each_append and_then_True)
  have IH: "length (nf_servers c1) = length (nf_servers c)" "\<forall>i < k. merged m (nf_servers c ! i) (nf_servers c1 ! i)"
    "\<forall>i. k \<le> i \<longrightarrow> nf_servers c1 ! i = nf_servers c ! i" "frame c1 = frame c"
    using Suc.IH [OF c1(1)] Suc.prems(2) by auto
  obtain s' where s': "nf_servers c' = (nf_servers c1)[k := s']" "merged m (nf_servers c1 ! k) s'" "frame c' = frame c1"
    using merge_srv_conf_merged [OF c1(2)] IH(1) Suc.prems(2) by auto
  then show ?case using IH Suc.prems(2) by (auto simp: nth_list_update less_Suc_eq)
qed simp

lemma init_and_merge_steps:
  assumes "init_and_merge B m c = Ret True c'"
  obtains c1 where "init_main_conf B m c = Ret True c1" "length (nf_servers c') = length (nf_servers c1)"
    "\<forall>i < length (nf_servers c1). merged m (nf_servers c1 ! i) (nf_servers c' ! i)" "frame c' = frame c1"
proof -
  obtain c1 where c1: "init_main_conf B m c = Ret True c1" "each (merge_srv_conf B m) [0..<length (nf_servers c1)] c1 = Ret True c'"
    using assms by (auto simp: init_and_merge_def and_then_True)
  then show thesis using that [OF c1(1)] merges_up_to [OF c1(2)] by simp
qed

text \<open>The way of a server through the merges of all modules.\<close>

definition all_merged :: "('w, 'h, 'k) server_block \<Rightarrow> ('w, 'h, 'k) server_block \<Rightarrow> bool" where
  "all_merged s s' \<longleftrightarrow> (\<exists>s1 s2. merged Core s s1 \<and> merged Proxy s1 s2 \<and> merged Noiseserver s2 s')"

lemma init_all_steps:
  assumes "each (init_and_merge B) nsoc_modules c = Ret True c'"
  shows "length (nf_servers c') = length (nf_servers c)"
    and "\<forall>i < length (nf_servers c). all_merged (nf_servers c ! i) (nf_servers c' ! i)"
    and "nf_listen c' = nf_listen c"
    and "ngx_nsoc_upstream_init_main_conf (bk_resolve B) (bk_peer_alloc B) (nf_up (ngx_nsoc_core_init_main_conf B c)) = Some (nf_up c')"
proof -
  obtain c1 c2 c3 c4 where steps: "init_and_merge B Core c = Ret True c1" "init_and_merge B Proxy c1 = Ret True c2"
    "init_and_merge B Upstream c2 = Ret True c3" "init_and_merge B Noiseserver c3 = Ret True c4"
    "init_and_merge B Write_filter c4 = Ret True c'"
    using assms by (auto simp: nsoc_modules_def and_then_True)
  let ?d = "ngx_nsoc_core_init_main_conf B c"
  have d: "nf_servers ?d = nf_servers c" "nf_listen ?d = nf_listen c" by (simp_all add: ngx_nsoc_core_init_main_conf_def Let_def)
  have 1: "length (nf_servers c1) = length (nf_servers c)" "frame c1 = frame ?d"
    "\<forall>i < length (nf_servers c). merged Core (nf_servers c ! i) (nf_servers c1 ! i)"
    using init_and_merge_steps [OF steps(1)] d by (auto simp: init_main_conf_def)
  have 2: "length (nf_servers c2) = length (nf_servers c1)" "frame c2 = frame c1"
    "\<forall>i < length (nf_servers c1). merged Proxy (nf_servers c1 ! i) (nf_servers c2 ! i)"
    using init_and_merge_steps [OF steps(2)] by (auto simp: init_main_conf_def)
  obtain d3 where d3: "init_main_conf B Upstream c2 = Ret True d3" "length (nf_servers c3) = length (nf_servers d3)"
    "\<forall>i < length (nf_servers d3). merged Upstream (nf_servers d3 ! i) (nf_servers c3 ! i)" "frame c3 = frame d3"
    by (rule init_and_merge_steps [OF steps(3)])
  obtain u where u: "ngx_nsoc_upstream_init_main_conf (bk_resolve B) (bk_peer_alloc B) (nf_up c2) = Some u"
    "length (nf_servers c3) = length (nf_servers c2)" "frame c3 = frame (c2\<lparr>nf_up := u\<rparr>)"
    "\<forall>i < length (nf_servers c2). nf_servers c3 ! i = nf_servers c2 ! i"
    using d3 by (auto simp: init_main_conf_def merged_def split: option.splits)
  have 4: "length (nf_servers c4) = length (nf_servers c3)" "frame c4 = frame c3"
    "\<forall>i < length (nf_servers c3). merged Noiseserver (nf_servers c3 ! i) (nf_servers c4 ! i)"
    using init_and_merge_steps [OF steps(4)] by (auto simp: init_main_conf_def)
  have 5: "length (nf_servers c') = length (nf_servers c4)" "frame c' = frame c4"
    "\<forall>i < length (nf_servers c4). nf_servers c' ! i = nf_servers c4 ! i"
    using init_and_merge_steps [OF steps(5)] by (auto simp: init_main_conf_def merged_def)
  show "length (nf_servers c') = length (nf_servers c)" using 1 2 u 4 5 by simp
  show "\<forall>i < length (nf_servers c). all_merged (nf_servers c ! i) (nf_servers c' ! i)"
    using 1 2 u 4 5 unfolding all_merged_def by (metis (no_types))
  show "nf_listen c' = nf_listen c" using 1(2) 2(2) u(3) 4(2) 5(2) d by (simp add: frame_def)
  show "ngx_nsoc_upstream_init_main_conf (bk_resolve B) (bk_peer_alloc B) (nf_up ?d) = Some (nf_up c')"
    using 1(2) 2(2) u(1,3) 4(2) 5(2) by (simp add: frame_def)
qed

section \<open>The block\<close>

text \<open>The stages of an accepted block, without its first allocations.\<close>

lemma block_stages:
  assumes "ngx_nsoc_block B dup dirs c = Ret True c'"
  obtains c1 c2 c3 c4 c5 c6 c7 c8 c9 where "nf_allocs 3 c = Ret True c1" "each create_confs nsoc_modules c1 = Ret True c2"
    "each (preconfiguration B) nsoc_modules c2 = Ret True c3" "each (main_directive B) dirs c3 = Ret True c4"
    "each (init_and_merge B) nsoc_modules c4 = Ret True c5" "ngx_nsoc_init_phases c5 = Ret True c6"
    "each (postconfiguration B) nsoc_modules c6 = Ret True c7" "finish_vars B c7 = Ret True c8"
    "finish_phases c8 = Ret True c9" "finish_sockets B c9 = Ret True c'"
  using assms by (auto simp: ngx_nsoc_block_def and_then_True split: if_splits)

lemma created:
  assumes "each create_confs nsoc_modules c = Ret True c'"
  shows "nf_servers c' = []" and "nf_listen c' = []" and "uf_upstreams (nf_up c') = []" and "variables (uf_vars (nf_up c')) = []"
proof -
  have one: "\<exists>c1 s p. create_main_conf m x = Ret True c1
      \<and> x' = c1\<lparr>nf_up := (nf_up c1)\<lparr>uf_vars := (uf_vars (nf_up c1))\<lparr>vc_pool := p\<rparr>\<rparr>, nf_null := s\<rparr>"
    if create: "create_confs m x = Ret True x'" for m and x x' :: "('a, 'b, 'c, 'd) nsoc_conf"
  proof -
    obtain c1 where 1: "create_main_conf m x = Ret True c1"
      and r: "(case create_srv_conf m (nf_null c1, c1) of Crash e \<Rightarrow> Crash e | Diverge \<Rightarrow> Diverge
        | Ret ok (s, c2) \<Rightarrow> Ret ok (c2\<lparr>nf_null := s\<rparr>)) = Ret True x'"
      using create unfolding create_confs_def and_then_True by blast
    obtain s c2 where 2: "create_srv_conf m (nf_null c1, c1) = Ret True (s, c2)" "x' = c2\<lparr>nf_null := s\<rparr>"
      using r by (cases "create_srv_conf m (nf_null c1, c1)") auto
    show ?thesis using create_srv_conf_up [OF 2(1)] 1 2(2) by auto
  qed
  obtain c1 c2 c3 c4 where steps: "create_confs Core c = Ret True c1" "create_confs Proxy c1 = Ret True c2"
    "create_confs Upstream c2 = Ret True c3" "create_confs Noiseserver c3 = Ret True c4" "create_confs Write_filter c4 = Ret True c'"
    using assms by (auto simp: nsoc_modules_def and_then_True)
  have 1: "nf_servers c1 = []" "nf_listen c1 = []" "variables (uf_vars (nf_up c1)) = []"
    using one [OF steps(1)] by (auto simp: create_main_conf_def ngx_nsoc_core_create_main_conf_def and_then_True)
  have 2: "nf_servers c2 = []" "nf_listen c2 = []" "variables (uf_vars (nf_up c2)) = []"
    using one [OF steps(2)] 1 by (auto simp: create_main_conf_def)
  have 3: "nf_servers c3 = []" "nf_listen c3 = []" "variables (uf_vars (nf_up c3)) = []" "uf_upstreams (nf_up c3) = []"
    using one [OF steps(3)] 2
    by (auto simp: create_main_conf_def ngx_nsoc_upstream_create_main_conf_def Let_def split: option.splits if_splits)
  show "nf_servers c' = []" and "nf_listen c' = []" and "uf_upstreams (nf_up c') = []" and "variables (uf_vars (nf_up c')) = []"
    using one [OF steps(4)] one [OF steps(5)] 3 by (auto simp: create_main_conf_def)
qed

lemma preconfigured:
  assumes "each (preconfiguration B) nsoc_modules c = Ret True c'"
  shows "nf_servers c' = nf_servers c" and "nf_listen c' = nf_listen c" and "uf_upstreams (nf_up c') = uf_upstreams (nf_up c)"
    and "variables (uf_vars (nf_up c)) = [] \<Longrightarrow> table_in nsoc_handlers (uf_vars (nf_up c'))"
proof -
  obtain v v' where v: "ngx_nsoc_variables_add_core_vars (bk_vars B) (uf_vars (nf_up c)) = Ret NGX_OK v"
    "ngx_nsoc_upstream_add_variables (bk_vars B) v = Ret NGX_OK v'" "c' = c\<lparr>nf_up := (nf_up c)\<lparr>uf_vars := v'\<rparr>\<rparr>"
    using assms by (auto simp: nsoc_modules_def and_then_True preconfiguration_def split: run.splits)
  then show "nf_servers c' = nf_servers c" and "nf_listen c' = nf_listen c" and "uf_upstreams (nf_up c') = uf_upstreams (nf_up c)"
    by simp_all
  show "table_in nsoc_handlers (uf_vars (nf_up c'))" if "variables (uf_vars (nf_up c)) = []"
  proof -
    have "(conf_step nsoc_handlers (bk_vars B))\<^sup>*\<^sup>* v v'" using upstream_vars_step [OF v(2)] by (rule r_into_rtranclp)
    then show ?thesis using configured_table [OF v(1) that] v(3) by simp
  qed
qed

lemma finished:
  assumes "ngx_nsoc_init_phases c5 = Ret True c6" and "each (postconfiguration B) nsoc_modules c6 = Ret True c7"
    and "finish_vars B c7 = Ret True c8" and "finish_phases c8 = Ret True c9" and "finish_sockets B c9 = Ret True c'"
  shows "nf_servers c' = nf_servers c5" and "nf_listen c' = nf_listen c5" and "uf_upstreams (nf_up c') = uf_upstreams (nf_up c5)"
    and "\<exists>p q v. ngx_nsoc_variables_init_vars (bk_vars B) ((uf_vars (nf_up c5))\<lparr>vc_pool := p\<rparr>) = Ret NGX_OK v
      \<and> uf_vars (nf_up c') = v\<lparr>vc_pool := q\<rparr>"
    and "nf_engine c' = Some (phase_entries ((\<lambda>p. [])(NGX_NSOC_PROTECT_PHASE := [bk_guard B])) 0 phases_before_log)"
    and "make_listenings (bk_socket_alloc B) (bk_ntop B) (bk_sort B) (nf_listen c') = Some (nf_sockets c')"
proof -
  obtain p1 where c6: "c6 = c5\<lparr>nf_up := (nf_up c5)\<lparr>uf_vars := (uf_vars (nf_up c5))\<lparr>vc_pool := p1\<rparr>\<rparr>, nf_phases := (\<lambda>p. [])\<rparr>"
    using assms(1) take_allocs_pool [of 6 "nf_up c5"] by (auto simp: ngx_nsoc_init_phases_def and_then_True nf_allocs_True)
  obtain p2 where c7: "c7 = c5\<lparr>nf_up := (nf_up c5)\<lparr>uf_vars := (uf_vars (nf_up c5))\<lparr>vc_pool := p2\<rparr>\<rparr>,
      nf_phases := (\<lambda>p. [])(NGX_NSOC_PROTECT_PHASE := [bk_guard B]), nf_filter := True\<rparr>"
    using assms(2) unfolding c6
    by (auto simp: nsoc_modules_def and_then_True postconfiguration_def ngx_nsoc_write_filter_init_def Let_def
        ngx_nsoc_noiseserver_init_def split: if_splits)
  obtain v where v: "ngx_nsoc_variables_init_vars (bk_vars B) ((uf_vars (nf_up c5))\<lparr>vc_pool := p2\<rparr>) = Ret NGX_OK v"
    "c8 = c7\<lparr>nf_up := (nf_up c5)\<lparr>uf_vars := v\<rparr>\<rparr>"
    using assms(3) unfolding c7 by (auto simp: finish_vars_def split: run.splits)
  obtain p3 where c9: "c9 = c8\<lparr>nf_up := (nf_up c8)\<lparr>uf_vars := (uf_vars (nf_up c8))\<lparr>vc_pool := p3\<rparr>\<rparr>,
      nf_engine := Some (phase_entries (nf_phases c8) 0 phases_before_log)\<rparr>"
    using assms(4) by (auto simp: finish_phases_def Let_def ngx_nsoc_init_phase_handlers_def split: if_splits)
  obtain p4 where c': "c' = c9\<lparr>nf_up := (nf_up c9)\<lparr>uf_vars := (uf_vars (nf_up c9))\<lparr>vc_pool := p4\<rparr>\<rparr>, nf_sockets := nf_sockets c'\<rparr>"
    and sockets: "make_listenings (bk_socket_alloc B) (bk_ntop B) (bk_sort B) (nf_listen c9) = Some (nf_sockets c')"
    using assms(5) take_allocs_pool [of 1 "nf_up c9"]
    by (auto simp: finish_sockets_def and_then_True nf_allocs_True split: option.splits)
  show "nf_servers c' = nf_servers c5" and "nf_listen c' = nf_listen c5" and "uf_upstreams (nf_up c') = uf_upstreams (nf_up c5)"
    and "nf_engine c' = Some (phase_entries ((\<lambda>p. [])(NGX_NSOC_PROTECT_PHASE := [bk_guard B])) 0 phases_before_log)"
    by (subst c'; simp add: c9 v(2) c7)+
  show "make_listenings (bk_socket_alloc B) (bk_ntop B) (bk_sort B) (nf_listen c') = Some (nf_sockets c')"
    using sockets by (subst c') (simp add: c9 v(2) c7)
  have "uf_vars (nf_up c') = v\<lparr>vc_pool := p4\<rparr>" by (subst c') (simp add: c9 v(2) c7)
  then show "\<exists>p q v. ngx_nsoc_variables_init_vars (bk_vars B) ((uf_vars (nf_up c5))\<lparr>vc_pool := p\<rparr>) = Ret NGX_OK v
      \<and> uf_vars (nf_up c') = v\<lparr>vc_pool := q\<rparr>" using v(1) by blast
qed

text \<open>An accepted block: the directives \<open>c3\<close> to \<open>c4\<close>, and what the rest of the block makes of \<open>c4\<close>.\<close>

lemma accepted_block:
  assumes "ngx_nsoc_block B dup dirs c = Ret True c'"
  obtains c3 c4 u p q v where "each (main_directive B) dirs c3 = Ret True c4"
    "nf_servers c3 = []" "nf_listen c3 = []" "uf_upstreams (nf_up c3) = []" "table_in nsoc_handlers (uf_vars (nf_up c3))"
    "length (nf_servers c') = length (nf_servers c4)" "nf_listen c' = nf_listen c4"
    "\<forall>i < length (nf_servers c4). all_merged (nf_servers c4 ! i) (nf_servers c' ! i)"
    "ngx_nsoc_upstream_init_main_conf (bk_resolve B) (bk_peer_alloc B) (nf_up (ngx_nsoc_core_init_main_conf B c4)) = Some u"
    "uf_upstreams (nf_up c') = uf_upstreams u"
    "ngx_nsoc_variables_init_vars (bk_vars B) ((uf_vars u)\<lparr>vc_pool := p\<rparr>) = Ret NGX_OK v" "uf_vars (nf_up c') = v\<lparr>vc_pool := q\<rparr>"
    "nf_engine c' = Some (phase_entries ((\<lambda>p. [])(NGX_NSOC_PROTECT_PHASE := [bk_guard B])) 0 phases_before_log)"
    "make_listenings (bk_socket_alloc B) (bk_ntop B) (bk_sort B) (nf_listen c') = Some (nf_sockets c')"
proof -
  obtain c1 c2 c3 c4 c5 c6 c7 c8 c9 where s: "each create_confs nsoc_modules c1 = Ret True c2"
    "each (preconfiguration B) nsoc_modules c2 = Ret True c3" "each (main_directive B) dirs c3 = Ret True c4"
    "each (init_and_merge B) nsoc_modules c4 = Ret True c5" "ngx_nsoc_init_phases c5 = Ret True c6"
    "each (postconfiguration B) nsoc_modules c6 = Ret True c7" "finish_vars B c7 = Ret True c8"
    "finish_phases c8 = Ret True c9" "finish_sockets B c9 = Ret True c'"
    by (rule block_stages [OF assms])
  note made = created [OF s(1)] and pre = preconfigured [OF s(2)] and init = init_all_steps [OF s(4)]
    and fin = finished [OF s(5-9)]
  obtain p q v where v: "ngx_nsoc_variables_init_vars (bk_vars B) ((uf_vars (nf_up c5))\<lparr>vc_pool := p\<rparr>) = Ret NGX_OK v"
    "uf_vars (nf_up c') = v\<lparr>vc_pool := q\<rparr>" using fin(4) by blast
  show thesis
    by (rule that [OF s(3) _ _ _ _ _ _ _ init(4) fin(3) v fin(5,6)]) (use made pre init fin(1,2) in auto)
qed

lemma directives_main_ok:
  assumes "each (main_directive B) dirs c3 = Ret True c4" and "nf_servers c3 = []" and "nf_listen c3 = []"
    and "url_contract (ul_conf (bk_up B))"
  shows "main_ok B c4"
  using directives_ok [OF assms(1) _ assms(4)] assms(2,3) by (simp add: main_ok_def parse_ok_def listens_of_def listens_ok_def)

text \<open>Every upstream is started.\<close>

lemma round_robin_started: "ngx_nsoc_upstream_init_round_robin resolve alloc us = (NGX_OK, peers) \<Longrightarrow> peers \<noteq> None"
  by (auto simp: ngx_nsoc_upstream_init_round_robin_def Let_def split: option.splits if_splits)

lemma started_peers:
  assumes "upstreams_ok L (uf_upstreams c) ps" and "ngx_nsoc_upstream_init_main_conf resolve alloc c = Some c'"
    and "e \<in> set (uf_upstreams c')"
  shows "ue_peers e \<noteq> None"
  using started_entry [OF assms] round_robin_started by metis

lemma started_length: "ngx_nsoc_upstream_init_main_conf resolve alloc c = Some c' \<Longrightarrow> length (uf_upstreams c') = length (uf_upstreams c)"
proof -
  have "start_upstreams f es = Some es' \<Longrightarrow> length es' = length es" for f es es'
    by (induction es arbitrary: es') (auto split: option.splits)
  then show "ngx_nsoc_upstream_init_main_conf resolve alloc c = Some c' \<Longrightarrow> ?thesis"
    by (auto simp: ngx_nsoc_upstream_init_main_conf_def)
qed

lemma accepted_upstreams:
  assumes "ngx_nsoc_block B dup dirs c = Ret True c'" and "atoi_contract (ul_conf (bk_up B))"
    and "e \<in> set (uf_upstreams (nf_up c'))"
  shows "ue_peers e \<noteq> None"
    and "is_block e \<Longrightarrow> \<exists>p b. ue_peers e = Some (p, b) \<and> plist p \<noteq> []
      \<and> (\<forall>g. g = p \<or> b = Some g \<longrightarrow> number g = length (plist g) \<and> (\<forall>q \<in> set (plist g). fresh_peer q))"
proof -
  obtain c3 c4 u where a: "each (main_directive B) dirs c3 = Ret True c4" "uf_upstreams (nf_up c3) = []"
    "ngx_nsoc_upstream_init_main_conf (bk_resolve B) (bk_peer_alloc B) (nf_up (ngx_nsoc_core_init_main_conf B c4)) = Some u"
    "uf_upstreams (nf_up c') = uf_upstreams u" using accepted_block [OF assms(1)] by metis
  have "upstreams_ok (bk_vars B) (uf_upstreams (nf_up c3)) []" by (simp add: upstreams_ok_def a(2))
  then obtain ps where "upstreams_ok (bk_vars B) (uf_upstreams (nf_up c4)) ps"
    using ups.directives [OF a(1)] assms(2) by blast
  then have ok: "upstreams_ok (bk_vars B) (uf_upstreams (nf_up (ngx_nsoc_core_init_main_conf B c4))) ps"
    by (simp add: ngx_nsoc_core_init_main_conf_def Let_def)
  show "ue_peers e \<noteq> None" using started_peers [OF ok a(3)] assms(3) a(4) by simp
  show "is_block e \<Longrightarrow> \<exists>p b. ue_peers e = Some (p, b) \<and> plist p \<noteq> []
      \<and> (\<forall>g. g = p \<or> b = Some g \<longrightarrow> number g = length (plist g) \<and> (\<forall>q \<in> set (plist g). fresh_peer q))"
    using started_balanced [OF ok a(3)] assms(3) a(4) by simp
qed

text \<open>A server of the block after the merges.\<close>

lemma all_merged_server:
  assumes "all_merged s s'" and "server_ok B n s"
  shows "cscf_handler (sv_core s') = Some (bk_content B)"
    and "pp_upstream (sv_pass s') = None \<Longrightarrow> pp_value (sv_pass s') \<noteq> None"
    and "pp_upstream (sv_pass s') = Some k \<Longrightarrow> k < n"
    and "conf_value (nsoc_preread_buffer_size (sv_core s')) \<le> NOISE_PROTOCOL_PAYLOAD_SIZE"
    and "conf_value (buffer_size (sv_proxy s')) \<le> NOISE_PROTOCOL_PAYLOAD_SIZE"
    and "\<exists>noise ctx. nsc_noise (sv_noise s') = Some noise \<and> noise_ctx_p noise = Some ctx
      \<and> noise_buffer_size noise = conf_value (nsoc_preread_buffer_size (sv_core s'))"
    and "noise_enable (sv_proxy s') = Some True \<Longrightarrow> \<exists>noise ctx. px_noise (sv_proxy s') = Some noise
      \<and> noise_ctx_p noise = Some ctx \<and> noise_buffer_size noise = conf_value (buffer_size (sv_proxy s'))"
proof -
  obtain s1 where "merged Core s s1" using assms(1) by (auto simp: all_merged_def)
  then have "cscf_handler (sv_core s) \<noteq> None" unfolding merged_def nsoc_module.case by metis
  then obtain h where "cscf_handler (sv_core s) = Some h" by blast
  then show "cscf_handler (sv_core s') = Some (bk_content B)" "pp_upstream (sv_pass s') = None \<Longrightarrow> pp_value (sv_pass s') \<noteq> None"
    using assms by (auto simp: all_merged_def merged_def server_ok_def)
qed (use assms in \<open>auto simp: all_merged_def merged_def server_ok_def\<close>)

lemma accepted_servers:
  assumes "ngx_nsoc_block B dup dirs c = Ret True c'" and "url_contract (ul_conf (bk_up B))"
  shows "listens_ok (nf_listen c')" and "d \<in> set (nf_listen c') \<Longrightarrow> lo_ctx d < length (nf_servers c')"
    and "i < length (nf_servers c') \<Longrightarrow> \<exists>d \<in> set (nf_listen c'). lo_ctx d = i"
    and "i < length (nf_servers c') \<Longrightarrow> \<exists>s. all_merged s (nf_servers c' ! i) \<and> server_ok B (length (uf_upstreams (nf_up c'))) s"
proof -
  obtain c3 c4 u where a: "each (main_directive B) dirs c3 = Ret True c4" "nf_servers c3 = []" "nf_listen c3 = []"
    and len: "length (nf_servers c') = length (nf_servers c4)" "nf_listen c' = nf_listen c4"
    and mg: "\<forall>i < length (nf_servers c4). all_merged (nf_servers c4 ! i) (nf_servers c' ! i)"
    and u: "ngx_nsoc_upstream_init_main_conf (bk_resolve B) (bk_peer_alloc B) (nf_up (ngx_nsoc_core_init_main_conf B c4)) = Some u"
      "uf_upstreams (nf_up c') = uf_upstreams u" using accepted_block [OF assms(1)] by metis
  have ok: "main_ok B c4" by (rule directives_main_ok [OF a assms(2)])
  have n: "nf_count c4 = length (uf_upstreams (nf_up c'))"
    using started_length [OF u(1)] u(2) by (simp add: ngx_nsoc_core_init_main_conf_def Let_def)
  show "listens_ok (nf_listen c')" and "d \<in> set (nf_listen c') \<Longrightarrow> lo_ctx d < length (nf_servers c')"
    and "i < length (nf_servers c') \<Longrightarrow> \<exists>d \<in> set (nf_listen c'). lo_ctx d = i"
    using ok len by (auto simp: main_ok_def parse_ok_def listens_of_def)
  show "i < length (nf_servers c') \<Longrightarrow> \<exists>s. all_merged s (nf_servers c' ! i) \<and> server_ok B (length (uf_upstreams (nf_up c'))) s"
    using ok mg len n by (auto simp: main_ok_def parse_ok_def)
qed

lemma accepted_variables:
  assumes "ngx_nsoc_block B dup dirs c = Ret True c'" and "fold_contract (bk_vars B)"
  shows "handled_by nsoc_handlers (uf_vars (nf_up c'))"
proof -
  obtain c3 c4 u p q v where a: "each (main_directive B) dirs c3 = Ret True c4" "table_in nsoc_handlers (uf_vars (nf_up c3))"
    "ngx_nsoc_upstream_init_main_conf (bk_resolve B) (bk_peer_alloc B) (nf_up (ngx_nsoc_core_init_main_conf B c4)) = Some u"
    "ngx_nsoc_variables_init_vars (bk_vars B) ((uf_vars u)\<lparr>vc_pool := p\<rparr>) = Ret NGX_OK v" "uf_vars (nf_up c') = v\<lparr>vc_pool := q\<rparr>"
    using accepted_block [OF assms(1)] by metis
  have "table_in nsoc_handlers (uf_vars (nf_up c4))" using vars.directives [OF a(1)] a(2) assms(2) by blast
  moreover obtain n where "uf_vars u = (uf_vars (nf_up c4))\<lparr>vc_ncaptures := n\<rparr>"
    using a(3) by (auto simp: ngx_nsoc_upstream_init_main_conf_def ngx_nsoc_core_init_main_conf_def Let_def)
  ultimately have "table_in nsoc_handlers ((uf_vars u)\<lparr>vc_pool := p\<rparr>)" by (simp add: table_in_def)
  then show ?thesis using init_vars_ok(1) [OF a(4)] a(5) by (simp add: handled_by_def)
qed

end
