(* ===== verification/Nsoc_Accepted.thy ===== *)
theory Nsoc_Accepted
  imports Nsoc_Block_Laws "HOL-Library.Code_Target_Numeral"
begin

text \<open>
  The properties of an accepted \<open>noise_socket\<close> block, from its text to the sessions it serves: its servers can
  serve, its variables and balancers can be used, and a connection to one of its sockets gets the
  server its address asks for, behind the guard of the noise server module. The end of the theory
  evaluates the block on a concrete configuration.
\<close>

section \<open>The engine of a server\<close>

text \<open>
  Handlers find their module's configuration through the server of the session: \<open>server_env\<close> is what the
  engine runs with for server \<open>i\<close>, \<open>server_engine\<close> the phase table of the block as that server's sessions see it.
\<close>

definition server_env :: "('w, 'h, 'k) core_env \<Rightarrow> ('w, 'h, 'k, 'f) nsoc_conf \<Rightarrow> nat \<Rightarrow> ('w, 'h, 'k) core_env" where
  "server_env env c i = env\<lparr>ce_srv := sv_core (nf_servers c ! i)\<rparr>"

definition server_guard :: "('w, 'h, 'k, noiseserver_conf \<Rightarrow> ('w, 'h, 'k) Nsoc_Session.handler) nsoc_conf \<Rightarrow> nat
    \<Rightarrow> (noiseserver_conf \<Rightarrow> ('w, 'h, 'k) Nsoc_Session.handler) phase_handler_t \<Rightarrow> ('w, 'h, 'k) Nsoc_Session.handler phase_handler_t" where
  "server_guard c i ph = \<lparr>ph_checker = ph_checker ph, ph_handler = map_option (\<lambda>g. g (sv_noise (nf_servers c ! i))) (ph_handler ph),
     ph_next = ph_next ph\<rparr>"

definition server_engine :: "('w, 'h, 'k, noiseserver_conf \<Rightarrow> ('w, 'h, 'k) Nsoc_Session.handler) nsoc_conf \<Rightarrow> nat
    \<Rightarrow> ('w, 'h, 'k) Nsoc_Session.handler phase_handler_t list" where
  "server_engine c i = map (server_guard c i) (case nf_engine c of None \<Rightarrow> [] | Some t \<Rightarrow> t)"

lemma accepted_engine:
  assumes "ngx_nsoc_block B dup dirs c = Ret True c'" and "bk_guard B = protect_handler f N X files place"
  shows "server_engine c' i = entries_of 0 [(NGX_NSOC_PROTECT_PHASE, [protect_handler f N X files place (sv_noise (nf_servers c' ! i))]),
    (NGX_NSOC_PREREAD_PHASE, []), (NGX_NSOC_CONTENT_PHASE, [])]"
proof -
  have "nf_engine c' = Some (phase_entries ((\<lambda>p. [])(NGX_NSOC_PROTECT_PHASE := [bk_guard B])) 0 phases_before_log)"
    using accepted_block [OF assms(1)] by metis
  then show ?thesis
    by (simp add: server_engine_def server_guard_def phases_before_log_def handler_entry_def assms(2))
qed

lemma guarded_phases:
  "phases_spec pf env [(NGX_NSOC_PROTECT_PHASE, [h]), (NGX_NSOC_PREREAD_PHASE, []), (NGX_NSOC_CONTENT_PHASE, hs)] s
    = bind_run (generic_verdict env h s) (\<lambda>v u. if v = Stop then Ret () u else content_spec env u)"
proof -
  have "(case v of
         Next_phase \<Rightarrow> phases_spec pf env [(NGX_NSOC_PREREAD_PHASE, []), (NGX_NSOC_CONTENT_PHASE, hs)] u
       | Next_handler \<Rightarrow> phases_spec pf env ((NGX_NSOC_PROTECT_PHASE, []) #
           [(NGX_NSOC_PREREAD_PHASE, []), (NGX_NSOC_CONTENT_PHASE, hs)]) u
       | Stop \<Rightarrow> Ret () u) = (if v = Stop then Ret () u else content_spec env u)" for v u
    by (cases v) (simp_all add: phases_spec.simps)
  then show ?thesis by (simp add: phases_spec.simps(2) [of _ _ NGX_NSOC_PROTECT_PHASE "[h]"] verdict_of_def)
qed

section \<open>A concrete block\<close>

definition demo_block_conf :: conf_lib where
  "demo_block_conf = \<lparr>ngx_parse_url = (\<lambda>v. if v = ''10:80'' then Some (Inet 10, 80, False)
       else if v = ''*:80'' then Some (Inet 0, 80, True) else None),
     ngx_atoi = (\<lambda>t. if t = ''2'' then 2 else NGX_ERROR), ngx_parse_time = (\<lambda>t. NGX_ERROR)\<rparr>"

definition demo_files :: "string \<Rightarrow> byte list option" where
  "demo_files f = (if f = ''key'' then Some (replicate 32 7) else None)"

definition demo_block_lib ::
  "(script, demo_hs, nat, noiseserver_conf \<Rightarrow> (script, demo_hs, nat) Nsoc_Session.handler) block_lib" where
  "demo_block_lib = \<lparr>bk_up = demo_up_lib\<lparr>ul_conf := demo_block_conf\<rparr>, bk_nginx = script_nginx\<lparr>ngx_palloc := (\<lambda>n w. (Some [], w))\<rparr>,
     bk_ids = \<lparr>id_cipher = 1, id_dh = 1, id_hash = 1, id_pattern = 1\<rparr>, bk_files = demo_files, bk_place = (0, []),
     bk_content = (\<lambda>s. Ret () (s\<lparr>se_status := NGX_NSOC_OK\<rparr>)),
     bk_guard = protect_handler 3 script_nginx demo_noise demo_files (0, []),
     bk_num_slot = (\<lambda>v x. None), bk_size_slot = (\<lambda>v x. if x = None \<and> v = ''1k'' then Some 1024 else None),
     bk_msec_slot = (\<lambda>v x. None), bk_flag_slot = (\<lambda>v x. if x = None then Some (v = ''on'') else None),
     bk_str_slot = (\<lambda>v x. if x = None then Some v else None),
     bk_set_log = (\<lambda>args x. Some 1), bk_resolver = (\<lambda>args. Some 0), bk_new_log = 0, bk_align = (\<lambda>n. n), bk_cleanup = (\<lambda>i. True),
     bk_resolve = (\<lambda>h p. None), bk_peer_alloc = (\<lambda>n. True), bk_socket_alloc = (\<lambda>d. True), bk_ntop = (\<lambda>a p. []),
     bk_sort = demo_sort\<rparr>"

definition demo_start :: "(script, demo_hs, nat, noiseserver_conf \<Rightarrow> (script, demo_hs, nat) Nsoc_Session.handler) nsoc_conf" where
  "demo_start = \<lparr>nf_up = demo_uconf, nf_hash_max = None, nf_hash_bucket = None, nf_listen = [],
     nf_null = \<lparr>sv_core = demo_cscf, sv_listen = False, sv_proxy = the (ngx_nsoc_proxy_create_srv_conf True),
       sv_pass = demo_pass_conf, sv_noise = demo_unset\<rparr>,
     nf_servers = [], nf_phases = (\<lambda>p. []), nf_engine = None, nf_filter = False, nf_sockets = [], nf_world = script_world []\<rparr>"

text \<open>
  Two servers on one port, one of them with noise on a single address; the first passes on to an
  \<open>upstream\<close> block, the second, before the block, to an address with a variable.
\<close>

definition demo_directives :: "directive list" where
  "demo_directives =
    [Block [''server''] [[''listen'', ''*:80''], [''proxy_pass'', ''$remote_addr:1'']],
     Directive [''server_private_key_file'', ''key''],
     Block [''upstream'', ''Back''] [[''server'', ''s'', ''weight=2'']],
     Block [''server''] [[''preread_buffer_size'', ''1k''], [''proxy_pass'', ''back''], [''listen'', ''10:80'', ''noise'']]]"

definition demo_block where
  "demo_block = ngx_nsoc_block demo_block_lib False demo_directives demo_start"

definition demo_accepted_block where
  "demo_accepted_block = run_state demo_block demo_start"

text \<open>One evaluation of the block, of which the parts that are needed are kept.\<close>

definition demo_summary :: "bool \<times> nat \<times> nat option list \<times> nat \<times> bool list \<times> listen_opt list" where
  "demo_summary = (case demo_block of
      Ret ok c \<Rightarrow> (ok, length (nf_servers c), map (\<lambda>s. pp_upstream (sv_pass s)) (nf_servers c), length (variables (uf_vars (nf_up c))),
        map is_block (uf_upstreams (nf_up c)), nf_listen c)
    | _ \<Rightarrow> (False, 0, [], 0, [], []))"

lemma demo_summary_value:
  "demo_summary = (True, 2, [None, Some 0], 1, [True],
     [new_listen 0 (Inet 0) 80 True, (new_listen 1 (Inet 10) 80 False)\<lparr>lo_noise_on := True\<rparr>])"
  by code_simp

lemma demo_block_accepted: "demo_block = Ret True demo_accepted_block"
proof -
  obtain c where c: "demo_block = Ret True c"
    using demo_summary_value unfolding demo_summary_def by (auto split: run.splits)
  show ?thesis unfolding demo_accepted_block_def c run_state.simps by (rule refl)
qed

lemma demo_block_parts:
  "length (nf_servers demo_accepted_block) = 2"
  "pp_upstream (sv_pass (nf_servers demo_accepted_block ! 1)) = Some 0"
  "length (variables (uf_vars (nf_up demo_accepted_block))) = 1"
  "map is_block (uf_upstreams (nf_up demo_accepted_block)) = [True]"
  "nf_listen demo_accepted_block = [new_listen 0 (Inet 0) 80 True, (new_listen 1 (Inet 10) 80 False)\<lparr>lo_noise_on := True\<rparr>]"
proof -
  let ?c = demo_accepted_block
  have "(True, length (nf_servers ?c), map (\<lambda>s. pp_upstream (sv_pass s)) (nf_servers ?c), length (variables (uf_vars (nf_up ?c))),
      map is_block (uf_upstreams (nf_up ?c)), nf_listen ?c) = demo_summary"
    unfolding demo_summary_def demo_block_accepted run.case by (rule refl)
  then have parts: "length (nf_servers ?c) = 2" "map (\<lambda>s. pp_upstream (sv_pass s)) (nf_servers ?c) = [None, Some 0]"
    "length (variables (uf_vars (nf_up ?c))) = 1" "map is_block (uf_upstreams (nf_up ?c)) = [True]"
    "nf_listen ?c = [new_listen 0 (Inet 0) 80 True, (new_listen 1 (Inet 10) 80 False)\<lparr>lo_noise_on := True\<rparr>]"
    unfolding demo_summary_value by blast+
  have "map (\<lambda>s. pp_upstream (sv_pass s)) (nf_servers ?c) ! 1 = Some 0" unfolding parts(2) by simp
  then show "pp_upstream (sv_pass (nf_servers ?c ! 1)) = Some 0" using parts(1) by (simp add: nth_map)
  show "length (nf_servers ?c) = 2" "length (variables (uf_vars (nf_up ?c))) = 1" "map is_block (uf_upstreams (nf_up ?c)) = [True]"
    "nf_listen ?c = [new_listen 0 (Inet 0) 80 True, (new_listen 1 (Inet 10) 80 False)\<lparr>lo_noise_on := True\<rparr>]"
    by (fact parts)+
qed

lemma demo_contracts:
  "url_contract (ul_conf (bk_up demo_block_lib))" "atoi_contract (ul_conf (bk_up demo_block_lib))"
  "fold_contract (bk_vars demo_block_lib)" "sort_contract (bk_sort demo_block_lib)"
  using demo_script_fold demo_sort_contract
  by (auto simp: demo_block_lib_def demo_block_conf_def demo_up_lib_def url_contract_def atoi_contract_def)

section \<open>Properties\<close>

text \<open>
  C4: An accepted \<open>noise_socket\<close> block has only servers that can serve. Whatever the directives and their
  order, every server of the block has a \<open>listen\<close> directive of its own, the proxy as its content
  handler, and a target for it: a value to evaluate, or an upstream of the table whose balancer has
  been started. Both buffer sizes are within the payload of a noise frame; the noise context of
  the server, and of the proxy if it is to use noise, is there with the size of its buffer.
\<close>

theorem accepted_block_ready:
  assumes "ngx_nsoc_block B dup dirs c = Ret True c'" and "url_contract (ul_conf (bk_up B))" and "atoi_contract (ul_conf (bk_up B))"
    and "i < length (nf_servers c')" and "s = nf_servers c' ! i"
  shows "(\<exists>d \<in> set (nf_listen c'). lo_ctx d = i) \<and> cscf_handler (sv_core s) = Some (bk_content B)
    \<and> (pp_value (sv_pass s) \<noteq> None \<or> (\<exists>k. pp_upstream (sv_pass s) = Some k))
    \<and> (\<forall>k. pp_upstream (sv_pass s) = Some k \<longrightarrow>
        k < length (uf_upstreams (nf_up c')) \<and> ue_peers (uf_upstreams (nf_up c') ! k) \<noteq> None)
    \<and> conf_value (nsoc_preread_buffer_size (sv_core s)) \<le> NOISE_PROTOCOL_PAYLOAD_SIZE
    \<and> conf_value (buffer_size (sv_proxy s)) \<le> NOISE_PROTOCOL_PAYLOAD_SIZE
    \<and> (\<exists>noise ctx. nsc_noise (sv_noise s) = Some noise \<and> noise_ctx_p noise = Some ctx
        \<and> noise_buffer_size noise = conf_value (nsoc_preread_buffer_size (sv_core s)))
    \<and> (noise_enable (sv_proxy s) = Some True \<longrightarrow> (\<exists>noise ctx. px_noise (sv_proxy s) = Some noise \<and> noise_ctx_p noise = Some ctx
        \<and> noise_buffer_size noise = conf_value (buffer_size (sv_proxy s))))"
proof -
  obtain s0 where s0: "all_merged s0 s" "server_ok B (length (uf_upstreams (nf_up c'))) s0"
    using accepted_servers(4) [OF assms(1,2,4)] assms(5) by blast
  note m = all_merged_server [OF s0]
  have "k < length (uf_upstreams (nf_up c')) \<and> ue_peers (uf_upstreams (nf_up c') ! k) \<noteq> None" if "pp_upstream (sv_pass s) = Some k" for k
    using m(3) [OF that] accepted_upstreams(1) [OF assms(1,3)] by (simp add: nth_mem)
  then show ?thesis using accepted_servers(3) [OF assms(1,2,4)] m(1,2,4-7) by (cases "pp_upstream (sv_pass s)") auto
qed

theorem accepted_block_ready_witness:
  "\<exists>d. d \<in> set (nf_listen demo_accepted_block) \<and> lo_ctx d = 1 \<and> ue_peers (uf_upstreams (nf_up demo_accepted_block) ! 0) \<noteq> None
     \<and> cscf_handler (sv_core (nf_servers demo_accepted_block ! 1)) = Some (bk_content demo_block_lib)"
  using accepted_block_ready [OF demo_block_accepted [unfolded demo_block_def] demo_contracts(1,2), of 1 "nf_servers demo_accepted_block ! 1"]
    demo_block_parts(1,2) by auto


definition demo_port :: listening where
  "demo_port = create_listening (\<lambda>a p. []) [(new_listen 1 (Inet 10) 80 False)\<lparr>lo_noise_on := True\<rparr>,
     (new_listen 0 (Inet 0) 80 True)\<lparr>lo_bind := True\<rparr>] 1"

definition demo_arrival :: accepted where
  "demo_arrival = \<lparr>ac_servers = ls_servers demo_port, ac_local = Some (Inet 10), ac_conn = plain_connection 1,
     ac_buffer = None, ac_stream = True\<rparr>"

lemma demo_block_sockets: "nf_sockets demo_accepted_block = [demo_port]"
proof -
  have "make_listenings (bk_socket_alloc demo_block_lib) (bk_ntop demo_block_lib) (bk_sort demo_block_lib)
      (nf_listen demo_accepted_block) = Some (nf_sockets demo_accepted_block)"
    using accepted_block [OF demo_block_accepted [unfolded demo_block_def]] by metis
  moreover have "make_listenings (bk_socket_alloc demo_block_lib) (bk_ntop demo_block_lib) (bk_sort demo_block_lib)
      (nf_listen demo_accepted_block) = Some [demo_port]"
    by (simp add: demo_block_parts(5) demo_block_lib_def make_listenings_def new_listen_def port_matches_def listen_port_def
        demo_sort_def listen_loop.simps demo_port_def)
  ultimately show ?thesis by simp
qed


text \<open>
  C5: The tables of an accepted block can be used. Whatever the directives were, every \<open>upstream\<close> block has a
  balancer with at least one peer, all of positive weight with nothing owed; and the worker never
  calls through a null pointer for a variable: reading any variable of the table in a session of the
  block returns, and changes no other variable.
\<close>

theorem accepted_block_tables:
  assumes "ngx_nsoc_block B dup dirs c = Ret True c'" and "atoi_contract (ul_conf (bk_up B))" and "fold_contract (bk_vars B)"
  shows "(\<forall>e \<in> set (uf_upstreams (nf_up c')). is_block e \<longrightarrow> (\<exists>p b. ue_peers e = Some (p, b) \<and> plist p \<noteq> []
      \<and> (\<forall>g. g = p \<or> b = Some g \<longrightarrow> number g = length (plist g) \<and> (\<forall>q \<in> set (plist g). fresh_peer q))))
    \<and> (\<forall>s i. sound_session (uf_vars (nf_up c')) s \<and> i < length (variables (uf_vars (nf_up c')))
      \<longrightarrow> (\<exists>r s'. ngx_nsoc_get_indexed_variable (uf_vars (nf_up c')) s i = Ret r s' \<and> sound_session (uf_vars (nf_up c')) s'
        \<and> (\<forall>j. j \<noteq> i \<longrightarrow> s_variables s' ! j = s_variables s ! j)
        \<and> (\<forall>v. r = Some v \<longrightarrow> v = Slot i \<and> settled (get_slot s' v))))"
proof -
  have "handled_by nsoc_handlers (uf_vars (nf_up c'))" by (rule accepted_variables [OF assms(1,3)])
  then show ?thesis using accepted_upstreams(2) [OF assms(1,2)] handled_evaluates by blast
qed

definition demo_block_session :: vsess where
  "demo_block_session = demo_vsess\<lparr>s_variables := [zero_value]\<rparr>"

theorem accepted_block_tables_witness:
  "(\<exists>p b. ue_peers (uf_upstreams (nf_up demo_accepted_block) ! 0) = Some (p, b) \<and> plist p \<noteq> [])
    \<and> (\<exists>r s'. ngx_nsoc_get_indexed_variable (uf_vars (nf_up demo_accepted_block)) demo_block_session 0 = Ret r s')"
proof -
  let ?c = "nf_up demo_accepted_block"
  have block: "length (uf_upstreams ?c) = 1 \<and> is_block (uf_upstreams ?c ! 0)"
    using demo_block_parts(4) by (cases "uf_upstreams ?c") auto
  then have e: "uf_upstreams ?c ! 0 \<in> set (uf_upstreams ?c)" by (simp add: nth_mem)
  have s: "sound_session (uf_vars ?c) demo_block_session"
    by (simp add: sound_session_def demo_block_parts(3) demo_block_session_def demo_vsess_def demo_venv_def venv_ok_def i64_def
        value_ok_def zero_value_def)
  have z: "0 < length (variables (uf_vars ?c))" by (simp add: demo_block_parts(3))
  note t = accepted_block_tables [OF demo_block_accepted [unfolded demo_block_def] demo_contracts(2,3)]
  have "\<exists>p b. ue_peers (uf_upstreams ?c ! 0) = Some (p, b) \<and> plist p \<noteq> []" using t [THEN conjunct1, rule_format, OF e] block by blast
  moreover have "\<exists>r s'. ngx_nsoc_get_indexed_variable (uf_vars ?c) demo_block_session 0 = Ret r s'"
    using t [THEN conjunct2, rule_format, OF conjI [OF s z]] by blast
  ultimately show ?thesis by blast
qed

end
